(* ===== verification/Prelude.thy ===== *)
theory Prelude
  imports Main "HOL-Library.Word" "HOL-Library.Sublist"
begin

text \<open>
  Shared vocabulary of the development: Go strings and the functions of the packages
  \<^verbatim>\<open>strings\<close> and \<^verbatim>\<open>strconv\<close> that the code calls, Go errors (sentinel values,
  \<^verbatim>\<open>fmt.Errorf\<close> with and without a wrapped error, \<^verbatim>\<open>errors.Join\<close>), and the value of a
  computation that may panic. A Go string is a sequence of bytes, hence a \<^typ>\<open>string\<close>;
  a byte slice is modelled by the same type. Logging is not modelled anywhere.
\<close>

named_theorems str_simps \<open>facts about the string functions of the standard library\<close>
named_theorems go_defs \<open>definitions of the straight-line operations of the model\<close>

type_synonym bytes = string

text \<open>The identity of an object that a library owns (a connection, a channel, a stream).\<close>

type_synonym handle = nat

section \<open>Panics\<close>

text \<open>A nil dereference or an explicit panic ends the computation without a value.\<close>

datatype 'a go = Val 'a | Panic

primrec go_bind :: "'a go \<Rightarrow> ('a \<Rightarrow> 'b go) \<Rightarrow> 'b go" where
  "go_bind (Val a) f = f a"
| "go_bind Panic f = Panic"

primrec returns :: "'a go \<Rightarrow> bool" where
  "returns (Val a) = True"
| "returns Panic = False"

lemma returns_iff: "returns m \<longleftrightarrow> (\<exists>a. m = Val a)"
  by (cases m) auto

lemma not_returns_iff: "\<not> returns m \<longleftrightarrow> m = Panic"
  by (cases m) auto

lemma go_bind_Val_iff: "go_bind m f = Val b \<longleftrightarrow> (\<exists>a. m = Val a \<and> f a = Val b)"
  by (cases m) auto

section \<open>Errors\<close>

text \<open>
  \<open>Sentinel\<close> is a package-level error variable, compared by identity (its name);
  \<open>Errorf\<close> an error made where it is returned; \<open>Wrap\<close> the result of
  \<^verbatim>\<open>fmt.Errorf\<close> with \<^verbatim>\<open>%w\<close> (the text before the wrapped error, and the error) and of
  \<^verbatim>\<open>errors.Wrap\<close>; \<open>Join\<close> the result of \<^verbatim>\<open>errors.Join\<close> on two errors;
  \<open>External\<close> an error a library returned, with its text.
\<close>

datatype go_error =
    Sentinel string
  | Errorf string
  | Wrap string go_error
  | Join go_error go_error
  | External string

text \<open>\<^verbatim>\<open>errors.Is\<close> against a sentinel: the error itself or any error it wraps.\<close>

primrec error_is :: "go_error \<Rightarrow> go_error \<Rightarrow> bool" where
  "error_is (Sentinel n) t = (Sentinel n = t)"
| "error_is (Errorf m) t = (Errorf m = t)"
| "error_is (Wrap m e) t = (Wrap m e = t \<or> error_is e t)"
| "error_is (Join a b) t = (Join a b = t \<or> error_is a t \<or> error_is b t)"
| "error_is (External m) t = (External m = t)"

lemma error_is_refl [simp]: "error_is e e"
  by (cases e) simp_all

section \<open>The package strings\<close>

text \<open>
  \<open>cut_at c s\<close> is the text before and after the first occurrence of \<open>c\<close>.
  \<open>SplitN2\<close> is \<^verbatim>\<open>strings.SplitN(s, sep, 2)\<close> for a one-byte separator.
\<close>

fun cut_at :: "char \<Rightarrow> string \<Rightarrow> (string \<times> string) option" where
  "cut_at c [] = None"
| "cut_at c (x # xs) =
     (if x = c then Some ([], xs)
      else (case cut_at c xs of None \<Rightarrow> None | Some (a, b) \<Rightarrow> Some (x # a, b)))"

definition SplitN2 :: "string \<Rightarrow> char \<Rightarrow> string list" where
  "SplitN2 s c = (case cut_at c s of None \<Rightarrow> [s] | Some (a, b) \<Rightarrow> [a, b])"

text \<open>\<^verbatim>\<open>strings.Split(s, sep)\<close> for a one-byte separator.\<close>

fun Split :: "string \<Rightarrow> char \<Rightarrow> string list" where
  "Split [] c = [[]]"
| "Split (x # xs) c =
     (if x = c then [] # Split xs c
      else (case Split xs c of [] \<Rightarrow> [[x]] | p # ps \<Rightarrow> (x # p) # ps))"

definition Contains :: "string \<Rightarrow> string \<Rightarrow> bool" where
  "Contains s sub = sublist sub s"

definition HasPrefix :: "string \<Rightarrow> string \<Rightarrow> bool" where
  "HasPrefix s pre = prefix pre s"

lemma cut_at_append: "c \<notin> set a \<Longrightarrow> cut_at c (a @ c # b) = Some (a, b)"
  by (induction a) auto

lemma cut_at_absent: "c \<notin> set s \<Longrightarrow> cut_at c s = None"
  by (induction s) auto

lemma cut_at_Some_iff: "cut_at c s = Some (a, b) \<longleftrightarrow> s = a @ c # b \<and> c \<notin> set a"
proof
  assume l: "cut_at c s = Some (a, b)"
  then have "c \<in> set s" using cut_at_absent [of c s] by auto
  then obtain a' b' where s: "s = a' @ c # b'" "c \<notin> set a'" by (meson split_list_first)
  with l show "s = a @ c # b \<and> c \<notin> set a" by (simp add: cut_at_append)
qed (auto simp: cut_at_append)

lemma first_occurrence:
  assumes "c \<in> set s"
  obtains a b where "s = a @ c # b" "c \<notin> set a"
  using assms by (metis split_list_first)

lemma first_occurrence_unique:
  fixes c :: char
  assumes "a @ c # b = a' @ c # b'" "c \<notin> set a" "c \<notin> set a'"
  shows "a = a' \<and> b = b'"
proof -
  from assms(1) have "cut_at c (a @ c # b) = cut_at c (a' @ c # b')" by simp
  with assms(2,3) show ?thesis by (simp add: cut_at_append)
qed

lemma SplitN2_append: "c \<notin> set a \<Longrightarrow> SplitN2 (a @ c # b) c = [a, b]"
  by (simp add: SplitN2_def cut_at_append)

lemma SplitN2_absent: "c \<notin> set s \<Longrightarrow> SplitN2 s c = [s]"
  by (simp add: SplitN2_def cut_at_absent)

lemma length_SplitN2 [str_simps]: "length (SplitN2 s c) = 2 \<longleftrightarrow> c \<in> set s"
  by (metis SplitN2_absent SplitN2_append first_occurrence length_Cons list.size(3)
      numeral_2_eq_2 n_not_Suc_n)

lemma Contains_char [str_simps]: "Contains s [c] \<longleftrightarrow> c \<in> set s"
  by (auto simp: Contains_def sublist_def in_set_conv_decomp)

lemma Split_not_Nil [simp]: "Split s c \<noteq> []"
  by (induction s) (auto split: list.splits)

lemma Split_hd [str_simps]: "Split s c ! 0 = takeWhile (\<lambda>x. x \<noteq> c) s"
  by (induction s) (auto split: list.splits)

end
