(* ===== verification/Device_Manager.thy ===== *)
theory Device_Manager
  imports Prelude
begin

text \<open>
  The device registry of the SSH server (\<^verbatim>\<open>ssh/main.go\<close>): the map from device identifiers to
  yamux sessions, and the HTTP handler that upgrades a device's request, registers its
  session and waits for it to close. Every operation of the registry holds its mutex from
  beginning to end, so it is one atomic step; the handlers of different requests
  interleave between these steps.

  A session is known by the number of the request that created it. \<open>closed\<close> holds the
  sessions whose close channel is closed, because \<^verbatim>\<open>Close\<close> was called on them or because
  the peer went away.
\<close>

type_synonym sess = handle

record DeviceManager =
  sessions :: "string \<rightharpoonup> sess"
  closed :: "sess set"

definition NewDeviceManager :: DeviceManager where
  "NewDeviceManager = \<lparr>sessions = Map.empty, closed = {}\<rparr>"

definition session_Close :: "sess \<Rightarrow> DeviceManager \<Rightarrow> DeviceManager" where
  "session_Close s dm = dm\<lparr>closed := insert s (closed dm)\<rparr>"

definition AddDevice :: "DeviceManager \<Rightarrow> string \<Rightarrow> sess \<Rightarrow> DeviceManager" where
  "AddDevice dm deviceID session =
     (let dm' = (case sessions dm deviceID of
                   None \<Rightarrow> dm
                 | Some oldSession \<Rightarrow> session_Close oldSession dm)
      in dm'\<lparr>sessions := (sessions dm')(deviceID \<mapsto> session)\<rparr>)"

definition RemoveDevice :: "DeviceManager \<Rightarrow> string \<Rightarrow> DeviceManager" where
  "RemoveDevice dm deviceID =
     (case sessions dm deviceID of
        None \<Rightarrow> dm
      | Some session \<Rightarrow>
          (session_Close session dm)\<lparr>sessions := (sessions dm)(deviceID := None)\<rparr>)"

text \<open>Opening a stream on a session is yamux's; \<open>yopen\<close> is its result.\<close>

definition OpenStream ::
  "(sess \<Rightarrow> go_error + handle) \<Rightarrow> DeviceManager \<Rightarrow> string \<Rightarrow> go_error + handle" where
  "OpenStream yopen dm deviceID =
     (case sessions dm deviceID of
        None \<Rightarrow> Inl (Errorf (''device '' @ deviceID @ '' not connected''))
      | Some session \<Rightarrow> yopen session)"

lemma sessions_AddDevice [simp]:
  "sessions (AddDevice dm d s) = (sessions dm)(d \<mapsto> s)"
  by (simp add: AddDevice_def session_Close_def Let_def split: option.split)

lemma closed_AddDevice [simp]:
  "closed (AddDevice dm d s) = set_option (sessions dm d) \<union> closed dm"
  by (simp add: AddDevice_def session_Close_def Let_def split: option.split)

lemma sessions_RemoveDevice [simp]:
  "sessions (RemoveDevice dm d) = (sessions dm)(d := None)"
  by (auto simp: RemoveDevice_def session_Close_def split: option.split)

lemma closed_RemoveDevice [simp]:
  "closed (RemoveDevice dm d) = set_option (sessions dm d) \<union> closed dm"
  by (simp add: RemoveDevice_def session_Close_def split: option.split)

lemma session_Close_simps [simp]:
  "sessions (session_Close s dm) = sessions dm"
  "closed (session_Close s dm) = insert s (closed dm)"
  by (simp_all add: session_Close_def)

section \<open>The interface the tunnel uses\<close>

text \<open>
  A registry as its client sees it: what a stream opened after an insertion or a removal
  reaches. \<open>registered\<close> is the abstract content.
\<close>

locale device_registry =
  fixes registered :: "'m \<Rightarrow> string \<Rightarrow> sess option"
    and add_device :: "'m \<Rightarrow> string \<Rightarrow> sess \<Rightarrow> 'm"
    and remove_device :: "'m \<Rightarrow> string \<Rightarrow> 'm"
    and yamux_open :: "sess \<Rightarrow> go_error + handle"
    and open_stream :: "'m \<Rightarrow> string \<Rightarrow> go_error + handle"
  assumes registered_add: "registered (add_device m d s) = (registered m)(d \<mapsto> s)"
    and registered_remove: "registered (remove_device m d) = (registered m)(d := None)"
    and open_registered: "registered m d = Some s \<Longrightarrow> open_stream m d = yamux_open s"
    and open_unregistered: "registered m d = None \<Longrightarrow> \<exists>e. open_stream m d = Inl e"
begin

lemma open_after_add: "open_stream (add_device m d s) d = yamux_open s"
  by (simp add: open_registered registered_add)

lemma open_after_remove: "\<exists>e. open_stream (remove_device m d) d = Inl e"
  by (simp add: open_unregistered registered_remove)

lemma open_Inr_registered:
  assumes "open_stream m d = Inr st"
  obtains s where "registered m d = Some s" "yamux_open s = Inr st"
  using assms open_registered open_unregistered
  by (metis Inl_Inr_False option.exhaust)

lemma open_Inr_iff:
  "open_stream m d = Inr st \<longleftrightarrow> (\<exists>s. registered m d = Some s \<and> yamux_open s = Inr st)"
  by (metis open_Inr_registered open_registered)

end

interpretation dm: device_registry sessions AddDevice RemoveDevice yopen "OpenStream yopen"
  for yopen
  by unfold_locales (auto simp: OpenStream_def)

end
