(* ===== verification/Tunnel.thy ===== *)
theory Tunnel
  imports Device_Manager
begin

text \<open>
  \<^verbatim>\<open>ssh/server/tunnel.go\<close>: the tunnel the SSH server dials through, over the device
  registry, and the adapter that makes a connection of a yamux stream.
\<close>

record streamConn =
  stream :: handle
  conn_target :: string

record tunnelAddr =
  network :: string
  address :: string

text \<open>
  \<open>open_stream\<close> is the registry's \<^verbatim>\<open>OpenStream\<close>, the field \<^verbatim>\<open>deviceManager\<close> of the
  code's \<^verbatim>\<open>DeviceManagerTunnel\<close>.
\<close>

definition Tunnel_Dial ::
  "(string \<Rightarrow> go_error + handle) \<Rightarrow> string \<Rightarrow> go_error + streamConn" where
  "Tunnel_Dial open_stream target =
     (case open_stream target of
        Inl err \<Rightarrow> Inl (Wrap (''failed to open stream to device '' @ target) err)
      | Inr st \<Rightarrow> Inr \<lparr>stream = st, conn_target = target\<rparr>)"

text \<open>Reading, writing and closing are the stream's, given as arguments.\<close>

definition streamConn_Read :: "(handle \<Rightarrow> nat \<Rightarrow> 'r) \<Rightarrow> streamConn \<Rightarrow> nat \<Rightarrow> 'r" where
  "streamConn_Read stream_read c b = stream_read (stream c) b"

definition streamConn_Write :: "(handle \<Rightarrow> bytes \<Rightarrow> 'r) \<Rightarrow> streamConn \<Rightarrow> bytes \<Rightarrow> 'r" where
  "streamConn_Write stream_write c b = stream_write (stream c) b"

definition streamConn_Close :: "(handle \<Rightarrow> 'r) \<Rightarrow> streamConn \<Rightarrow> 'r" where
  "streamConn_Close stream_close c = stream_close (stream c)"

definition streamConn_LocalAddr :: "streamConn \<Rightarrow> tunnelAddr" where
  "streamConn_LocalAddr c = \<lparr>network = ''yamux'', address = ''local''\<rparr>"

definition streamConn_RemoteAddr :: "streamConn \<Rightarrow> tunnelAddr" where
  "streamConn_RemoteAddr c = \<lparr>network = ''yamux'', address = conn_target c\<rparr>"

text \<open>The three deadline setters ignore their argument and report no error.\<close>

definition streamConn_SetDeadline :: "streamConn \<Rightarrow> 't \<Rightarrow> go_error option" where
  "streamConn_SetDeadline c t = None"

definition streamConn_SetReadDeadline :: "streamConn \<Rightarrow> 't \<Rightarrow> go_error option" where
  "streamConn_SetReadDeadline c t = None"

definition streamConn_SetWriteDeadline :: "streamConn \<Rightarrow> 't \<Rightarrow> go_error option" where
  "streamConn_SetWriteDeadline c t = None"

section \<open>The interface of a session to its tunnel\<close>

locale tunnel =
  fixes dial :: "string \<Rightarrow> go_error + streamConn"
  assumes dial_target: "dial t = Inr c \<Longrightarrow> conn_target c = t"
begin

lemma dial_remote: "dial t = Inr c \<Longrightarrow> address (streamConn_RemoteAddr c) = t"
  by (simp add: streamConn_RemoteAddr_def dial_target)

lemma dial_separates: "dial t = Inr c \<Longrightarrow> dial t' = Inr c \<Longrightarrow> t = t'"
  by (auto dest: dial_target)

end

interpretation tun: tunnel "Tunnel_Dial open_stream" for open_stream
  by unfold_locales (auto simp: Tunnel_Dial_def split: sum.splits)

lemma Tunnel_Dial_Inr_iff:
  "Tunnel_Dial op t = Inr c \<longleftrightarrow> op t = Inr (stream c) \<and> conn_target c = t"
  by (cases c) (auto simp: Tunnel_Dial_def split: sum.splits)

lemma Tunnel_Dial_Inl_iff:
  "Tunnel_Dial op t = Inl e \<longleftrightarrow>
     (\<exists>e'. op t = Inl e' \<and> e = Wrap (''failed to open stream to device '' @ t) e')"
  by (auto simp: Tunnel_Dial_def split: sum.splits)

text \<open>The tunnel over the device registry, the code's \<^verbatim>\<open>DeviceManagerTunnel\<close>.\<close>

definition registry_dial ::
  "(sess \<Rightarrow> go_error + handle) \<Rightarrow> DeviceManager \<Rightarrow> string \<Rightarrow> go_error + streamConn" where
  "registry_dial yopen m = Tunnel_Dial (OpenStream yopen m)"

lemma registry_dial_Inr:
  "registry_dial yopen m d = Inr c \<longleftrightarrow>
     (\<exists>s. sessions m d = Some s \<and> yopen s = Inr (stream c)) \<and> conn_target c = d"
  by (auto simp: registry_dial_def Tunnel_Dial_Inr_iff dm.open_Inr_iff)

text \<open>
  Dialling a device through the tunnel succeeds exactly when the device is registered
  and its session opens a stream; the connection is that stream, and its remote address is
  the device dialled.
\<close>

theorem tunnel_dial_exact:
  "Tunnel_Dial (OpenStream yopen m) d = Inr c \<longleftrightarrow>
     (\<exists>s. sessions m d = Some s \<and> yopen s = Inr (stream c)) \<and> address (streamConn_RemoteAddr c) = d"
  by (auto simp: Tunnel_Dial_Inr_iff dm.open_Inr_iff streamConn_RemoteAddr_def)

text \<open>
  Right after a device is added, dialling it reaches the added session and no other;
  right after it is removed, dialling it fails with an error that wraps the cause.
\<close>

theorem tunnel_dial_after_update:
  "Tunnel_Dial (OpenStream yopen (AddDevice m d s)) d =
     (case yopen s of
        Inl e \<Rightarrow> Inl (Wrap (''failed to open stream to device '' @ d) e)
      | Inr st \<Rightarrow> Inr \<lparr>stream = st, conn_target = d\<rparr>) \<and>
   (\<exists>e cause. Tunnel_Dial (OpenStream yopen (RemoveDevice m d)) d = Inl e \<and>
      OpenStream yopen (RemoveDevice m d) d = Inl cause \<and> error_is e cause)"
proof
  show "Tunnel_Dial (OpenStream yopen (AddDevice m d s)) d =
     (case yopen s of
        Inl e \<Rightarrow> Inl (Wrap (''failed to open stream to device '' @ d) e)
      | Inr st \<Rightarrow> Inr \<lparr>stream = st, conn_target = d\<rparr>)"
    by (simp add: Tunnel_Dial_def dm.open_after_add)
  obtain cause where "OpenStream yopen (RemoveDevice m d) d = Inl cause"
    using dm.open_after_remove by blast
  then show "\<exists>e cause. Tunnel_Dial (OpenStream yopen (RemoveDevice m d)) d = Inl e \<and>
      OpenStream yopen (RemoveDevice m d) d = Inl cause \<and> error_is e cause"
    by (simp add: Tunnel_Dial_def)
qed

end
