(* ===== verification/Target.thy ===== *)
theory Target
  imports Prelude
begin

text \<open>
  The package \<^verbatim>\<open>ssh/pkg/target\<close>: the SSH user name a client connects with, split into
  the user on the device and the rest (a device identifier, or \<^verbatim>\<open>namespace.hostname\<close>).
\<close>

record Target =
  Username :: string
  Data :: string

definition ErrSplitTarget :: go_error where
  "ErrSplitTarget = Sentinel ''ErrSplitTarget''"

definition ErrNotSSHID :: go_error where
  "ErrNotSSHID = Sentinel ''ErrNotSSHID''"

definition NewTarget :: "string \<Rightarrow> go_error + Target" where
  "NewTarget sshid =
     (let parts = SplitN2 sshid (CHR ''@'')
      in if length parts \<noteq> 2 then Inl ErrSplitTarget
         else Inr \<lparr>Username = parts ! 0, Data = parts ! 1\<rparr>)"

definition IsSSHID :: "Target \<Rightarrow> bool" where
  "IsSSHID t = Contains (Data t) ''.''"

definition SplitSSHID :: "Target \<Rightarrow> go_error + string \<times> string" where
  "SplitSSHID t =
     (if \<not> IsSSHID t then Inl ErrNotSSHID
      else let parts = SplitN2 (Data t) (CHR ''.'')
           in if length parts \<noteq> 2 then Inl ErrSplitTarget
              else Inr (parts ! 0, parts ! 1))"

section \<open>Splitting\<close>

lemma NewTarget_append:
  "CHR ''@'' \<notin> set u \<Longrightarrow>
   NewTarget (u @ CHR ''@'' # d) = Inr \<lparr>Username = u, Data = d\<rparr>"
  by (simp add: NewTarget_def SplitN2_append)

lemma NewTarget_no_at: "CHR ''@'' \<notin> set s \<Longrightarrow> NewTarget s = Inl ErrSplitTarget"
  by (simp add: NewTarget_def SplitN2_absent)

lemma IsSSHID_iff: "IsSSHID t \<longleftrightarrow> CHR ''.'' \<in> set (Data t)"
  by (simp add: IsSSHID_def Contains_char)

lemma NewTarget_iff:
  "NewTarget s = Inr t \<longleftrightarrow>
     s = Username t @ CHR ''@'' # Data t \<and> CHR ''@'' \<notin> set (Username t)"
proof (cases "CHR ''@'' \<in> set s")
  case True
  then obtain u d where s: "s = u @ CHR ''@'' # d" and u: "CHR ''@'' \<notin> set u"
    by (rule first_occurrence)
  have "NewTarget s = Inr t \<longleftrightarrow> t = \<lparr>Username = u, Data = d\<rparr>"
    using NewTarget_append [OF u, of d] s by auto
  also have "\<dots> \<longleftrightarrow> s = Username t @ CHR ''@'' # Data t \<and> CHR ''@'' \<notin> set (Username t)"
    unfolding s using u by (cases t) (auto dest: first_occurrence_unique)
  finally show ?thesis .
next
  case False
  then show ?thesis by (auto simp: NewTarget_no_at)
qed

text \<open>
  Parsing an SSH user name is exact: it succeeds with a target precisely when the
  name is the target's user, an at sign and the target's data, with no at sign in the
  user part. Nothing is lost or altered, and further at signs stay in the data.
\<close>

theorem NewTarget_exact:
  "(\<exists>t. NewTarget s = Inr t \<and> Username t = u \<and> Data t = d) \<longleftrightarrow>
     s = u @ CHR ''@'' # d \<and> CHR ''@'' \<notin> set u"
  by (metis NewTarget_iff Target.select_convs(1,2))

lemma SplitSSHID_append:
  "CHR ''.'' \<notin> set n \<Longrightarrow> Data t = n @ CHR ''.'' # h \<Longrightarrow> SplitSSHID t = Inr (n, h)"
  by (simp add: SplitSSHID_def IsSSHID_iff SplitN2_append)

lemma SplitSSHID_not: "\<not> IsSSHID t \<Longrightarrow> SplitSSHID t = Inl ErrNotSSHID"
  by (simp add: SplitSSHID_def)

lemma SplitSSHID_Inr_iff:
  "SplitSSHID t = Inr (n, h) \<longleftrightarrow> Data t = n @ CHR ''.'' # h \<and> CHR ''.'' \<notin> set n"
proof (cases "CHR ''.'' \<in> set (Data t)")
  case True
  then obtain n' h' where d: "Data t = n' @ CHR ''.'' # h'" and n': "CHR ''.'' \<notin> set n'"
    by (rule first_occurrence)
  then have "SplitSSHID t = Inr (n', h')" by (simp add: SplitSSHID_append)
  with d n' show ?thesis by (auto dest: first_occurrence_unique)
next
  case False
  then show ?thesis by (auto simp: SplitSSHID_not IsSSHID_iff)
qed

text \<open>
  Splitting a target into namespace and hostname is exact and case preserving: the
  result is the data before and after its first dot, byte for byte; the only error is
  that the data holds no dot, so the second error branch of the code is never taken.
\<close>

theorem SplitSSHID_exact:
  "(SplitSSHID t = Inr (n, h) \<longleftrightarrow> Data t = n @ CHR ''.'' # h \<and> CHR ''.'' \<notin> set n) \<and>
   (SplitSSHID t = Inl e \<longleftrightarrow> CHR ''.'' \<notin> set (Data t) \<and> e = ErrNotSSHID)"
proof (cases "CHR ''.'' \<in> set (Data t)")
  case True
  then obtain n' h' where "Data t = n' @ CHR ''.'' # h'" "CHR ''.'' \<notin> set n'"
    by (rule first_occurrence)
  then have "SplitSSHID t = Inr (n', h')" by (simp add: SplitSSHID_append)
  with True show ?thesis by (simp add: SplitSSHID_Inr_iff [symmetric])
next
  case False
  then show ?thesis by (auto simp: SplitSSHID_not IsSSHID_iff)
qed

end
