(* ===== verification/Std_Net.thy ===== *)
theory Std_Net
  imports Prelude
begin

text \<open>
  The functions of Go's packages \<^verbatim>\<open>net\<close> and \<^verbatim>\<open>strconv\<close> that the code relies on:
  splitting and joining host and port, and decimal numbers. Every branch of the
  library code is kept, with its error texts.
\<close>

section \<open>net.SplitHostPort and net.JoinHostPort\<close>

definition addr_err :: "string \<Rightarrow> string \<Rightarrow> go_error" where
  "addr_err addr why = External (''address '' @ addr @ '': '' @ why)"

text \<open>
  The port starts after the last colon: \<open>cut_last\<close> gives the text before and after it.
\<close>

definition cut_last :: "char \<Rightarrow> string \<Rightarrow> (string \<times> string) option" where
  "cut_last c s =
     (case cut_at c (rev s) of None \<Rightarrow> None | Some (a, b) \<Rightarrow> Some (rev b, rev a))"

text \<open>
  With a leading bracket the first closing bracket must stand just before the last
  colon: \<open>before\<close>, the text up to the last colon, is then \<open>[host]\<close> with the bracket
  as its last byte. No further bracket is allowed anywhere.
\<close>

definition SplitHostPort :: "string \<Rightarrow> go_error + string \<times> string" where
  "SplitHostPort hostport =
     (case cut_last (CHR '':'') hostport of
        None \<Rightarrow> Inl (addr_err hostport ''missing port in address'')
      | Some (before, port) \<Rightarrow>
          if take 1 hostport = ''['' then
            (case cut_at (CHR '']'') hostport of
               None \<Rightarrow> Inl (addr_err hostport ''missing ']' in address'')
             | Some (pre, rest) \<Rightarrow>
                 if rest = [] then Inl (addr_err hostport ''missing port in address'')
                 else if length pre + 1 \<noteq> length before then
                   (if take 1 rest = '':'' then Inl (addr_err hostport ''too many colons in address'')
                    else Inl (addr_err hostport ''missing port in address''))
                 else if CHR ''['' \<in> set (drop 1 hostport) then
                   Inl (addr_err hostport ''unexpected '[' in address'')
                 else if CHR '']'' \<in> set rest then
                   Inl (addr_err hostport ''unexpected ']' in address'')
                 else Inr (drop 1 pre, port))
          else if CHR '':'' \<in> set before then
            Inl (addr_err hostport ''too many colons in address'')
          else if CHR ''['' \<in> set hostport then
            Inl (addr_err hostport ''unexpected '[' in address'')
          else if CHR '']'' \<in> set hostport then
            Inl (addr_err hostport ''unexpected ']' in address'')
          else Inr (before, port))"

definition JoinHostPort :: "string \<Rightarrow> string \<Rightarrow> string" where
  "JoinHostPort host port =
     (if CHR '':'' \<in> set host then ''['' @ host @ '']:'' @ port
      else host @ '':'' @ port)"

lemma cut_last_append:
  "c \<notin> set b \<Longrightarrow> cut_last c (a @ c # b) = Some (a, b)"
  by (simp add: cut_last_def cut_at_append)

lemma cut_last_absent: "c \<notin> set s \<Longrightarrow> cut_last c s = None"
  by (simp add: cut_last_def cut_at_absent)

lemma cut_last_Some_iff: "cut_last c s = Some (a, b) \<longleftrightarrow> s = a @ c # b \<and> c \<notin> set b"
proof -
  have "cut_last c s = Some (a, b) \<longleftrightarrow> cut_at c (rev s) = Some (rev b, rev a)"
    by (auto simp: cut_last_def split: option.splits)
  also have "\<dots> \<longleftrightarrow> rev s = rev (a @ c # b) \<and> c \<notin> set b"
    by (simp add: cut_at_Some_iff)
  finally show ?thesis by (simp only: rev_is_rev_conv)
qed

definition plain_host :: "string \<Rightarrow> bool" where
  "plain_host h \<longleftrightarrow> CHR ''['' \<notin> set h \<and> CHR '']'' \<notin> set h"

definition plain_port :: "string \<Rightarrow> bool" where
  "plain_port p \<longleftrightarrow> CHR '':'' \<notin> set p \<and> CHR ''['' \<notin> set p \<and> CHR '']'' \<notin> set p"

lemma SplitHostPort_plain:
  assumes "plain_host h" "CHR '':'' \<notin> set h" "plain_port p"
  shows "SplitHostPort (h @ '':'' @ p) = Inr (h, p)"
proof -
  have "cut_last (CHR '':'') (h @ CHR '':'' # p) = Some (h, p)"
    using assms by (simp add: cut_last_append plain_port_def)
  moreover have "take 1 (h @ CHR '':'' # p) \<noteq> ''[''"
    using assms by (cases h) (auto simp: plain_host_def)
  ultimately show ?thesis
    using assms by (auto simp: SplitHostPort_def plain_host_def plain_port_def)
qed

lemma SplitHostPort_bracketed:
  assumes "plain_host h" "plain_port p"
  shows "SplitHostPort (''['' @ h @ '']:'' @ p) = Inr (h, p)"
proof -
  let ?s = "''['' @ h @ '']:'' @ p"
  have "cut_last (CHR '':'') ?s = Some (''['' @ h @ '']'', p)"
    using cut_last_append [of "CHR '':''" p "''['' @ h @ '']''"] assms
    by (simp add: plain_port_def)
  moreover have "cut_at (CHR '']'') ?s = Some (''['' @ h, '':'' @ p)"
    using cut_at_append [of "CHR '']''" "''['' @ h" "'':'' @ p"] assms
    by (simp add: plain_host_def)
  ultimately show ?thesis
    using assms by (auto simp: SplitHostPort_def plain_host_def plain_port_def)
qed

lemma SplitHostPort_Join:
  assumes "plain_host h" "plain_port p"
  shows "SplitHostPort (JoinHostPort h p) = Inr (h, p)"
  using assms SplitHostPort_plain [of h p] SplitHostPort_bracketed [of h p]
  by (auto simp: JoinHostPort_def)

text \<open>
  The addresses that split, exactly: a host without brackets, in brackets or, if it has no
  colon, as it is, then a colon and a port without colons and brackets.
\<close>

definition host_port_form :: "string \<Rightarrow> string \<Rightarrow> string \<Rightarrow> bool" where
  "host_port_form a h p \<longleftrightarrow> plain_host h \<and> plain_port p \<and>
     (a = ''['' @ h @ '']:'' @ p \<or> CHR '':'' \<notin> set h \<and> a = h @ '':'' @ p)"

lemma SplitHostPort_form:
  assumes "SplitHostPort a = Inr (h, p)"
  shows "host_port_form a h p"
proof -
  obtain before port where c: "cut_last (CHR '':'') a = Some (before, port)"
    using assms by (auto simp: SplitHostPort_def split: option.splits)
  then have a: "a = before @ CHR '':'' # port" "CHR '':'' \<notin> set port"
    by (auto simp: cut_last_Some_iff)
  show ?thesis
  proof (cases "take 1 a = ''[''")
    case True
    obtain pre rest where r: "cut_at (CHR '']'') a = Some (pre, rest)"
      using assms c True by (auto simp: SplitHostPort_def split: option.splits)
    then have s: "a = pre @ CHR '']'' # rest" "CHR '']'' \<notin> set pre"
      by (auto simp: cut_at_Some_iff)
    have ok: "rest \<noteq> []" "length pre + 1 = length before" "CHR ''['' \<notin> set (drop 1 a)"
      "CHR '']'' \<notin> set rest" "h = drop 1 pre" "p = port"
      using assms c True r by (auto simp: SplitHostPort_def split: if_splits)
    have "(pre @ '']'') @ rest = before @ CHR '':'' # port" using a(1) s(1) by simp
    then have "pre @ '']'' = before \<and> rest = CHR '':'' # port"
      using ok(2) by (subst (asm) append_eq_append_conv) simp_all
    moreover obtain x where "pre = CHR ''['' # x"
      using True s(1) by (cases pre) auto
    ultimately show ?thesis
      using a s ok by (auto simp: host_port_form_def plain_host_def plain_port_def)
  next
    case False
    then have "CHR '':'' \<notin> set before" "CHR ''['' \<notin> set a" "CHR '']'' \<notin> set a" "h = before" "p = port"
      using assms c by (auto simp: SplitHostPort_def split: if_splits)
    then show ?thesis using a by (auto simp: host_port_form_def plain_host_def plain_port_def)
  qed
qed

lemma SplitHostPort_iff: "SplitHostPort a = Inr (h, p) \<longleftrightarrow> host_port_form a h p"
  using SplitHostPort_form SplitHostPort_plain SplitHostPort_bracketed
  by (auto simp: host_port_form_def)

lemma SplitHostPort_no_colon:
  "CHR '':'' \<notin> set s \<Longrightarrow> SplitHostPort s = Inl (addr_err s ''missing port in address'')"
  by (simp add: SplitHostPort_def cut_last_absent)

section \<open>strconv.FormatInt and strconv.Atoi\<close>

definition digit_char :: "nat \<Rightarrow> char" where
  "digit_char d = char_of (48 + d)"

definition is_digit :: "char \<Rightarrow> bool" where
  "is_digit c \<longleftrightarrow> 48 \<le> (of_char c :: nat) \<and> (of_char c :: nat) \<le> 57"

definition digit_val :: "char \<Rightarrow> nat" where
  "digit_val c = of_char c - 48"

fun format_nat :: "nat \<Rightarrow> string" where
  "format_nat n =
     (if n < 10 then [digit_char n] else format_nat (n div 10) @ [digit_char (n mod 10)])"

declare format_nat.simps [simp del]

definition FormatInt :: "int \<Rightarrow> string" where
  "FormatInt i = (if i < 0 then ''-'' @ format_nat (nat (- i)) else format_nat (nat i))"

definition parse_nat :: "string \<Rightarrow> nat" where
  "parse_nat s = foldl (\<lambda>n c. 10 * n + digit_val c) 0 s"

definition ErrSyntax :: go_error where "ErrSyntax = Sentinel ''ErrSyntax''"
definition ErrRange :: go_error where "ErrRange = Sentinel ''ErrRange''"

text \<open>
  \<open>Atoi\<close>: an optional sign, at least one digit, nothing else; the value must fit a
  64-bit \<^verbatim>\<open>int\<close>.
\<close>

definition Atoi :: "string \<Rightarrow> go_error + int" where
  "Atoi s =
     (let neg = (take 1 s = ''-'');
          ds = (if take 1 s = ''-'' \<or> take 1 s = ''+'' then drop 1 s else s);
          v = (if neg then - int (parse_nat ds) else int (parse_nat ds))
      in if ds = [] \<or> \<not> list_all is_digit ds then Inl ErrSyntax
         else if v < - (2 ^ 63) \<or> 2 ^ 63 \<le> v then Inl ErrRange
         else Inr v)"

lemma of_digit_char: "d < 10 \<Longrightarrow> (of_char (digit_char d) :: nat) = 48 + d"
  by (simp add: digit_char_def of_char_of)

lemma is_digit_digit_char: "d < 10 \<Longrightarrow> is_digit (digit_char d)"
  by (simp add: is_digit_def of_digit_char)

lemma format_nat_digits: "list_all is_digit (format_nat n)"
proof (induction n rule: format_nat.induct)
  case (1 n)
  then show ?case
    by (subst format_nat.simps) (auto simp: is_digit_digit_char)
qed

lemma format_nat_not_Nil: "format_nat n \<noteq> []"
  by (subst format_nat.simps) simp

lemma parse_format_nat: "parse_nat (format_nat n) = n"
proof (induction n rule: format_nat.induct)
  case (1 n)
  show ?case
  proof (cases "n < 10")
    case True
    then show ?thesis
      by (subst format_nat.simps) (simp add: parse_nat_def digit_val_def of_digit_char)
  next
    case False
    then have "parse_nat (format_nat n) = 10 * parse_nat (format_nat (n div 10)) + n mod 10"
      by (subst format_nat.simps) (simp add: parse_nat_def digit_val_def of_digit_char)
    with False 1 show ?thesis by simp
  qed
qed

lemma format_nat_no_sign:
  "c \<in> set (format_nat n) \<Longrightarrow> c \<noteq> CHR ''-'' \<and> c \<noteq> CHR ''+'' \<and> c \<noteq> CHR '':''
     \<and> c \<noteq> CHR ''['' \<and> c \<noteq> CHR '']''"
  using format_nat_digits [of n] by (auto simp: list_all_iff is_digit_def)

lemma plain_port_format_nat: "plain_port (format_nat n)"
  using format_nat_no_sign [of _ n] by (fastforce simp: plain_port_def)

lemma Atoi_FormatInt:
  assumes "- (2 ^ 63) \<le> i" "i < 2 ^ 63"
  shows "Atoi (FormatInt i) = Inr i"
proof (cases "i < 0")
  case True
  then show ?thesis
    using assms format_nat_digits [of "nat (- i)"] format_nat_not_Nil [of "nat (- i)"]
    by (simp add: Atoi_def FormatInt_def parse_format_nat Let_def)
next
  case False
  obtain c cs where c: "format_nat (nat i) = c # cs"
    using format_nat_not_Nil by (cases "format_nat (nat i)") auto
  then have "c \<noteq> CHR ''-''" "c \<noteq> CHR ''+''"
    using format_nat_no_sign [of c "nat i"] by auto
  with False assms c format_nat_digits [of "nat i"] parse_format_nat [of "nat i"]
  show ?thesis by (simp add: Atoi_def FormatInt_def Let_def)
qed

lemma Atoi_empty: "Atoi [] = Inl ErrSyntax"
  by (simp add: Atoi_def)

end
