(* ===== verification/Host.thy ===== *)
theory Host
  imports Std_Net
begin

text \<open>
  The package \<^verbatim>\<open>ssh/pkg/host\<close>: the address a client connects from, without its port.
\<close>

record Host =
  HostName :: string

definition NewHost :: "string \<Rightarrow> go_error + Host" where
  "NewHost address =
     (case SplitHostPort address of
        Inl err \<Rightarrow> Inl err
      | Inr (host, _) \<Rightarrow> Inr \<lparr>HostName = host\<rparr>)"

definition IsLocalhost :: "Host \<Rightarrow> bool" where
  "IsLocalhost h \<longleftrightarrow> HostName h = ''127.0.0.1'' \<or> HostName h = ''::1''"

lemma NewHost_Join:
  "plain_host h \<Longrightarrow> plain_port p \<Longrightarrow> NewHost (JoinHostPort h p) = Inr \<lparr>HostName = h\<rparr>"
  by (simp add: NewHost_def SplitHostPort_Join)

text \<open>
  The address of any peer, IPv4, IPv6 or a name, written in the form the network
  package writes it, gives back exactly its host part.
\<close>

theorem NewHost_peer:
  assumes "plain_host h"
  shows "NewHost (JoinHostPort h (FormatInt (int port))) = Inr \<lparr>HostName = h\<rparr>"
  using assms by (simp add: NewHost_Join plain_port_format_nat FormatInt_def)

theorem NewHost_peer_witness:
  "NewHost (JoinHostPort ''::1'' (FormatInt (int 22))) = Inr \<lparr>HostName = ''::1''\<rparr>"
  by (rule NewHost_peer) (simp add: plain_host_def)

text \<open>
  C31. A client's address is accepted exactly if it has one of the two forms the network package
  writes, with or without brackets, and its host is then the part before the port without
  them, an empty host and an empty port included.
\<close>

theorem NewHost_exact:
  "NewHost a = Inr h \<longleftrightarrow> (\<exists>p. host_port_form a (HostName h) p)"
  by (cases h) (auto simp: NewHost_def SplitHostPort_iff [symmetric] split: sum.splits)

end
