(* ===== verification/Session.thy ===== *)
theory Session
  imports Tunnel Target Host
begin

text \<open>
  The package \<^verbatim>\<open>ssh/session\<close>: the session between one SSH client and the agent of a
  device, the snapshot of it that the client's context carries between the server's
  callbacks, and the operations that move it on.

  Sessions are shared by reference: the snapshot, the handlers and the goroutines all hold
  pointers to them. A context therefore carries a store from addresses to sessions; a nil
  pointer is \<open>None\<close>, and using one is \<open>Panic\<close>.
\<close>

section \<open>Session states\<close>

datatype State =
    StateNil | StateCreated | StateDialed | StateEvaluated | StateRegistered | StateFinished

primrec state_number :: "State \<Rightarrow> nat" where
  "state_number StateNil = 1"
| "state_number StateCreated = 2"
| "state_number StateDialed = 3"
| "state_number StateEvaluated = 4"
| "state_number StateRegistered = 5"
| "state_number StateFinished = 6"

lemma state_number_inj: "state_number a = state_number b \<longleftrightarrow> a = b"
  by (cases a; cases b) simp_all

text \<open>The code compares states by number.\<close>

instantiation State :: linorder
begin

definition less_eq_State :: "State \<Rightarrow> State \<Rightarrow> bool" where
  "less_eq_State a b \<longleftrightarrow> state_number a \<le> state_number b"

definition less_State :: "State \<Rightarrow> State \<Rightarrow> bool" where
  "less_State a b \<longleftrightarrow> state_number a < state_number b"

instance
  by standard (auto simp: less_eq_State_def less_State_def state_number_inj)

end

section \<open>Errors\<close>

definition ErrHost :: go_error where "ErrHost = Sentinel ''ErrHost''"
definition ErrDial :: go_error where "ErrDial = Sentinel ''ErrDial''"
definition ErrSeatAlreadySet :: go_error where
  "ErrSeatAlreadySet = Sentinel ''ErrSeatAlreadySet''"

section \<open>Data\<close>

text \<open>A seat is a Go \<^verbatim>\<open>int\<close>, kept at its width: the counter wraps around.\<close>

type_synonym seat = "64 word"
type_synonym addr = nat

record Agent =
  Conn :: "streamConn option"
  Client :: "handle option"
  Requests :: "handle option"
  AgentChannels :: "seat \<rightharpoonup> handle"

record Device =
  Device_UID :: string
  Device_Name :: string
  Device_Version :: string

record Session =
  UID :: string
  Agent_of :: Agent
  ClientChannels :: "seat \<rightharpoonup> handle"
  next_seat :: seat
  SSHID :: string
  Target_of :: Target
  Device_of :: Device
  IPAddress :: string
  Type :: string

record snapshot =
  snap_session :: "addr option"
  snap_state :: State

record Context =
  User :: string
  ctx_RemoteAddr :: string
  SessionID :: string
  conn :: "handle option"
  closed_conns :: "handle list"
  snap :: "snapshot option"
  store :: "addr \<rightharpoonup> Session"
  next_addr :: addr

definition upd_session :: "addr \<Rightarrow> (Session \<Rightarrow> Session) \<Rightarrow> Context \<Rightarrow> Context" where
  "upd_session a f ctx = ctx\<lparr>store := (store ctx)(a := map_option f (store ctx a))\<rparr>"

definition deref :: "Context \<Rightarrow> addr option \<Rightarrow> Session go" where
  "deref ctx p =
     (case p of
        None \<Rightarrow> Panic
      | Some a \<Rightarrow> (case store ctx a of None \<Rightarrow> Panic | Some s \<Rightarrow> Val s))"

section \<open>Snapshots\<close>

definition getSnapshot :: "Context \<Rightarrow> Context \<times> snapshot" where
  "getSnapshot ctx =
     (case snap ctx of
        Some sn \<Rightarrow> (ctx, sn)
      | None \<Rightarrow>
          let sn = \<lparr>snap_session = None, snap_state = StateNil\<rparr>
          in (ctx\<lparr>snap := Some sn\<rparr>, sn))"

text \<open>The snapshot is shared by reference with the context, so saving updates the context.\<close>

definition save :: "addr option \<Rightarrow> State \<Rightarrow> Context \<Rightarrow> Context" where
  "save p st ctx = ctx\<lparr>snap := Some \<lparr>snap_session = p, snap_state = st\<rparr>\<rparr>"

definition retrieve :: "snapshot \<Rightarrow> addr option \<times> State" where
  "retrieve sn = (snap_session sn, snap_state sn)"

definition ObtainSession :: "Context \<Rightarrow> Context \<times> (addr option \<times> State)" where
  "ObtainSession ctx = (let (ctx', sn) = getSnapshot ctx in (ctx', retrieve sn))"

section \<open>Seats and channels\<close>

definition NewSeat :: "Session \<Rightarrow> Session \<times> seat" where
  "NewSeat s = (s\<lparr>next_seat := next_seat s + 1\<rparr>, next_seat s)"

text \<open>\<open>SetPty\<close> does nothing and \<open>Get\<close> always answers a fresh seat, without a pty.\<close>

definition Seats_SetPty :: "Session \<Rightarrow> seat \<Rightarrow> bool \<Rightarrow> Session" where
  "Seats_SetPty s i b = s"

definition Seats_Get :: "Session \<Rightarrow> seat \<Rightarrow> bool \<times> bool" where
  "Seats_Get s i = (False, True)"

text \<open>\<open>accepted\<close> is the result of accepting the client's channel.\<close>

definition NewClientChannel ::
  "go_error + handle \<Rightarrow> seat \<Rightarrow> Session \<Rightarrow> Session \<times> (go_error + handle)" where
  "NewClientChannel accepted i s =
     (if i \<in> dom (ClientChannels s) then (s, Inl ErrSeatAlreadySet)
      else (case accepted of
              Inl err \<Rightarrow> (s, Inl err)
            | Inr ch \<Rightarrow> (s\<lparr>ClientChannels := (ClientChannels s)(i \<mapsto> ch)\<rparr>, Inr ch)))"

text \<open>\<open>open_channel\<close> opens a channel of a kind on the agent's client.\<close>

definition NewAgentChannel ::
  "(handle \<Rightarrow> string \<Rightarrow> go_error + handle) \<Rightarrow> string \<Rightarrow> seat \<Rightarrow> Session \<Rightarrow>
   Session \<times> (go_error + handle)" where
  "NewAgentChannel open_channel name i s =
     (if i \<in> dom (AgentChannels (Agent_of s)) then (s, Inl ErrSeatAlreadySet)
      else (case Client (Agent_of s) of
              None \<Rightarrow> (s, Inl (Errorf ''agent client not established''))
            | Some cl \<Rightarrow>
                (case open_channel cl name of
                   Inl err \<Rightarrow> (s, Inl err)
                 | Inr ch \<Rightarrow>
                     (s\<lparr>Agent_of := (Agent_of s)\<lparr>AgentChannels :=
                          (AgentChannels (Agent_of s))(i \<mapsto> ch)\<rparr>\<rparr>, Inr ch))))"

section \<open>Authentication methods\<close>

record ClientConfig =
  cfg_User :: string
  cfg_Auth :: "string list"

text \<open>
  An authentication method, as the code's interface has it: its number, the function that
  fills the client configuration (here: with passwords), and an evaluation.
\<close>

record auth =
  auth_Method :: int
  auth_Auth :: "Session \<Rightarrow> ClientConfig \<Rightarrow> go_error + ClientConfig"
  auth_Evaluate :: "Session \<Rightarrow> go_error option"

definition AuthMethodPassword :: int where "AuthMethodPassword = 0"

definition AuthPassword :: "string \<Rightarrow> auth" where
  "AuthPassword pwd =
     \<lparr>auth_Method = AuthMethodPassword,
      auth_Auth = (\<lambda>_ cfg. Inr (cfg\<lparr>cfg_Auth := [pwd]\<rparr>)),
      auth_Evaluate = (\<lambda>_. None)\<rparr>"

section \<open>The session's operations\<close>

text \<open>
  \<open>NewSession\<close> allocates a session for the target the user name gives, with the fixed
  device version of the minimal build, and saves it in the snapshot as created. On an
  error the context is untouched.
\<close>

definition fresh_session :: "Context \<Rightarrow> Host \<Rightarrow> Target \<Rightarrow> Session" where
  "fresh_session ctx hos tgt =
     \<lparr>UID = SessionID ctx,
      Agent_of = \<lparr>Conn = None, Client = None, Requests = None, AgentChannels = Map.empty\<rparr>,
      ClientChannels = Map.empty,
      next_seat = 0,
      SSHID = User ctx,
      Target_of = tgt,
      Device_of = \<lparr>Device_UID = Data tgt, Device_Name = Data tgt, Device_Version = ''v0.9.3''\<rparr>,
      IPAddress = HostName hos,
      Type = []\<rparr>"

definition NewSession :: "Context \<Rightarrow> Context \<times> (go_error + addr)" where
  "NewSession ctx =
     (case NewHost (ctx_RemoteAddr ctx) of
        Inl _ \<Rightarrow> (ctx, Inl ErrHost)
      | Inr hos \<Rightarrow>
          (case NewTarget (User ctx) of
             Inl err \<Rightarrow> (ctx, Inl err)
           | Inr tgt \<Rightarrow>
               let a = next_addr ctx;
                   ctx1 = ctx\<lparr>store := (store ctx)(a \<mapsto> fresh_session ctx hos tgt),
                              next_addr := a + 1\<rparr>;
                   (ctx2, _) = getSnapshot ctx1
               in (save (Some a) StateCreated ctx2, Inr a)))"

text \<open>The identifier a session dials: without a tenant, the default tenant is put before it.\<close>

definition dial_id :: "string \<Rightarrow> string" where
  "dial_id uid = (if \<not> Contains uid '':'' then ''default:'' @ uid else uid)"

text \<open>
  \<open>dial\<close> is the tunnel's. A failed dial leaves the session as it was and its error is
  \<open>ErrDial\<close> joined with the tunnel's error.
\<close>

definition Session_Dial ::
  "(string \<Rightarrow> go_error + streamConn) \<Rightarrow> Context \<Rightarrow> addr \<Rightarrow> (Context \<times> go_error option) go" where
  "Session_Dial dial ctx a =
     go_bind (deref ctx (Some a)) (\<lambda>s.
       case dial (dial_id (Device_UID (Device_of s))) of
         Inl err \<Rightarrow> Val (ctx, Some (Join ErrDial err))
       | Inr c \<Rightarrow>
           Val (upd_session a (\<lambda>s. s\<lparr>Agent_of := (Agent_of s)\<lparr>Conn := Some c\<rparr>\<rparr>) ctx, None))"

definition Session_Evaluate :: "Context \<Rightarrow> addr \<Rightarrow> Context \<times> go_error option" where
  "Session_Evaluate ctx a =
     (let (ctx', _) = getSnapshot ctx in (save (Some a) StateEvaluated ctx', None))"

text \<open>
  \<open>new_client_conn\<close> is the SSH client handshake over a connection: the client and its
  stream of global requests. The receiver of \<^verbatim>\<open>Auth\<close> is not used: everything goes to the
  session the snapshot holds.
\<close>

type_synonym handshake = "streamConn \<Rightarrow> ClientConfig \<Rightarrow> go_error + handle \<times> handle"

definition auth_connect :: "handshake \<Rightarrow> ClientConfig \<Rightarrow> Context \<Rightarrow> addr \<Rightarrow>
    (Context \<times> go_error option) go" where
  "auth_connect new_client_conn cfg ctx a =
     go_bind (deref ctx (Some a)) (\<lambda>s.
       case Conn (Agent_of s) of
         None \<Rightarrow> Panic
       | Some c \<Rightarrow>
           (case new_client_conn c cfg of
              Inl err \<Rightarrow>
                Val (upd_session a (\<lambda>s. s\<lparr>Agent_of := (Agent_of s)\<lparr>Conn := None\<rparr>\<rparr>) ctx, Some err)
            | Inr (cl, reqs) \<Rightarrow>
                Val (save (Some a) StateFinished
                  (upd_session a (\<lambda>s. s\<lparr>Agent_of := (Agent_of s)\<lparr>Client := Some cl,
                     Requests := Some reqs\<rparr>\<rparr>) ctx), None)))"

definition Session_Auth ::
  "(string \<Rightarrow> go_error + streamConn) \<Rightarrow> handshake \<Rightarrow> Context \<Rightarrow> auth \<Rightarrow>
   (Context \<times> go_error option) go" where
  "Session_Auth dial new_client_conn ctx0 auth =
     (let (ctx, sn) = getSnapshot ctx0; (sess, state) = retrieve sn
      in if state \<noteq> StateEvaluated \<and> state \<noteq> StateRegistered
         then Val (ctx, Some (Errorf ''invalid session state''))
         else go_bind (deref ctx sess) (\<lambda>s.
           case auth_Auth auth s \<lparr>cfg_User = Username (Target_of s), cfg_Auth = []\<rparr> of
             Inl err \<Rightarrow> Val (ctx, Some err)
           | Inr cfg \<Rightarrow>
               if Conn (Agent_of s) = None then
                 go_bind (Session_Dial dial ctx (the sess)) (\<lambda>(ctx', err).
                   case err of
                     Some e \<Rightarrow> Val (ctx', Some e)
                   | None \<Rightarrow> auth_connect new_client_conn cfg ctx' (the sess))
               else auth_connect new_client_conn cfg ctx (the sess)))"

text \<open>No-ops of the minimal build.\<close>

definition KeepAlive :: "Session \<Rightarrow> go_error option" where "KeepAlive s = None"
definition Recorded :: "Session \<Rightarrow> seat \<Rightarrow> go_error option" where "Recorded s i = None"
definition Announce :: "Session \<Rightarrow> handle \<Rightarrow> go_error option" where "Announce s ch = None"

text \<open>
  \<open>Finish\<close> writes one HTTP request to the connection to the agent, when there is one:
  the connection, the method and the path. It changes nothing in the session.
\<close>

definition Finish :: "Session \<Rightarrow> (streamConn \<times> string \<times> string) list \<times> go_error option" where
  "Finish s =
     (case Conn (Agent_of s) of
        None \<Rightarrow> ([], None)
      | Some c \<Rightarrow> ([(c, ''DELETE'', ''/ssh/close/'' @ UID s)], None))"

section \<open>The context invariant\<close>

definition session_ok :: "Context \<Rightarrow> Session \<Rightarrow> bool" where
  "session_ok ctx s \<longleftrightarrow>
     UID s = SessionID ctx \<and> SSHID s = User ctx \<and>
     NewTarget (User ctx) = Inr (Target_of s) \<and>
     Device_UID (Device_of s) = Data (Target_of s) \<and>
     Device_Version (Device_of s) = ''v0.9.3''"

definition store_ok :: "Context \<Rightarrow> bool" where
  "store_ok ctx \<longleftrightarrow>
     (\<forall>a s. store ctx a = Some s \<longrightarrow> session_ok ctx s \<and> a < next_addr ctx)"

text \<open>
  What the snapshot says of its session: none before one is created; afterwards a stored
  one, and once authentication has finished, one with a client over a connection. The
  states \<open>StateDialed\<close> and \<open>StateRegistered\<close> are never reached.
\<close>

definition snap_ok :: "Context \<Rightarrow> bool" where
  "snap_ok ctx \<longleftrightarrow>
     (\<forall>sn. snap ctx = Some sn \<longrightarrow>
        (case snap_session sn of
           None \<Rightarrow> snap_state sn = StateNil
         | Some a \<Rightarrow>
             snap_state sn \<in> {StateCreated, StateEvaluated, StateFinished} \<and>
             (\<exists>s. store ctx a = Some s \<and>
                (snap_state sn = StateFinished \<longrightarrow>
                   Client (Agent_of s) \<noteq> None \<and> Conn (Agent_of s) \<noteq> None))))"

definition context_inv :: "Context \<Rightarrow> bool" where
  "context_inv ctx \<longleftrightarrow> store_ok ctx \<and> snap_ok ctx"

definition new_context :: "string \<Rightarrow> string \<Rightarrow> string \<Rightarrow> Context" where
  "new_context user remote sid =
     \<lparr>User = user, ctx_RemoteAddr = remote, SessionID = sid, conn = None, closed_conns = [],
      snap = None, store = Map.empty, next_addr = 0\<rparr>"

lemma new_context_inv: "context_inv (new_context user remote sid)"
  by (simp add: context_inv_def store_ok_def snap_ok_def new_context_def)

lemmas inv_defs = context_inv_def store_ok_def snap_ok_def session_ok_def

lemma snapshot_cases:
  assumes "context_inv ctx" "snap ctx = Some sn"
  obtains (nil) "sn = \<lparr>snap_session = None, snap_state = StateNil\<rparr>"
  | (stored) a s st where "sn = \<lparr>snap_session = Some a, snap_state = st\<rparr>"
      "store ctx a = Some s" "st \<in> {StateCreated, StateEvaluated, StateFinished}"
      "st = StateFinished \<Longrightarrow> Client (Agent_of s) \<noteq> None \<and> Conn (Agent_of s) \<noteq> None"
  using assms by (cases sn; cases "snap_session sn") (auto simp: context_inv_def snap_ok_def)

lemma getSnapshot_inv: "context_inv ctx \<Longrightarrow> getSnapshot ctx = (ctx', sn) \<Longrightarrow>
    context_inv ctx' \<and> snap ctx' = Some sn \<and> store ctx' = store ctx \<and>
    User ctx' = User ctx \<and> next_addr ctx' = next_addr ctx \<and> SessionID ctx' = SessionID ctx"
  by (auto simp: getSnapshot_def inv_defs Let_def split: option.splits)

lemma save_simps [simp]:
  "store (save p st ctx) = store ctx"
  "snap (save p st ctx) = Some \<lparr>snap_session = p, snap_state = st\<rparr>"
  "User (save p st ctx) = User ctx"
  "SessionID (save p st ctx) = SessionID ctx"
  "next_addr (save p st ctx) = next_addr ctx"
  by (simp_all add: save_def)

lemma upd_session_simps [simp]:
  "store (upd_session a f ctx) = (store ctx)(a := map_option f (store ctx a))"
  "snap (upd_session a f ctx) = snap ctx"
  "User (upd_session a f ctx) = User ctx"
  "SessionID (upd_session a f ctx) = SessionID ctx"
  "next_addr (upd_session a f ctx) = next_addr ctx"
  by (simp_all add: upd_session_def)

lemma store_ok_save [simp]: "store_ok (save p st ctx) = store_ok ctx"
  by (simp add: store_ok_def session_ok_def)

lemma store_ok_upd:
  assumes "store_ok ctx" "\<And>s. session_ok ctx s \<Longrightarrow> session_ok ctx (f s)"
  shows "store_ok (upd_session a f ctx)"
proof -
  have "session_ok (upd_session a f ctx) s = session_ok ctx s" for s
    by (simp add: session_ok_def)
  then show ?thesis using assms by (auto simp: store_ok_def)
qed

lemma session_ok_agent [simp]: "session_ok ctx (s\<lparr>Agent_of := ag\<rparr>) = session_ok ctx s"
  by (simp add: session_ok_def)

text \<open>
  Updating one session keeps the snapshot's claim, unless it takes the client or the
  connection from a session whose authentication has finished.
\<close>

lemma snap_ok_upd:
  assumes "snap_ok ctx"
    and "\<And>s. Client (Agent_of s) \<noteq> None \<Longrightarrow> Conn (Agent_of s) \<noteq> None \<Longrightarrow>
       Client (Agent_of (f s)) \<noteq> None \<and> Conn (Agent_of (f s)) \<noteq> None"
  shows "snap_ok (upd_session a f ctx)"
  using assms by (fastforce simp: snap_ok_def split: option.splits)

section \<open>Preservation\<close>

lemma NewSession_inv:
  assumes "context_inv ctx" "NewSession ctx = (ctx', r)"
  shows "context_inv ctx' \<and>
    (\<forall>a. r = Inr a \<longrightarrow> snap ctx' = Some \<lparr>snap_session = Some a, snap_state = StateCreated\<rparr> \<and>
       (\<exists>s. store ctx' a = Some s \<and> Conn (Agent_of s) = None)) \<and>
    (\<forall>e. r = Inl e \<longrightarrow> ctx' = ctx)"
proof (cases "NewHost (ctx_RemoteAddr ctx)")
  case (Inl e)
  then show ?thesis using assms by (auto simp: NewSession_def)
next
  case hos: (Inr hos)
  show ?thesis
  proof (cases "NewTarget (User ctx)")
    case (Inl e)
    then show ?thesis using assms hos by (auto simp: NewSession_def)
  next
    case tgt: (Inr tgt)
    let ?ctx1 = "ctx\<lparr>store := (store ctx)(next_addr ctx \<mapsto> fresh_session ctx hos tgt),
                     next_addr := next_addr ctx + 1\<rparr>"
    obtain ctx2 sn where g: "getSnapshot ?ctx1 = (ctx2, sn)" by (cases "getSnapshot ?ctx1")
    have "store_ok ?ctx1"
      using assms(1) tgt by (auto simp: inv_defs fresh_session_def less_Suc_eq)
    moreover have "snap_ok ?ctx1"
      using assms(1) by (fastforce simp: inv_defs split: option.splits)
    ultimately have "context_inv ?ctx1" by (simp add: context_inv_def)
    from getSnapshot_inv [OF this g]
    have ctx2: "store_ok ctx2" "store ctx2 = store ?ctx1" by (simp_all add: context_inv_def)
    have r: "ctx' = save (Some (next_addr ctx)) StateCreated ctx2" "r = Inr (next_addr ctx)"
      using assms(2) hos tgt g by (auto simp: NewSession_def Let_def)
    then show ?thesis
      using ctx2 by (simp add: context_inv_def snap_ok_def fresh_session_def)
  qed
qed

lemma deref_Val_iff: "deref ctx p = Val s \<longleftrightarrow> (\<exists>a. p = Some a \<and> store ctx a = Some s)"
  by (auto simp: deref_def split: option.splits)

lemma Session_Dial_simps:
  "store ctx a = Some s \<Longrightarrow> dial (dial_id (Device_UID (Device_of s))) = Inl e \<Longrightarrow>
   Session_Dial dial ctx a = Val (ctx, Some (Join ErrDial e))"
  "store ctx a = Some s \<Longrightarrow> dial (dial_id (Device_UID (Device_of s))) = Inr c \<Longrightarrow>
   Session_Dial dial ctx a =
     Val (upd_session a (\<lambda>s. s\<lparr>Agent_of := (Agent_of s)\<lparr>Conn := Some c\<rparr>\<rparr>) ctx, None)"
  "store ctx a = None \<Longrightarrow> Session_Dial dial ctx a = Panic"
  by (simp_all add: Session_Dial_def deref_def)

lemma context_inv_set_conn:
  "context_inv ctx \<Longrightarrow>
   context_inv (upd_session a (\<lambda>s. s\<lparr>Agent_of := (Agent_of s)\<lparr>Conn := Some c\<rparr>\<rparr>) ctx)"
  by (auto simp: context_inv_def intro: store_ok_upd snap_ok_upd)

lemma Session_Dial_inv:
  assumes "context_inv ctx" "Session_Dial dial ctx a = Val (ctx', e)"
  shows "context_inv ctx' \<and> snap ctx' = snap ctx \<and>
    (e = None \<longrightarrow> (\<exists>s. store ctx' a = Some s \<and> Conn (Agent_of s) \<noteq> None))"
proof (cases "store ctx a")
  case None
  then show ?thesis using assms by (simp add: Session_Dial_simps)
next
  case (Some s)
  then show ?thesis
    using assms context_inv_set_conn [OF assms(1), of a]
    by (cases "dial (dial_id (Device_UID (Device_of s)))") (auto simp: Session_Dial_simps)
qed

lemma Session_Evaluate_inv:
  assumes "context_inv ctx" "store ctx a \<noteq> None" "Session_Evaluate ctx a = (ctx', e)"
  shows "context_inv ctx' \<and> e = None \<and>
    snap ctx' = Some \<lparr>snap_session = Some a, snap_state = StateEvaluated\<rparr> \<and>
    store ctx' = store ctx"
proof -
  obtain ctx2 sn where g: "getSnapshot ctx = (ctx2, sn)" by (cases "getSnapshot ctx")
  from getSnapshot_inv [OF assms(1) g] assms(2,3) g show ?thesis
    by (auto simp: Session_Evaluate_def context_inv_def snap_ok_def)
qed

text \<open>The handshake: the session it works on is connected and its state not yet finished.\<close>

lemma auth_connect_simps:
  "store ctx a = Some s \<Longrightarrow> Conn (Agent_of s) = Some c \<Longrightarrow> hs c cfg = Inl e \<Longrightarrow>
   auth_connect hs cfg ctx a =
     Val (upd_session a (\<lambda>s. s\<lparr>Agent_of := (Agent_of s)\<lparr>Conn := None\<rparr>\<rparr>) ctx, Some e)"
  "store ctx a = Some s \<Longrightarrow> Conn (Agent_of s) = Some c \<Longrightarrow> hs c cfg = Inr (cl, rq) \<Longrightarrow>
   auth_connect hs cfg ctx a =
     Val (save (Some a) StateFinished (upd_session a
       (\<lambda>s. s\<lparr>Agent_of := (Agent_of s)\<lparr>Client := Some cl, Requests := Some rq\<rparr>\<rparr>) ctx), None)"
  by (simp_all add: auth_connect_def deref_def)

definition finished_with :: "Context \<Rightarrow> addr \<Rightarrow> bool" where
  "finished_with ctx a \<longleftrightarrow>
     snap ctx = Some \<lparr>snap_session = Some a, snap_state = StateFinished\<rparr> \<and>
     (\<exists>s. store ctx a = Some s \<and> Client (Agent_of s) \<noteq> None)"

lemma auth_connect_inv:
  assumes inv: "context_inv ctx"
    and sn: "snap ctx = Some \<lparr>snap_session = Some a, snap_state = StateEvaluated\<rparr>"
    and s: "store ctx a = Some s" "Conn (Agent_of s) = Some c"
  shows "\<exists>ctx' e. auth_connect hs cfg ctx a = Val (ctx', e) \<and> context_inv ctx' \<and>
    (e = None \<longrightarrow> finished_with ctx' a) \<and> (e \<noteq> None \<longrightarrow> snap ctx' = snap ctx)"
proof (cases "hs c cfg")
  case (Inl e)
  let ?ctx' = "upd_session a (\<lambda>s. s\<lparr>Agent_of := (Agent_of s)\<lparr>Conn := None\<rparr>\<rparr>) ctx"
  have "store_ok ?ctx'" using inv by (auto simp: context_inv_def intro: store_ok_upd)
  then have "context_inv ?ctx'" using sn s by (simp add: context_inv_def snap_ok_def)
  moreover have "auth_connect hs cfg ctx a = Val (?ctx', Some e)"
    using s Inl by (simp add: auth_connect_simps)
  ultimately show ?thesis by simp
next
  case (Inr p)
  obtain cl rq where p: "p = (cl, rq)" by (cases p)
  let ?ctx1 = "upd_session a
    (\<lambda>s. s\<lparr>Agent_of := (Agent_of s)\<lparr>Client := Some cl, Requests := Some rq\<rparr>\<rparr>) ctx"
  let ?ctx' = "save (Some a) StateFinished ?ctx1"
  have "store_ok ?ctx1" using inv by (auto simp: context_inv_def intro: store_ok_upd)
  then have "context_inv ?ctx'" using s by (simp add: context_inv_def snap_ok_def)
  moreover have "finished_with ?ctx' a" using s by (simp add: finished_with_def)
  moreover have "auth_connect hs cfg ctx a = Val (?ctx', None)"
    using s Inr p by (simp add: auth_connect_simps)
  ultimately show ?thesis by simp
qed

lemma Session_Auth_wrong_state:
  assumes "getSnapshot ctx0 = (ctx, sn)" "snap_state sn \<noteq> StateEvaluated"
    "snap_state sn \<noteq> StateRegistered"
  shows "Session_Auth dial hs ctx0 am = Val (ctx, Some (Errorf ''invalid session state''))"
  using assms by (simp add: Session_Auth_def retrieve_def)

lemma getSnapshot_Some: "snap ctx = Some sn \<Longrightarrow> getSnapshot ctx = (ctx, sn)"
  by (simp add: getSnapshot_def)

lemma Session_Auth_evaluated:
  assumes "snap ctx = Some \<lparr>snap_session = Some a, snap_state = StateEvaluated\<rparr>"
    and "store ctx a = Some s"
    and "auth_Auth am s \<lparr>cfg_User = Username (Target_of s), cfg_Auth = []\<rparr> = Inr cfg"
  shows "Session_Auth dial hs ctx am =
    (if Conn (Agent_of s) = None then
       go_bind (Session_Dial dial ctx a) (\<lambda>(ctx', err).
         case err of Some e \<Rightarrow> Val (ctx', Some e) | None \<Rightarrow> auth_connect hs cfg ctx' a)
     else auth_connect hs cfg ctx a)"
  using assms by (simp add: Session_Auth_def getSnapshot_def retrieve_def deref_def)

section \<open>Authentication\<close>

text \<open>
  What a session asks of an authentication method: that it fills the configuration, and
  leaves the user in it alone.
\<close>

locale auth_method =
  fixes am :: auth
  assumes fills: "\<exists>cfg'. auth_Auth am s cfg = Inr cfg' \<and> cfg_User cfg' = cfg_User cfg"
begin

text \<open>With such a method, authentication never panics and keeps the invariant.\<close>

lemma auth_preserves:
  assumes inv: "context_inv ctx0"
  shows "\<exists>ctx' e. Session_Auth dial hs ctx0 am = Val (ctx', e) \<and> context_inv ctx' \<and>
    (e = None \<longrightarrow> (\<exists>a. finished_with ctx' a))"
proof -
  obtain ctx sn where g: "getSnapshot ctx0 = (ctx, sn)" by (cases "getSnapshot ctx0")
  note ctx = getSnapshot_inv [OF inv g]
  show ?thesis
  proof (cases "snap_state sn = StateEvaluated")
    case False
    then have "snap_state sn \<noteq> StateRegistered"
      using ctx by (auto elim: snapshot_cases)
    with False show ?thesis using Session_Auth_wrong_state [OF g] ctx by simp
  next
    case True
    then obtain a s where sn: "snap ctx = Some \<lparr>snap_session = Some a, snap_state = StateEvaluated\<rparr>"
      and s: "store ctx a = Some s"
      using ctx by (auto elim: snapshot_cases)
    then have ctx0: "ctx0 = ctx"
      using g True by (auto simp: getSnapshot_def Let_def split: option.splits)
    obtain cfg where cfg: "auth_Auth am s \<lparr>cfg_User = Username (Target_of s), cfg_Auth = []\<rparr> = Inr cfg"
      using fills by blast
    note eq = Session_Auth_evaluated [OF sn s cfg, of dial hs]
    show ?thesis
    proof (cases "Conn (Agent_of s)")
      case (Some c)
      then show ?thesis
        using auth_connect_inv [OF _ sn s Some, of hs cfg] ctx eq ctx0 by auto
    next
      case None
      show ?thesis
      proof (cases "dial (dial_id (Device_UID (Device_of s)))")
        case (Inl e)
        then have "Session_Auth dial hs ctx0 am = Val (ctx, Some (Join ErrDial e))"
          using eq None ctx0 by (simp add: Session_Dial_simps(1) [OF s])
        then show ?thesis using ctx by simp
      next
        case (Inr c)
        let ?ctx1 = "upd_session a (\<lambda>s. s\<lparr>Agent_of := (Agent_of s)\<lparr>Conn := Some c\<rparr>\<rparr>) ctx"
        let ?s1 = "s\<lparr>Agent_of := (Agent_of s)\<lparr>Conn := Some c\<rparr>\<rparr>"
        have inv1: "context_inv ?ctx1" using ctx by (blast intro: context_inv_set_conn)
        have sn1: "snap ?ctx1 = Some \<lparr>snap_session = Some a, snap_state = StateEvaluated\<rparr>"
          and s1: "store ?ctx1 a = Some ?s1" and c1: "Conn (Agent_of ?s1) = Some c"
          using sn s by simp_all
        have "Session_Auth dial hs ctx0 am = auth_connect hs cfg ?ctx1 a"
          using eq None ctx0 s Inr by (simp add: Session_Dial_simps)
        with auth_connect_inv [OF inv1 sn1 s1 c1, of hs cfg] show ?thesis by auto
      qed
    qed
  qed
qed

end

interpretation pw: auth_method "AuthPassword pwd" for pwd
  by unfold_locales (simp add: AuthPassword_def)

section \<open>Properties\<close>

text \<open>
  Authenticating a session with a password never panics, whatever the tunnel and the
  handshake answer, and keeps what the context records true: in particular a context that
  says its session is finished always holds a session with a client and a connection.
\<close>

theorem password_auth_safe:
  assumes "context_inv ctx"
  shows "\<exists>ctx' e. Session_Auth dial hs ctx (AuthPassword pwd) = Val (ctx', e) \<and>
     context_inv ctx' \<and> (e = None \<longrightarrow> (\<exists>a. finished_with ctx' a))"
  by (rule pw.auth_preserves [OF assms])

theorem password_auth_safe_witness:
  "\<exists>ctx' e. Session_Auth (\<lambda>_. Inl ErrDial) (\<lambda>_ _. Inl ErrDial)
     (new_context ''root@dev'' ''10.0.0.1:5000'' ''s1'') (AuthPassword ''pw'') = Val (ctx', e) \<and>
     context_inv ctx' \<and> (e = None \<longrightarrow> (\<exists>a. finished_with ctx' a))"
  by (rule password_auth_safe [OF new_context_inv])

text \<open>
  C16. A failed handshake does not lock a session up: its error is returned, the state and
  every other session stay as they were, and only the connection is dropped, so that the
  next attempt dials again: it ends with the dial's error, or over the new connection with
  a finished session when the handshake succeeds there.
\<close>

theorem auth_failure_redials:
  assumes sn: "snap ctx = Some \<lparr>snap_session = Some a, snap_state = StateEvaluated\<rparr>"
    and s: "store ctx a = Some s" "Conn (Agent_of s) = Some c"
    and fail: "hs c \<lparr>cfg_User = Username (Target_of s), cfg_Auth = [pwd]\<rparr> = Inl e"
  shows "\<exists>ctx'. Session_Auth dial hs ctx (AuthPassword pwd) = Val (ctx', Some e) \<and>
     snap ctx' = snap ctx \<and> (\<forall>b. b \<noteq> a \<longrightarrow> store ctx' b = store ctx b) \<and>
     (\<forall>err. dial (dial_id (Device_UID (Device_of s))) = Inl err \<longrightarrow>
        Session_Auth dial hs ctx' (AuthPassword pwd') = Val (ctx', Some (Join ErrDial err))) \<and>
     (\<forall>c' p. dial (dial_id (Device_UID (Device_of s))) = Inr c' \<and>
        hs c' \<lparr>cfg_User = Username (Target_of s), cfg_Auth = [pwd']\<rparr> = Inr p \<longrightarrow>
        (\<exists>ctx2. Session_Auth dial hs ctx' (AuthPassword pwd') = Val (ctx2, None) \<and>
           finished_with ctx2 a))"
proof -
  let ?ctx' = "upd_session a (\<lambda>s. s\<lparr>Agent_of := (Agent_of s)\<lparr>Conn := None\<rparr>\<rparr>) ctx"
  have "Session_Auth dial hs ctx (AuthPassword pwd) = Val (?ctx', Some e)"
    using sn s fail
    by (simp add: Session_Auth_evaluated AuthPassword_def auth_connect_simps)
  moreover have "Session_Auth dial hs ?ctx' (AuthPassword pwd') = Val (?ctx', Some (Join ErrDial err))"
    if "dial (dial_id (Device_UID (Device_of s))) = Inl err" for err
    using sn s that
    by (simp add: Session_Auth_evaluated AuthPassword_def Session_Dial_simps)
  moreover have "\<exists>ctx2. Session_Auth dial hs ?ctx' (AuthPassword pwd') = Val (ctx2, None) \<and>
      finished_with ctx2 a"
    if "dial (dial_id (Device_UID (Device_of s))) = Inr c' \<and>
        hs c' \<lparr>cfg_User = Username (Target_of s), cfg_Auth = [pwd']\<rparr> = Inr p" for c' p
    using sn s that
    by (cases p) (simp add: Session_Auth_evaluated AuthPassword_def Session_Dial_simps
        auth_connect_simps finished_with_def)
  ultimately show ?thesis by (intro exI [of _ ?ctx']) auto
qed

text \<open>A context whose session is evaluated and connected.\<close>

definition demo_dial :: "string \<Rightarrow> go_error + streamConn" where
  "demo_dial t = Inr \<lparr>stream = 7, conn_target = t\<rparr>"

definition demo_session :: Session where
  "demo_session =
     \<lparr>UID = ''s1'',
      Agent_of = \<lparr>Conn = Some \<lparr>stream = 7, conn_target = ''default:dev''\<rparr>, Client = None,
                  Requests = None, AgentChannels = Map.empty\<rparr>,
      ClientChannels = Map.empty, next_seat = 0, SSHID = ''root@dev'',
      Target_of = \<lparr>Username = ''root'', Data = ''dev''\<rparr>,
      Device_of = \<lparr>Device_UID = ''dev'', Device_Name = ''dev'', Device_Version = ''v0.9.3''\<rparr>,
      IPAddress = ''10.0.0.1'', Type = []\<rparr>"

definition demo_context :: Context where
  "demo_context = (new_context ''root@dev'' ''10.0.0.1:5000'' ''s1'')
     \<lparr>store := [0 \<mapsto> demo_session], next_addr := 1,
      snap := Some \<lparr>snap_session = Some 0, snap_state = StateEvaluated\<rparr>\<rparr>"

theorem auth_failure_redials_witness:
  "\<exists>ctx'. Session_Auth demo_dial (\<lambda>_ _. Inl (External ''refused'')) demo_context
     (AuthPassword ''pw'') = Val (ctx', Some (External ''refused'')) \<and>
     snap ctx' = snap demo_context"
proof -
  let ?c = "\<lparr>stream = 7, conn_target = ''default:dev''\<rparr>"
  have sn: "snap demo_context = Some \<lparr>snap_session = Some 0, snap_state = StateEvaluated\<rparr>"
    and s: "store demo_context 0 = Some demo_session"
    and c: "Conn (Agent_of demo_session) = Some ?c"
    by (simp_all add: demo_context_def demo_session_def)
  show ?thesis
    using auth_failure_redials [OF sn s c, of "\<lambda>_ _. Inl (External ''refused'')" "''pw''"
        "External ''refused''" demo_dial] by blast
qed

text \<open>
  Authentication works only on an evaluated session: in any other state the code can
  reach it returns the same error and leaves every session and the state as they are, so a
  session that is finished cannot be authenticated again.
\<close>

theorem auth_needs_evaluated:
  assumes "context_inv ctx" "\<forall>sn. snap ctx = Some sn \<longrightarrow> snap_state sn \<noteq> StateEvaluated"
  shows "\<exists>ctx'. Session_Auth dial hs ctx am = Val (ctx', Some (Errorf ''invalid session state'')) \<and>
     store ctx' = store ctx \<and> (snap ctx \<noteq> None \<longrightarrow> ctx' = ctx)"
proof -
  obtain ctx' sn where g: "getSnapshot ctx = (ctx', sn)" by (cases "getSnapshot ctx")
  note inv = getSnapshot_inv [OF assms(1) g]
  have "snap_state sn \<noteq> StateEvaluated"
    using assms(2) g by (auto simp: getSnapshot_def Let_def split: option.splits)
  moreover have "snap_state sn \<noteq> StateRegistered"
    using inv by (auto elim: snapshot_cases)
  ultimately show ?thesis
    using Session_Auth_wrong_state [OF g] inv g
    by (auto simp: getSnapshot_Some)
qed

theorem auth_needs_evaluated_witness:
  "\<exists>ctx'. Session_Auth demo_dial (\<lambda>_ _. Inr (1, 2))
     (new_context ''root@dev'' ''10.0.0.1:5000'' ''s1'') (AuthPassword ''pw'') =
       Val (ctx', Some (Errorf ''invalid session state''))"
  using auth_needs_evaluated [OF new_context_inv, of "''root@dev''" "''10.0.0.1:5000''" "''s1''"
      demo_dial "\<lambda>_ _. Inr (1, 2)" "AuthPassword ''pw''"]
  by (auto simp: new_context_def)

section \<open>Facts the server's handlers use\<close>

lemma session_id_colon: "CHR '':'' \<in> set (dial_id u)"
  by (auto simp: dial_id_def Contains_char)

lemma dial_id_tenant: "CHR '':'' \<in> set u \<Longrightarrow> dial_id u = u"
  by (simp add: dial_id_def Contains_char)

context tunnel
begin

text \<open>A dialled session is connected to the device its target names.\<close>

lemma session_dial_target:
  assumes "store ctx a = Some s" "Session_Dial dial ctx a = Val (ctx', None)"
  obtains c where "store ctx' a = Some (s\<lparr>Agent_of := (Agent_of s)\<lparr>Conn := Some c\<rparr>\<rparr>)"
    "conn_target c = dial_id (Device_UID (Device_of s))"
proof (cases "dial (dial_id (Device_UID (Device_of s)))")
  case (Inl e)
  then show thesis using assms by (simp add: Session_Dial_simps)
next
  case (Inr c)
  with assms have "ctx' = upd_session a (\<lambda>s. s\<lparr>Agent_of := (Agent_of s)\<lparr>Conn := Some c\<rparr>\<rparr>) ctx"
    by (simp add: Session_Dial_simps)
  with assms(1) Inr show thesis using that dial_target by auto
qed

end

end
