(* ===== verification/Auth_Handlers.thy ===== *)
theory Auth_Handlers
  imports Session
begin

text \<open>
  The package \<^verbatim>\<open>ssh/server/auth\<close>: the callbacks the SSH server runs for a client's password
  and public key. Each works on the client's context and answers whether to let it in.
\<close>

definition PasswordHandler ::
  "(string \<Rightarrow> go_error + streamConn) \<Rightarrow> handshake \<Rightarrow> Context \<Rightarrow> string \<Rightarrow> (Context \<times> bool) go" where
  "PasswordHandler dial hs ctx0 passwd =
     (let (ctx, (sess, state)) = ObtainSession ctx0
      in if state < StateEvaluated then
           (case conn ctx of
              Some c \<Rightarrow> Val (ctx\<lparr>closed_conns := c # closed_conns ctx\<rparr>, False)
            | None \<Rightarrow> Val (ctx, False))
         else go_bind (Session_Auth dial hs ctx (AuthPassword passwd)) (\<lambda>(ctx', err).
           Val (ctx', err = None)))"

definition PublicKeyHandler ::
  "(string \<Rightarrow> go_error + streamConn) \<Rightarrow> handshake \<Rightarrow> Context \<Rightarrow> (Context \<times> bool) go" where
  "PublicKeyHandler dial hs ctx0 =
     (let (ctx, (sess, state)) = ObtainSession ctx0
      in if state < StateEvaluated then Val (ctx, True)
         else go_bind (Session_Auth dial hs ctx (AuthPassword ''any'')) (\<lambda>(ctx', err).
           Val (ctx', True)))"

lemma ObtainSession_eq:
  "getSnapshot ctx = (ctx', sn) \<Longrightarrow>
   ObtainSession ctx = (ctx', (snap_session sn, snap_state sn))"
  by (simp add: ObtainSession_def retrieve_def)

lemma context_inv_closed: "context_inv ctx \<Longrightarrow> context_inv (ctx\<lparr>closed_conns := cs\<rparr>)"
  by (simp add: inv_defs cong: option.case_cong)

lemma getSnapshot_again: "getSnapshot ctx = (ctx', sn) \<Longrightarrow> getSnapshot ctx' = (ctx', sn)"
  by (auto simp: getSnapshot_def Let_def split: option.splits)

text \<open>
  Both handlers keep the context's invariant and never panic; the password handler lets a
  client in only with a finished session.
\<close>

lemma PasswordHandler_inv:
  assumes "context_inv ctx0"
  shows "\<exists>ctx' ok. PasswordHandler dial hs ctx0 pwd = Val (ctx', ok) \<and> context_inv ctx' \<and>
    (ok \<longrightarrow> (\<exists>a. finished_with ctx' a))"
proof -
  obtain ctx sn where g: "getSnapshot ctx0 = (ctx, sn)" by (cases "getSnapshot ctx0")
  have inv: "context_inv ctx" using getSnapshot_inv [OF assms g] by simp
  obtain ctx' e where "Session_Auth dial hs ctx (AuthPassword pwd) = Val (ctx', e)"
    "context_inv ctx'" "e = None \<longrightarrow> (\<exists>a. finished_with ctx' a)"
    using pw.auth_preserves [OF inv] by blast
  then show ?thesis
    using inv by (auto simp: PasswordHandler_def ObtainSession_eq [OF g] context_inv_closed
        split: option.splits)
qed

lemma PublicKeyHandler_inv:
  assumes "context_inv ctx0"
  shows "\<exists>ctx'. PublicKeyHandler dial hs ctx0 = Val (ctx', True) \<and> context_inv ctx'"
proof -
  obtain ctx sn where g: "getSnapshot ctx0 = (ctx, sn)" by (cases "getSnapshot ctx0")
  have inv: "context_inv ctx" using getSnapshot_inv [OF assms g] by simp
  obtain ctx' e where "Session_Auth dial hs ctx (AuthPassword ''any'') = Val (ctx', e)"
    "context_inv ctx'"
    using pw.auth_preserves [OF inv] by blast
  then show ?thesis
    using inv by (auto simp: PublicKeyHandler_def ObtainSession_eq [OF g])
qed

text \<open>
  A client without an evaluated session is refused by the password handler, and its
  connection is closed; the session store is not touched.
\<close>

theorem password_before_evaluation:
  assumes "snap ctx = Some sn" "snap_state sn < StateEvaluated" "conn ctx = Some c"
  shows "\<exists>ctx'. PasswordHandler dial hs ctx pwd = Val (ctx', False) \<and>
     closed_conns ctx' = c # closed_conns ctx \<and> store ctx' = store ctx \<and> snap ctx' = snap ctx"
  using assms by (simp add: PasswordHandler_def ObtainSession_eq [OF getSnapshot_Some])

theorem password_before_evaluation_witness:
  "\<exists>ctx'. PasswordHandler demo_dial (\<lambda>_ _. Inr (1, 2))
     (demo_context\<lparr>conn := Some 9,
        snap := Some \<lparr>snap_session = Some 0, snap_state = StateCreated\<rparr>\<rparr>) ''pw'' =
     Val (ctx', False) \<and> closed_conns ctx' = [9]"
  using password_before_evaluation
    [of "demo_context\<lparr>conn := Some 9,
           snap := Some \<lparr>snap_session = Some 0, snap_state = StateCreated\<rparr>\<rparr>" _ 9]
  by (fastforce simp: demo_context_def new_context_def less_State_def)

text \<open>
  The public key handler lets every client in: in every state of the context, with a
  session or without one, and whether or not the agent can be reached or accepts the login.
\<close>

theorem public_key_always_accepted:
  assumes "context_inv ctx"
  shows "\<exists>ctx'. PublicKeyHandler dial hs ctx = Val (ctx', True) \<and> context_inv ctx'"
  by (rule PublicKeyHandler_inv [OF assms])

theorem public_key_always_accepted_witness:
  "\<exists>ctx'. PublicKeyHandler (\<lambda>_. Inl ErrDial) (\<lambda>_ _. Inl ErrDial)
     (new_context ''nobody'' ''10.0.0.1:5000'' ''s1'') = Val (ctx', True) \<and> context_inv ctx'"
  by (rule public_key_always_accepted [OF new_context_inv])

end
