(* ===== verification/SSH_Server.thy ===== *)
theory SSH_Server
  imports Auth_Handlers
begin

text \<open>
  \<^verbatim>\<open>ssh/server/server.go\<close>: the callbacks the SSH server is built with. The banner callback
  creates the client's session, dials the device and evaluates the session; its result is
  the text shown to the client, empty when everything went well.
\<close>

definition unlines :: "string list \<Rightarrow> string" where
  "unlines ls = concat (map (\<lambda>l. l @ [CHR 0x0A]) ls)"

definition ConnectionFailedMessage :: string where
  "ConnectionFailedMessage = unlines
    [''Connection Failed'',
     ''=================='',
     [],
     ''The target device is offline or cannot be reached.'',
     [],
     ''Troubleshooting steps:'',
     ''  - Check if the device is powered on'',
     ''  - Verify network connectivity'',
     ''  - Ensure the device is properly connected to ShellHub'',
     [],
     ''Please try again once the device is online.'']"

definition AccessDeniedMessage :: string where
  "AccessDeniedMessage = unlines
    [''Access Denied'',
     ''=============='',
     [],
     ''Access to the device has been denied.'',
     [],
     ''Possible reasons:'',
     ''  - Firewall restrictions'',
     ''  - Billing issues or quota exceeded'',
     ''  - Policy rules or permissions'',
     ''  - Device access restrictions'',
     [],
     ''Please contact your administrator for assistance.'']"

definition message :: "string \<Rightarrow> string" where
  "message msg = msg @ [CHR 0x0D, CHR 0x0A]"

definition ConnCallback :: "Context \<Rightarrow> handle \<Rightarrow> Context \<times> handle" where
  "ConnCallback ctx c = (ctx\<lparr>conn := Some c\<rparr>, c)"

text \<open>
  The format of the user name is looked at first, but only to log a warning; the session's
  constructor looks at it again.
\<close>

definition BannerHandler ::
  "(string \<Rightarrow> go_error + streamConn) \<Rightarrow> Context \<Rightarrow> (Context \<times> string) go" where
  "BannerHandler dial ctx =
     (case NewSession ctx of
        (ctx1, Inl err) \<Rightarrow> Val (ctx1, message ConnectionFailedMessage)
      | (ctx1, Inr sess) \<Rightarrow>
          go_bind (Session_Dial dial ctx1 sess) (\<lambda>(ctx2, err).
            if err \<noteq> None then Val (ctx2, message ConnectionFailedMessage)
            else (case Session_Evaluate ctx2 sess of
                    (ctx3, Some _) \<Rightarrow> Val (ctx3, message AccessDeniedMessage)
                  | (ctx3, None) \<Rightarrow> Val (ctx3, []))))"

definition LocalPortForwardingCallback :: "Context \<Rightarrow> string \<Rightarrow> 32 word \<Rightarrow> bool" where
  "LocalPortForwardingCallback ctx host port = True"

definition ReversePortForwardingCallback :: "Context \<Rightarrow> string \<Rightarrow> 32 word \<Rightarrow> bool" where
  "ReversePortForwardingCallback ctx host port = False"

datatype channel_handler = SessionHandler | DirectTCPIPHandler

definition SessionChannel :: string where "SessionChannel = ''session''"
definition DirectTCPIPChannel :: string where "DirectTCPIPChannel = ''direct-tcpip''"

definition ChannelHandlers :: "string \<rightharpoonup> channel_handler" where
  "ChannelHandlers =
     [SessionChannel \<mapsto> SessionHandler, DirectTCPIPChannel \<mapsto> DirectTCPIPHandler]"

lemma ConnCallback_inv: "context_inv ctx \<Longrightarrow> context_inv (fst (ConnCallback ctx c))"
  by (simp add: ConnCallback_def inv_defs cong: option.case_cong)

section \<open>The banner callback\<close>

lemma message_not_empty [simp]: "message m \<noteq> []"
  by (simp add: message_def)

lemma NewSession_Inr_iff:
  "(\<exists>ctx' a. NewSession ctx = (ctx', Inr a)) \<longleftrightarrow>
     (\<exists>h. NewHost (ctx_RemoteAddr ctx) = Inr h) \<and> (\<exists>t. NewTarget (User ctx) = Inr t)"
  by (auto simp: NewSession_def Let_def split: sum.splits prod.splits)

text \<open>A new session is the one its user name asks for.\<close>

lemma NewSession_session:
  assumes "context_inv ctx" "NewSession ctx = (ctx', Inr a)"
  obtains s where "store ctx' a = Some s" "NewTarget (User ctx) = Inr (Target_of s)"
    "Device_UID (Device_of s) = Data (Target_of s)" "Conn (Agent_of s) = None"
    "User ctx' = User ctx"
proof -
  from NewSession_inv [OF assms] obtain s where s: "store ctx' a = Some s"
    "Conn (Agent_of s) = None" and inv: "context_inv ctx'" by auto
  have user: "User ctx' = User ctx"
    using assms(2)
    by (auto simp: NewSession_def getSnapshot_def Let_def split: sum.splits option.splits)
  have "session_ok ctx' s" using inv s by (auto simp: context_inv_def store_ok_def)
  with s user show thesis using that by (auto simp: session_ok_def)
qed

definition banner_accepts :: "(string \<Rightarrow> go_error + streamConn) \<Rightarrow> Context \<Rightarrow> bool" where
  "banner_accepts dial ctx \<longleftrightarrow>
     (\<exists>h t c. NewHost (ctx_RemoteAddr ctx) = Inr h \<and> NewTarget (User ctx) = Inr t \<and>
        dial (dial_id (Data t)) = Inr c)"

definition evaluated_with :: "Context \<Rightarrow> streamConn \<Rightarrow> bool" where
  "evaluated_with ctx c \<longleftrightarrow>
     (\<exists>a s. snap ctx = Some \<lparr>snap_session = Some a, snap_state = StateEvaluated\<rparr> \<and>
        store ctx a = Some s \<and> Conn (Agent_of s) = Some c)"

lemma BannerHandler_error:
  "NewSession ctx = (ctx', Inl e) \<Longrightarrow>
   BannerHandler dial ctx = Val (ctx', message ConnectionFailedMessage)"
  by (simp add: BannerHandler_def)

lemma BannerHandler_session:
  assumes inv: "context_inv ctx" and new: "NewSession ctx = (ctx1, Inr a)"
    and t: "NewTarget (User ctx) = Inr t"
  shows "\<exists>ctx'. context_inv ctx' \<and> User ctx' = User ctx \<and>
    (case dial (dial_id (Data t)) of
       Inl e \<Rightarrow> BannerHandler dial ctx = Val (ctx', message ConnectionFailedMessage)
     | Inr c \<Rightarrow> BannerHandler dial ctx = Val (ctx', []) \<and> evaluated_with ctx' c)"
proof -
  obtain s where s: "store ctx1 a = Some s" "Device_UID (Device_of s) = Data t"
    and user: "User ctx1 = User ctx"
    using NewSession_session [OF inv new] t by auto
  have inv1: "context_inv ctx1" using NewSession_inv [OF inv new] by simp
  show ?thesis
  proof (cases "dial (dial_id (Data t))")
    case (Inl e)
    then show ?thesis using new s user inv1
      by (auto simp: BannerHandler_def Session_Dial_simps)
  next
    case (Inr c)
    let ?ctx2 = "upd_session a (\<lambda>s. s\<lparr>Agent_of := (Agent_of s)\<lparr>Conn := Some c\<rparr>\<rparr>) ctx1"
    obtain ctx3 e where ev: "Session_Evaluate ?ctx2 a = (ctx3, e)"
      by (cases "Session_Evaluate ?ctx2 a")
    have inv2: "context_inv ?ctx2" using inv1 by (rule context_inv_set_conn)
    have ctx3: "context_inv ctx3" "e = None" "store ctx3 = store ?ctx2"
      "snap ctx3 = Some \<lparr>snap_session = Some a, snap_state = StateEvaluated\<rparr>"
      using Session_Evaluate_inv [OF inv2 _ ev] s by auto
    moreover have "User ctx3 = User ?ctx2"
      using ev by (auto simp: Session_Evaluate_def getSnapshot_def Let_def split: option.splits)
    moreover have "BannerHandler dial ctx = Val (ctx3, [])"
      using new s Inr ev ctx3(2) by (simp add: BannerHandler_def Session_Dial_simps)
    moreover have "evaluated_with ctx3 c" using ctx3 s by (simp add: evaluated_with_def)
    ultimately show ?thesis using Inr user by auto
  qed
qed

lemma banner_exact_aux:
  assumes "context_inv ctx"
  shows "\<exists>ctx' msg. BannerHandler dial ctx = Val (ctx', msg) \<and> context_inv ctx' \<and>
    (msg = [] \<longleftrightarrow> banner_accepts dial ctx) \<and>
    (msg = [] \<or> msg = message ConnectionFailedMessage) \<and>
    (msg = [] \<longrightarrow> (\<exists>t c. NewTarget (User ctx) = Inr t \<and> dial (dial_id (Data t)) = Inr c \<and>
       evaluated_with ctx' c))"
proof (cases "NewSession ctx")
  case (Pair ctx1 r)
  show ?thesis
  proof (cases r)
    case (Inl e)
    then have "\<not> banner_accepts dial ctx"
      using Pair NewSession_Inr_iff [of ctx] by (auto simp: banner_accepts_def)
    moreover have "context_inv ctx1" using NewSession_inv [OF assms Pair] by simp
    ultimately show ?thesis using Pair Inl by (simp add: BannerHandler_error)
  next
    case (Inr a)
    then obtain h t where ht: "NewHost (ctx_RemoteAddr ctx) = Inr h" "NewTarget (User ctx) = Inr t"
      using Pair NewSession_Inr_iff [of ctx] by blast
    have new: "NewSession ctx = (ctx1, Inr a)" using Pair Inr by simp
    show ?thesis
    proof (cases "dial (dial_id (Data t))")
      case (Inl e)
      then show ?thesis
        using BannerHandler_session [OF assms new ht(2), of dial] ht
        by (auto simp: banner_accepts_def)
    next
      case (Inr c)
      then show ?thesis
        using BannerHandler_session [OF assms new ht(2), of dial] ht
        by (auto simp: banner_accepts_def)
    qed
  qed
qed

text \<open>
  C8. The banner callback always returns. It shows nothing exactly when the client's
  address parses, its user name holds a device and the tunnel reaches that device, under
  the default tenant when it names none; then the context holds an evaluated session
  connected to it. In every other case it shows the connection failure message: the access
  denied message is never shown.
\<close>

theorem banner_exact:
  assumes "context_inv ctx"
  shows "\<exists>ctx' msg. BannerHandler dial ctx = Val (ctx', msg) \<and> context_inv ctx' \<and>
    (msg = [] \<longleftrightarrow> banner_accepts dial ctx) \<and>
    (msg = [] \<or> msg = message ConnectionFailedMessage) \<and>
    (msg = [] \<longrightarrow> (\<exists>t c. NewTarget (User ctx) = Inr t \<and> dial (dial_id (Data t)) = Inr c \<and>
       evaluated_with ctx' c))"
  by (rule banner_exact_aux [OF assms])

theorem banner_exact_witness:
  "\<exists>ctx' msg. BannerHandler demo_dial (new_context ''root@dev'' ''10.0.0.1:5000'' ''s1'') =
     Val (ctx', msg) \<and> context_inv ctx'"
  using banner_exact [OF new_context_inv, of demo_dial "''root@dev''" "''10.0.0.1:5000''" "''s1''"]
  by blast

section \<open>The authentication phase\<close>

text \<open>
  What a client's context can become: the server runs its callbacks in any order and any
  number of times, and at each of them the tunnel and the handshake may answer anything.
\<close>

inductive client_reachable :: "Context \<Rightarrow> Context \<Rightarrow> bool" for ctx0 where
  start: "client_reachable ctx0 ctx0"
| connected: "client_reachable ctx0 ctx \<Longrightarrow> client_reachable ctx0 (fst (ConnCallback ctx c))"
| banner: "client_reachable ctx0 ctx \<Longrightarrow> BannerHandler dial ctx = Val (ctx', msg) \<Longrightarrow>
    client_reachable ctx0 ctx'"
| password: "client_reachable ctx0 ctx \<Longrightarrow> PasswordHandler dial hs ctx pwd = Val (ctx', ok) \<Longrightarrow>
    client_reachable ctx0 ctx'"
| public_key: "client_reachable ctx0 ctx \<Longrightarrow> PublicKeyHandler dial hs ctx = Val (ctx', ok) \<Longrightarrow>
    client_reachable ctx0 ctx'"

lemma client_reachable_inv:
  "client_reachable ctx0 ctx \<Longrightarrow> context_inv ctx0 \<Longrightarrow> context_inv ctx"
proof (induction rule: client_reachable.induct)
  case (banner ctx dial ctx' msg)
  then show ?case using banner_exact_aux [of ctx dial] by auto
next
  case (password ctx dial hs pwd ctx' ok)
  then show ?case using PasswordHandler_inv [of ctx dial hs pwd] by auto
next
  case (public_key ctx dial hs ctx' ok)
  then show ?case using PublicKeyHandler_inv [of ctx dial hs] by auto
qed (auto intro: ConnCallback_inv)

text \<open>
  C9. No callback of the authentication phase panics, in whatever order a client drives
  them and whatever the tunnel and the agent answer; and a password lets a client in only
  when its session is finished, with a client on the agent.
\<close>

theorem authentication_never_panics:
  assumes "client_reachable (new_context user remote sid) ctx"
  shows "returns (BannerHandler dial ctx) \<and> returns (PublicKeyHandler dial hs ctx) \<and>
    returns (PasswordHandler dial hs ctx pwd) \<and>
    (\<forall>ctx'. PasswordHandler dial hs ctx pwd = Val (ctx', True) \<longrightarrow> (\<exists>a. finished_with ctx' a))"
proof -
  have inv: "context_inv ctx" using client_reachable_inv [OF assms new_context_inv] .
  show ?thesis
    using banner_exact_aux [OF inv, of dial] PublicKeyHandler_inv [OF inv, of dial hs]
      PasswordHandler_inv [OF inv, of dial hs pwd]
    by auto
qed

theorem authentication_never_panics_witness:
  "returns (BannerHandler demo_dial (new_context ''nobody'' ''bad'' ''s1''))"
  using authentication_never_panics [OF client_reachable.start] by blast

end
