(* ===== verification/Session_Channel.thy ===== *)
theory Session_Channel
  imports SSH_Server
begin

text \<open>
  \<^verbatim>\<open>ssh/server/channels/session.go\<close>: the handler of a client's session channel. It takes a
  seat, accepts the client's channel, opens one on the agent, and then runs three loops side
  by side that carry requests between the two; the first request that needs it starts the
  data pipe, once.
\<close>

definition KeepAliveRequestTypePrefix :: string where
  "KeepAliveRequestTypePrefix = ''keepalive''"
definition KeepAliveRequestType :: string where
  "KeepAliveRequestType = KeepAliveRequestTypePrefix @ ''@shellhub.io''"
definition ShellRequestType :: string where "ShellRequestType = ''shell''"
definition ExecRequestType :: string where "ExecRequestType = ''exec''"
definition SubsystemRequestType :: string where "SubsystemRequestType = ''subsystem''"
definition PtyRequestType :: string where "PtyRequestType = ''pty-req''"
definition WindowChangeRequestType :: string where "WindowChangeRequestType = ''window-change''"
definition AuthRequestOpenSSHRequest :: string where
  "AuthRequestOpenSSHRequest = ''auth-agent-req@openssh.com''"

lemmas request_type_defs = KeepAliveRequestTypePrefix_def KeepAliveRequestType_def
  ShellRequestType_def ExecRequestType_def SubsystemRequestType_def PtyRequestType_def
  WindowChangeRequestType_def AuthRequestOpenSSHRequest_def

section \<open>Opening the channel\<close>

datatype opening_effect = RejectChannel string | CloseClient | CloseAgent

record opened =
  opened_seat :: seat
  opened_client :: handle
  opened_agent :: handle

text \<open>
  The session of the context is used without a check: without one the handler panics. On a
  failure the effects are the rejection and then the deferred closes.
\<close>

definition open_session_channels ::
  "go_error + handle \<Rightarrow> (handle \<Rightarrow> string \<Rightarrow> go_error + handle) \<Rightarrow> Context \<Rightarrow>
   (Context \<times> opening_effect list \<times> opened option) go" where
  "open_session_channels accepted open_channel ctx0 =
     (let (ctx, (sess, _)) = ObtainSession ctx0
      in go_bind (deref ctx sess) (\<lambda>s.
        let put = (\<lambda>s'. upd_session (the sess) (\<lambda>_. s') ctx);
            (s1, seat) = NewSeat s
        in case NewClientChannel accepted seat s1 of
             (s2, Inl err) \<Rightarrow>
               Val (put s2, [RejectChannel ''failed to accept the channel opening''], None)
           | (s2, Inr client) \<Rightarrow>
               (case NewAgentChannel open_channel SessionChannel seat s2 of
                  (s3, Inl err) \<Rightarrow>
                    Val (put s3,
                      [RejectChannel ''failed to open the session channel on agent'', CloseClient],
                      None)
                | (s3, Inr agent) \<Rightarrow>
                    Val (put s3, [],
                      Some \<lparr>opened_seat = seat, opened_client = client, opened_agent = agent\<rparr>))))"

section \<open>The three request loops\<close>

record request =
  rtype :: string
  want_reply :: bool
  payload :: bytes

text \<open>
  What a loop's \<^verbatim>\<open>select\<close> receives: the context's end, the closing of its channel, or a
  request together with the outcome of sending it on.
\<close>

datatype input = CtxDone | ChannelClosed | Received request "go_error + bool"

datatype effect =
    ToAgent request
  | ToClient request
  | Reply request bool
  | StartPipe
  | Reject string
  | SetAgentRequested
  | StartForwarding
  | Announced

text \<open>
  The client's requests. \<open>parses_pty\<close> and \<open>parses_window\<close> say whether a payload decodes;
  a payload that does not is reported but the request is still sent on. The state is the
  session and whether the pipe has been started.
\<close>

definition client_event ::
  "(bytes \<Rightarrow> bool) \<Rightarrow> (bytes \<Rightarrow> bool) \<Rightarrow> seat \<Rightarrow> request \<Rightarrow> Session \<Rightarrow> Session \<times> effect list" where
  "client_event parses_pty parses_window seat req s =
     (if rtype req = ShellRequestType then
        (case Seats_Get s seat of
           (HasPty, ok) \<Rightarrow> if ok \<and> HasPty then (s, [Announced]) else (s, []))
      else if rtype req = ExecRequestType \<or> rtype req = SubsystemRequestType then
        (s\<lparr>Type := ExecRequestType\<rparr>, [])
      else if rtype req = PtyRequestType then
        (Seats_SetPty s seat True,
         if parses_pty (payload req) then [] else [Reject ''failed to recover the session dimensions''])
      else if rtype req = WindowChangeRequestType then
        (s, if parses_window (payload req) then []
            else [Reject ''failed to recover the session dimensions''])
      else if rtype req = AuthRequestOpenSSHRequest then
        (s, [SetAgentRequested, StartForwarding])
      else (s, []))"

definition starts_pipe :: "request \<Rightarrow> bool" where
  "starts_pipe req \<longleftrightarrow>
     rtype req = PtyRequestType \<or> rtype req = ExecRequestType \<or> rtype req = SubsystemRequestType"

definition client_request ::
  "(bytes \<Rightarrow> bool) \<Rightarrow> (bytes \<Rightarrow> bool) \<Rightarrow> seat \<Rightarrow> request \<Rightarrow> go_error + bool \<Rightarrow>
   Session \<times> bool \<Rightarrow> (Session \<times> bool) \<times> effect list" where
  "client_request parses_pty parses_window seat req sent st =
     (let (s, piped) = st; (s', ev) = client_event parses_pty parses_window seat req s
      in case sent of
           Inl err \<Rightarrow> ((s', piped), ev @ [ToAgent req])
         | Inr ok \<Rightarrow>
             ((s', piped \<or> starts_pipe req),
              ev @ [ToAgent req] @ (if want_reply req then [Reply req ok] else []) @
              (if starts_pipe req \<and> \<not> piped then [StartPipe] else [])))"

text \<open>A loop's result: its final state, its effects, and whether it has returned.\<close>

fun client_loop ::
  "(bytes \<Rightarrow> bool) \<Rightarrow> (bytes \<Rightarrow> bool) \<Rightarrow> seat \<Rightarrow> Session \<times> bool \<Rightarrow> input list \<Rightarrow>
   (Session \<times> bool) \<times> effect list \<times> bool" where
  "client_loop pp pw seat st [] = (st, [], False)"
| "client_loop pp pw seat st (CtxDone # _) = (st, [], True)"
| "client_loop pp pw seat st (ChannelClosed # _) = (st, [], True)"
| "client_loop pp pw seat st (Received req sent # ins) =
     (let (st1, es) = client_request pp pw seat req sent st;
          (st2, es', fin) = client_loop pp pw seat st1 ins
      in (st2, es @ es', fin))"

text \<open>The agent's requests; recording events is a no-op of the minimal session.\<close>

fun agent_loop :: "input list \<Rightarrow> effect list \<times> bool" where
  "agent_loop [] = ([], False)"
| "agent_loop (CtxDone # _) = ([], True)"
| "agent_loop (ChannelClosed # _) = ([], True)"
| "agent_loop (Received req sent # ins) =
     (let (es, fin) = agent_loop ins
      in (ToClient req #
          (case sent of Inl err \<Rightarrow> [] | Inr ok \<Rightarrow> if want_reply req then [Reply req ok] else []) @ es,
          fin))"

text \<open>
  The agent's global requests: a keepalive, under any of its names, is passed on to the
  client under the current name, and a failure to do so ends the loop; anything else is
  refused.
\<close>

fun global_loop :: "Session \<Rightarrow> input list \<Rightarrow> effect list \<times> bool" where
  "global_loop s [] = ([], False)"
| "global_loop s (CtxDone # _) = ([], True)"
| "global_loop s (ChannelClosed # _) = ([], True)"
| "global_loop s (Received req sent # ins) =
     (if HasPrefix (rtype req) KeepAliveRequestTypePrefix then
        (case sent of
           Inl err \<Rightarrow> ([ToClient (req\<lparr>rtype := KeepAliveRequestType\<rparr>)], True)
         | Inr _ \<Rightarrow>
             if KeepAlive s \<noteq> None then ([ToClient (req\<lparr>rtype := KeepAliveRequestType\<rparr>)], True)
             else (let (es, fin) = global_loop s ins
                   in (ToClient (req\<lparr>rtype := KeepAliveRequestType\<rparr>) # es, fin)))
      else
        (let (es, fin) = global_loop s ins
         in ((if want_reply req then [Reply req False] else []) @ es, fin)))"

section \<open>What the loops forward\<close>

text \<open>The requests a loop receives before it is told to stop, with their outcomes.\<close>

fun received :: "input list \<Rightarrow> (request \<times> (go_error + bool)) list" where
  "received [] = []"
| "received (CtxDone # _) = []"
| "received (ChannelClosed # _) = []"
| "received (Received req sent # ins) = (req, sent) # received ins"

fun to_agent :: "effect list \<Rightarrow> request list" where
  "to_agent [] = []"
| "to_agent (ToAgent r # es) = r # to_agent es"
| "to_agent (_ # es) = to_agent es"

fun to_client :: "effect list \<Rightarrow> request list" where
  "to_client [] = []"
| "to_client (ToClient r # es) = r # to_client es"
| "to_client (_ # es) = to_client es"

fun replies :: "effect list \<Rightarrow> (request \<times> bool) list" where
  "replies [] = []"
| "replies (Reply r ok # es) = (r, ok) # replies es"
| "replies (_ # es) = replies es"

text \<open>The answers owed: requests that want one and were sent on, with the answer got.\<close>

fun answered :: "(request \<times> (go_error + bool)) list \<Rightarrow> (request \<times> bool) list" where
  "answered [] = []"
| "answered ((r, Inl e) # rs) = answered rs"
| "answered ((r, Inr ok) # rs) = (if want_reply r then (r, ok) # answered rs else answered rs)"

lemma to_agent_append [simp]: "to_agent (xs @ ys) = to_agent xs @ to_agent ys"
  by (induction xs rule: to_agent.induct) auto

lemma to_client_append [simp]: "to_client (xs @ ys) = to_client xs @ to_client ys"
  by (induction xs rule: to_client.induct) auto

lemma replies_append [simp]: "replies (xs @ ys) = replies xs @ replies ys"
  by (induction xs rule: replies.induct) auto

lemma client_event_effects:
  "snd (client_event pp pw seat r s) \<in>
     {[], [Reject ''failed to recover the session dimensions''], [SetAgentRequested, StartForwarding]}"
  by (simp add: client_event_def Seats_Get_def)

lemma client_event_quiet:
  assumes "client_event pp pw seat r s = (s', ev)"
  shows "to_agent ev = [] \<and> replies ev = [] \<and> count_list ev StartPipe = 0 \<and> Announced \<notin> set ev"
  using client_event_effects [of pp pw seat r s] assms by auto

lemma client_request_effects:
  assumes "client_request pp pw seat r sent (s, piped) = ((s', piped'), es)"
  shows "to_agent es = [r]" "replies es = answered [(r, sent)]" "Announced \<notin> set es"
    "count_list es StartPipe = (if \<not> piped \<and> piped' then 1 else 0)"
    "piped' \<longleftrightarrow> piped \<or> (starts_pipe r \<and> \<not> isl sent)"
proof -
  obtain s1 ev where ev: "client_event pp pw seat r s = (s1, ev)"
    by (cases "client_event pp pw seat r s")
  note q = client_event_quiet [OF ev]
  have p: "piped' \<longleftrightarrow> piped \<or> (starts_pipe r \<and> \<not> isl sent)"
    and es: "es = ev @ ToAgent r # (case sent of Inl _ \<Rightarrow> [] | Inr ok \<Rightarrow>
      (if want_reply r then [Reply r ok] else []) @
      (if starts_pipe r \<and> \<not> piped then [StartPipe] else []))"
    using assms ev by (cases sent; simp add: client_request_def)+
  show "piped' \<longleftrightarrow> piped \<or> (starts_pipe r \<and> \<not> isl sent)" by (rule p)
  show "to_agent es = [r]" "replies es = answered [(r, sent)]" "Announced \<notin> set es"
    "count_list es StartPipe = (if \<not> piped \<and> piped' then 1 else 0)"
    unfolding es p using q by (cases sent; simp)+
qed

lemma client_loop_forwards:
  assumes "client_loop pp pw seat st ins = (st', es, fin)"
  shows "to_agent es = map fst (received ins) \<and> replies es = answered (received ins) \<and>
    Announced \<notin> set es"
  using assms
proof (induction ins arbitrary: st es rule: received.induct)
  case (4 r sent ins)
  obtain s piped where st: "st = (s, piped)" by (cases st)
  obtain s1 p1 es1 where r: "client_request pp pw seat r sent (s, piped) = ((s1, p1), es1)"
    by (metis surj_pair)
  obtain st2 es2 fin2 where l: "client_loop pp pw seat (s1, p1) ins = (st2, es2, fin2)"
    by (metis surj_pair)
  note e = client_request_effects [OF r]
  have "st2 = st'" "fin2 = fin" "es = es1 @ es2" using "4.prems" st r l by simp_all
  with l have "to_agent es2 = map fst (received ins) \<and> replies es2 = answered (received ins) \<and>
    Announced \<notin> set es2" using "4.IH" by simp
  with e \<open>es = es1 @ es2\<close> show ?case by (cases sent) auto
qed simp_all

lemma client_loop_pipes:
  assumes "client_loop pp pw seat (s, piped) ins = ((s', piped'), es, fin)"
  shows "(piped' \<longleftrightarrow> piped \<or> (\<exists>(r, sent) \<in> set (received ins). starts_pipe r \<and> \<not> isl sent)) \<and>
    count_list es StartPipe = (if \<not> piped \<and> piped' then 1 else 0)"
  using assms
proof (induction ins arbitrary: s piped es rule: received.induct)
  case (4 r sent ins)
  obtain s1 p1 es1 where r: "client_request pp pw seat r sent (s, piped) = ((s1, p1), es1)"
    by (metis surj_pair)
  obtain s2 p2 es2 fin2 where l: "client_loop pp pw seat (s1, p1) ins = ((s2, p2), es2, fin2)"
    by (metis surj_pair)
  note e = client_request_effects [OF r]
  have "(s2, p2) = (s', piped')" "fin2 = fin" and es: "es = es1 @ es2"
    using "4.prems" r l by simp_all
  with l have ih: "(piped' \<longleftrightarrow> p1 \<or> (\<exists>(r, sent) \<in> set (received ins). starts_pipe r \<and> \<not> isl sent)) \<and>
    count_list es2 StartPipe = (if \<not> p1 \<and> piped' then 1 else 0)" using "4.IH" by simp
  show ?case using ih e(4,5) es by auto
qed simp_all



text \<open>
  The data pipe is started at most once per channel, and exactly when a
  pseudo-terminal, exec or subsystem request could be sent on. In particular a client that
  only asks for a shell, without a terminal, never gets its data carried.
\<close>

theorem pipe_started_once:
  assumes "client_loop pp pw seat (s, False) ins = (st', es, fin)"
  shows "count_list es StartPipe =
    (if \<exists>(r, sent) \<in> set (received ins). starts_pipe r \<and> \<not> isl sent then 1 else 0)"
  using client_loop_pipes [of pp pw seat s False ins "fst st'" "snd st'" es fin] assms by simp

theorem pipe_started_once_witness:
  "\<exists>st' es. client_loop (\<lambda>_. True) (\<lambda>_. True) 0 (demo_session, False)
     [Received \<lparr>rtype = ''shell'', want_reply = True, payload = []\<rparr> (Inr True), ChannelClosed] =
       (st', es, True) \<and> count_list es StartPipe = 0"
proof -
  let ?ins = "[Received \<lparr>rtype = ''shell'', want_reply = True, payload = []\<rparr> (Inr True), ChannelClosed]"
  obtain st' es fin where l:
    "client_loop (\<lambda>_. True) (\<lambda>_. True) 0 (demo_session, False) ?ins = (st', es, fin)"
    by (metis surj_pair)
  moreover have "fin" using l by (auto split: prod.splits)
  ultimately show ?thesis
    using pipe_started_once [OF l] by (simp add: starts_pipe_def request_type_defs)
qed

lemma agent_loop_forwards:
  "to_client (fst (agent_loop ins)) = map fst (received ins) \<and>
   replies (fst (agent_loop ins)) = answered (received ins)"
proof (induction ins rule: received.induct)
  case (4 r sent ins)
  then show ?case by (cases "agent_loop ins"; cases sent) auto
qed auto

definition is_keepalive :: "request \<Rightarrow> bool" where
  "is_keepalive r \<longleftrightarrow> HasPrefix (rtype r) KeepAliveRequestTypePrefix"

lemma global_loop_effects:
  "set (to_client (fst (global_loop s ins))) \<subseteq>
     (\<lambda>r. r\<lparr>rtype := KeepAliveRequestType\<rparr>) ` {r \<in> fst ` set (received ins). is_keepalive r} \<and>
   set (replies (fst (global_loop s ins))) \<subseteq>
     {(r, False) | r. r \<in> fst ` set (received ins) \<and> \<not> is_keepalive r \<and> want_reply r}"
proof (induction ins rule: received.induct)
  case (4 r sent ins)
  obtain es fin where g: "global_loop s ins = (es, fin)" by (cases "global_loop s ins")
  have c: "set (to_client es) \<subseteq>
      (\<lambda>r. r\<lparr>rtype := KeepAliveRequestType\<rparr>) ` {r \<in> fst ` set (received ins). is_keepalive r}"
    and rp: "set (replies es) \<subseteq>
      {(r, False) | r. r \<in> fst ` set (received ins) \<and> \<not> is_keepalive r \<and> want_reply r}"
    using 4 g by simp_all
  show ?case
  proof (cases "is_keepalive r")
    case True
    then show ?thesis
    proof (cases sent)
      case (Inl e)
      then show ?thesis using True g by (simp add: is_keepalive_def)
    next
      case (Inr ok)
      then have "fst (global_loop s (Received r sent # ins)) =
        ToClient (r\<lparr>rtype := KeepAliveRequestType\<rparr>) # es"
        using True g by (simp add: is_keepalive_def KeepAlive_def)
      then show ?thesis using c rp True
        by (simp only: to_client.simps replies.simps received.simps) fastforce
    qed
  next
    case False
    then have "fst (global_loop s (Received r sent # ins)) =
      (if want_reply r then [Reply r False] else []) @ es"
      using g by (simp add: is_keepalive_def)
    moreover have "set (to_client es) \<subseteq> (\<lambda>r. r\<lparr>rtype := KeepAliveRequestType\<rparr>) `
        {q \<in> fst ` set (received (Received r sent # ins)). is_keepalive q}"
      using c by auto
    moreover have "set (replies es) \<subseteq> {(q, False) | q.
        q \<in> fst ` set (received (Received r sent # ins)) \<and> \<not> is_keepalive q \<and> want_reply q}"
      using rp by fastforce
    ultimately show ?thesis using False by (simp only: to_client_append replies_append) auto
  qed
qed auto

text \<open>
  From the agent to the client, requests are carried unchanged and in order, with the
  client's own answers. Of the agent's global requests the client sees keepalives only,
  each under the current name; a request that is no keepalive is never passed on, and when
  it wants a reply it is refused.
\<close>

theorem agent_requests_forwarded:
  "to_client (fst (agent_loop ins)) = map fst (received ins) \<and>
   replies (fst (agent_loop ins)) = answered (received ins) \<and>
   set (to_client (fst (global_loop s gins))) \<subseteq>
     (\<lambda>r. r\<lparr>rtype := KeepAliveRequestType\<rparr>) ` {r \<in> fst ` set (received gins). is_keepalive r} \<and>
   set (replies (fst (global_loop s gins))) \<subseteq>
     {(r, False) | r. r \<in> fst ` set (received gins) \<and> \<not> is_keepalive r \<and> want_reply r}"
  using agent_loop_forwards [of ins] global_loop_effects [of s gins] by blast

section \<open>Seats\<close>

text \<open>Every seat in use was handed out before: it is below the counter.\<close>

definition seats_ok :: "Session \<Rightarrow> bool" where
  "seats_ok s \<longleftrightarrow>
     (\<forall>k c. ClientChannels s k = Some c \<longrightarrow> k < next_seat s) \<and>
     (\<forall>k c. AgentChannels (Agent_of s) k = Some c \<longrightarrow> k < next_seat s)"

lemma seats_okD:
  "seats_ok s \<Longrightarrow> ClientChannels s k = Some c \<Longrightarrow> k < next_seat s"
  "seats_ok s \<Longrightarrow> AgentChannels (Agent_of s) k = Some c \<Longrightarrow> k < next_seat s"
  by (auto simp: seats_ok_def)

lemma NewSeat_fresh:
  assumes "seats_ok s" "next_seat s \<noteq> - 1" "NewSeat s = (s', i)"
  shows "seats_ok s'" "i \<notin> dom (ClientChannels s')" "i \<notin> dom (AgentChannels (Agent_of s'))"
    "i < next_seat s'" "Agent_of s' = Agent_of s" "ClientChannels s' = ClientChannels s"
proof -
  have less: "next_seat s < next_seat s + 1"
    using assms(2) max_word_wrap [of "next_seat s"] unatSuc [of "next_seat s"]
    by (metis add.commute lessI word_less_nat_alt)
  have s': "s' = s\<lparr>next_seat := next_seat s + 1\<rparr>" "i = next_seat s"
    using assms(3) by (auto simp: NewSeat_def)
  show "seats_ok s'"
    by (auto simp: seats_ok_def s' intro: less_trans [OF _ less] seats_okD [OF assms(1)])
  show "i \<notin> dom (ClientChannels s')" "i \<notin> dom (AgentChannels (Agent_of s'))"
    using seats_okD [OF assms(1)] by (auto simp: s')
  show "i < next_seat s'" "Agent_of s' = Agent_of s" "ClientChannels s' = ClientChannels s"
    using less by (simp_all add: s')
qed

lemma NewClientChannel_seats:
  assumes "seats_ok s" "i < next_seat s" "i \<notin> dom (ClientChannels s)"
    "NewClientChannel accepted i s = (s', r)"
  shows "seats_ok s'" "Agent_of s' = Agent_of s" "next_seat s' = next_seat s"
    "r \<noteq> Inl ErrSeatAlreadySet \<or> accepted = Inl ErrSeatAlreadySet"
  using assms seats_okD [OF assms(1)]
  by (auto simp: NewClientChannel_def seats_ok_def split: sum.splits if_splits)

lemma NewAgentChannel_seats:
  assumes "seats_ok s" "i < next_seat s" "i \<notin> dom (AgentChannels (Agent_of s))"
    "NewAgentChannel open_channel name i s = (s', r)" "Client (Agent_of s) = Some cl"
  shows "seats_ok s'" "r = open_channel cl name" "next_seat s' = next_seat s"
    "Client (Agent_of s') = Some cl" "Conn (Agent_of s') = Conn (Agent_of s)"
  using assms seats_okD [OF assms(1)]
  by (auto simp: NewAgentChannel_def seats_ok_def split: sum.splits if_splits)

lemma open_session_channels_none:
  assumes "snap ctx = None \<or> (\<exists>sn. snap ctx = Some sn \<and> snap_session sn = None)"
  shows "open_session_channels accepted open_channel ctx = Panic"
  using assms
  by (auto simp: open_session_channels_def ObtainSession_def getSnapshot_def retrieve_def
      deref_def Let_def)

lemma open_session_channels_session:
  assumes "snap ctx = Some \<lparr>snap_session = Some a, snap_state = st\<rparr>" "store ctx a = Some s"
    "NewSeat s = (s1, i)"
  shows "open_session_channels accepted open_channel ctx =
    (case NewClientChannel accepted i s1 of
       (s2, Inl err) \<Rightarrow>
         Val (upd_session a (\<lambda>_. s2) ctx,
           [RejectChannel ''failed to accept the channel opening''], None)
     | (s2, Inr client) \<Rightarrow>
         (case NewAgentChannel open_channel SessionChannel i s2 of
            (s3, Inl err) \<Rightarrow> Val (upd_session a (\<lambda>_. s3) ctx,
                [RejectChannel ''failed to open the session channel on agent'', CloseClient], None)
          | (s3, Inr agent) \<Rightarrow> Val (upd_session a (\<lambda>_. s3) ctx, [],
              Some \<lparr>opened_seat = i, opened_client = client, opened_agent = agent\<rparr>)))"
  using assms
  by (simp add: open_session_channels_def ObtainSession_def getSnapshot_def retrieve_def
      deref_def Let_def split: sum.split prod.split)

lemma NewAgentChannel_data:
  "NewAgentChannel oc name i s = (s', r) \<Longrightarrow>
   s' = s\<lparr>Agent_of := Agent_of s'\<rparr> \<and>
   Client (Agent_of s') = Client (Agent_of s) \<and> Conn (Agent_of s') = Conn (Agent_of s)"
  by (auto simp: NewAgentChannel_def split: if_splits option.splits sum.splits)



text \<open>
  C19. A user name without an at sign gets the connection failure banner and no session,
  and yet its public key is accepted; the session channel it then opens makes the handler
  use a missing session: the server panics.
\<close>

theorem unparsed_user_crashes_server:
  assumes "CHR ''@'' \<notin> set user"
  shows "\<exists>ctx1 ctx2. BannerHandler dial (new_context user remote sid) =
       Val (ctx1, message ConnectionFailedMessage) \<and>
     PublicKeyHandler dial hs ctx1 = Val (ctx2, True) \<and>
     open_session_channels accepted open_channel ctx2 = Panic"
proof -
  let ?ctx = "new_context user remote sid"
  have "\<exists>e. NewSession ?ctx = (?ctx, Inl e)"
    using NewTarget_no_at [OF assms] by (simp add: NewSession_def new_context_def split: sum.split)
  then have b: "BannerHandler dial ?ctx = Val (?ctx, message ConnectionFailedMessage)"
    using BannerHandler_error by blast
  let ?sn = "\<lparr>snap_session = None, snap_state = StateNil\<rparr>"
  have g: "getSnapshot ?ctx = (?ctx\<lparr>snap := Some ?sn\<rparr>, ?sn)"
    by (simp add: getSnapshot_def new_context_def Let_def)
  have p: "PublicKeyHandler dial hs ?ctx = Val (?ctx\<lparr>snap := Some ?sn\<rparr>, True)"
    by (simp add: PublicKeyHandler_def ObtainSession_eq [OF g] less_State_def)
  have "open_session_channels accepted open_channel (?ctx\<lparr>snap := Some ?sn\<rparr>) = Panic"
    by (rule open_session_channels_none) simp
  with b p show ?thesis by blast
qed

theorem unparsed_user_crashes_server_witness:
  "\<exists>ctx1 ctx2. BannerHandler demo_dial (new_context ''root'' ''10.0.0.1:5000'' ''s1'') =
       Val (ctx1, message ConnectionFailedMessage) \<and>
     PublicKeyHandler demo_dial (\<lambda>_ _. Inr (1, 2)) ctx1 = Val (ctx2, True) \<and>
     open_session_channels (Inr 11) (\<lambda>_ _. Inr 12) ctx2 = Panic"
  by (rule unparsed_user_crashes_server) simp

end
