(* ===== verification/Session_Lifecycle.thy ===== *)
theory Session_Lifecycle
  imports Session_Channel
begin

text \<open>
  The goroutines of the session channel's handler, as a step relation: the three request
  loops, the two copying goroutines of the data pipe, and the handler itself, which waits
  for the three loops. The channel \<^verbatim>\<open>done\<close> is unbuffered: the copying goroutine that sends
  on it and the deferred function of the agent's loop that receives from it meet in one
  step. Deferred calls run in the reverse order of their registration.
\<close>

datatype loop_phase = Looping | LoopReturned
datatype agent_phase = AgentLooping | AwaitingDone | ClosingClient | AgentReturned
datatype copy_phase = NotStarted | Copying | SendingDone | ClosingWrite | Copied

record channel_run =
  run_session :: Session
  once_fired :: bool
  run_seat :: seat
  global_phase :: loop_phase
  client_phase :: loop_phase
  agent_loop_phase :: agent_phase
  to_client_copy :: copy_phase
  to_agent_copy :: copy_phase
  client_closed :: bool
  handler_returned :: bool
  sent_on :: "request list"

definition start_run :: "Session \<Rightarrow> seat \<Rightarrow> channel_run" where
  "start_run s seat =
     \<lparr>run_session = s, once_fired = False, run_seat = seat, global_phase = Looping,
      client_phase = Looping, agent_loop_phase = AgentLooping, to_client_copy = NotStarted,
      to_agent_copy = NotStarted, client_closed = False, handler_returned = False,
      sent_on = []\<rparr>"

text \<open>The goroutine \<^verbatim>\<open>pipe\<close> starts its two copying goroutines.\<close>

definition start_pipe :: "effect list \<Rightarrow> channel_run \<Rightarrow> channel_run" where
  "start_pipe es r =
     (if StartPipe \<in> set es then r\<lparr>to_client_copy := Copying, to_agent_copy := Copying\<rparr> else r)"

text \<open>
  A loop may return whenever its context ends or its channel is closed, the loop of the
  global requests also on a failed keepalive; a copy ends at the end of its data or with
  an error. \<open>sent_on\<close> records the client's requests that could be sent on.
\<close>

inductive channel_step :: "channel_run \<Rightarrow> channel_run \<Rightarrow> bool" where
  global_returns:
    "global_phase r = Looping \<Longrightarrow> channel_step r (r\<lparr>global_phase := LoopReturned\<rparr>)"
| client_request:
    "client_phase r = Looping \<Longrightarrow>
     client_request pp pw (run_seat r) req sent (run_session r, once_fired r) = ((s', fired), es) \<Longrightarrow>
     channel_step r (start_pipe es (r\<lparr>run_session := s', once_fired := fired,
       sent_on := (if isl sent then sent_on r else sent_on r @ [req])\<rparr>))"
| client_returns:
    "client_phase r = Looping \<Longrightarrow> channel_step r (r\<lparr>client_phase := LoopReturned\<rparr>)"
| agent_leaves:
    "agent_loop_phase r = AgentLooping \<Longrightarrow>
     channel_step r (r\<lparr>agent_loop_phase := AwaitingDone\<rparr>)"
| to_client_ends:
    "to_client_copy r = Copying \<Longrightarrow> channel_step r (r\<lparr>to_client_copy := SendingDone\<rparr>)"
| done_received:
    "to_client_copy r = SendingDone \<Longrightarrow> agent_loop_phase r = AwaitingDone \<Longrightarrow>
     channel_step r (r\<lparr>to_client_copy := ClosingWrite, agent_loop_phase := ClosingClient\<rparr>)"
| client_closes:
    "agent_loop_phase r = ClosingClient \<Longrightarrow>
     channel_step r (r\<lparr>agent_loop_phase := AgentReturned, client_closed := True\<rparr>)"
| to_client_done:
    "to_client_copy r = ClosingWrite \<Longrightarrow> channel_step r (r\<lparr>to_client_copy := Copied\<rparr>)"
| to_agent_ends:
    "to_agent_copy r = Copying \<Longrightarrow> channel_step r (r\<lparr>to_agent_copy := Copied\<rparr>)"
| handler_returns:
    "global_phase r = LoopReturned \<Longrightarrow> client_phase r = LoopReturned \<Longrightarrow>
     agent_loop_phase r = AgentReturned \<Longrightarrow> \<not> handler_returned r \<Longrightarrow>
     channel_step r (r\<lparr>handler_returned := True, client_closed := True\<rparr>)"

inductive run_reachable :: "channel_run \<Rightarrow> channel_run \<Rightarrow> bool" for r0 where
  start: "run_reachable r0 r0"
| step: "run_reachable r0 r \<Longrightarrow> channel_step r r' \<Longrightarrow> run_reachable r0 r'"

inductive_cases channel_stepE: "channel_step r r'"

section \<open>The invariant of a run\<close>

text \<open>
  The pipe runs exactly when the once-function has fired, which takes a request that needs
  data and could be sent on; \<^verbatim>\<open>done\<close> has been received exactly when the agent's loop is
  past waiting for it; the client's channel is closed only after that.
\<close>

definition pipe_tracked :: "channel_run \<Rightarrow> bool" where
  "pipe_tracked r \<longleftrightarrow>
     (once_fired r \<longleftrightarrow> to_client_copy r \<noteq> NotStarted) \<and>
     (once_fired r \<longleftrightarrow> (\<exists>req \<in> set (sent_on r). starts_pipe req))"

definition done_tracked :: "channel_run \<Rightarrow> bool" where
  "done_tracked r \<longleftrightarrow>
     (agent_loop_phase r \<in> {ClosingClient, AgentReturned} \<longleftrightarrow>
        to_client_copy r \<in> {ClosingWrite, Copied}) \<and>
     (client_closed r \<longrightarrow> agent_loop_phase r = AgentReturned) \<and>
     (handler_returned r \<longrightarrow> agent_loop_phase r = AgentReturned)"

definition run_inv :: "channel_run \<Rightarrow> bool" where
  "run_inv r \<longleftrightarrow> pipe_tracked r \<and> done_tracked r"

lemmas run_defs = run_inv_def pipe_tracked_def done_tracked_def

lemma run_inv_start: "run_inv (start_run s seat)"
  by (simp add: run_defs start_run_def)

lemma StartPipe_iff:
  assumes "client_request pp pw seat req sent (s, piped) = ((s', piped'), es)"
  shows "StartPipe \<in> set es \<longleftrightarrow> \<not> piped \<and> piped'"
  using client_request_effects(4) [OF assms] count_list_0_iff [of es StartPipe]
  by (cases "StartPipe \<in> set es") (auto split: if_splits)

lemma run_inv_request:
  assumes inv: "run_inv r"
    and req: "client_request pp pw seat req sent (s, once_fired r) = ((s', fired), es)"
  shows "run_inv (start_pipe es (r\<lparr>run_session := s', once_fired := fired,
    sent_on := (if isl sent then sent_on r else sent_on r @ [req])\<rparr>))"
proof -
  have fired: "fired \<longleftrightarrow> once_fired r \<or> (starts_pipe req \<and> \<not> isl sent)"
    by (rule client_request_effects(5) [OF req])
  show ?thesis
    using inv fired StartPipe_iff [OF req]
    by (cases "isl sent"; cases "once_fired r"; cases "starts_pipe req")
       (auto simp: run_defs start_pipe_def)
qed

lemma run_inv_step: "channel_step r r' \<Longrightarrow> run_inv r \<Longrightarrow> run_inv r'"
proof (induction rule: channel_step.induct)
  case (client_request r pp pw req sent s' fired es)
  then show ?case using run_inv_request by blast
qed (auto simp: run_defs)

lemma run_reachable_inv: "run_reachable r0 r \<Longrightarrow> run_inv r0 \<Longrightarrow> run_inv r"
  by (induction rule: run_reachable.induct) (auto intro: run_inv_step)

section \<open>Progress\<close>

text \<open>How many steps of the handler's own goroutines are left before it returns.\<close>

fun loop_left :: "loop_phase \<Rightarrow> nat" where
  "loop_left Looping = 1" | "loop_left LoopReturned = 0"

fun agent_left :: "agent_phase \<Rightarrow> nat" where
  "agent_left AgentLooping = 3" | "agent_left AwaitingDone = 2" | "agent_left ClosingClient = 1"
| "agent_left AgentReturned = 0"

definition left :: "channel_run \<Rightarrow> nat" where
  "left r = loop_left (global_phase r) + loop_left (client_phase r) +
     agent_left (agent_loop_phase r) + (if to_client_copy r = Copying then 1 else 0) +
     (if handler_returned r then 0 else 1)"

text \<open>Once the pipe has started, some goroutine can always move the handler closer to its end.\<close>

lemma run_progress:
  assumes inv: "run_inv r" and fired: "once_fired r" and on: "\<not> handler_returned r"
  shows "\<exists>r'. channel_step r r' \<and> once_fired r' \<and> left r' < left r"
proof -
  have *: "channel_step r r' \<Longrightarrow> once_fired r' \<Longrightarrow> left r' < left r \<Longrightarrow> ?thesis" for r'
    by blast
  consider (g) "global_phase r = Looping" | (c) "client_phase r = Looping"
    | (copy) "to_client_copy r = Copying"
    | (rest) "global_phase r = LoopReturned" "client_phase r = LoopReturned"
        "to_client_copy r \<noteq> Copying"
    by (metis loop_phase.exhaust)
  then show ?thesis
  proof cases
    case g
    then show ?thesis using fired by (intro * [OF global_returns]) (simp_all add: left_def)
  next
    case c
    then show ?thesis using fired by (intro * [OF client_returns]) (simp_all add: left_def)
  next
    case copy
    then show ?thesis using fired by (intro * [OF to_client_ends]) (simp_all add: left_def)
  next
    case rest
    show ?thesis
    proof (cases "agent_loop_phase r")
      case AgentLooping
      then show ?thesis using fired by (intro * [OF agent_leaves]) (simp_all add: left_def)
    next
      case AwaitingDone
      then have "to_client_copy r = SendingDone"
        using inv fired rest by (cases "to_client_copy r") (auto simp: run_defs)
      then show ?thesis
        using fired AwaitingDone by (intro * [OF done_received]) (simp_all add: left_def)
    next
      case ClosingClient
      then show ?thesis using fired by (intro * [OF client_closes]) (simp_all add: left_def)
    next
      case AgentReturned
      then show ?thesis
        using fired rest on by (intro * [OF handler_returns]) (simp_all add: left_def)
    qed
  qed
qed

lemma run_can_return:
  assumes "run_inv r" "once_fired r"
  shows "\<exists>r'. channel_step\<^sup>*\<^sup>* r r' \<and> handler_returned r'"
  using assms
proof (induction "left r" arbitrary: r rule: less_induct)
  case less
  show ?case
  proof (cases "handler_returned r")
    case True
    then show ?thesis by blast
  next
    case False
    then obtain r1 where r1: "channel_step r r1" "once_fired r1" "left r1 < left r"
      using run_progress less.prems by blast
    moreover have "run_inv r1" using run_inv_step r1(1) less.prems(1) by blast
    ultimately obtain r' where "channel_step\<^sup>*\<^sup>* r1 r'" "handler_returned r'"
      using less.hyps by blast
    with r1(1) show ?thesis by (meson converse_rtranclp_into_rtranclp)
  qed
qed

section \<open>Termination\<close>

text \<open>
  Once the client's loop has returned, so that no more requests come, every goroutine has
  only so many steps left. A state from which no step is possible is the handler's end, or
  the state in which it waits for ever for a pipe that was never started.
\<close>

fun copy_left :: "copy_phase \<Rightarrow> nat" where
  "copy_left NotStarted = 0" | "copy_left Copying = 3" | "copy_left SendingDone = 2"
| "copy_left ClosingWrite = 1" | "copy_left Copied = 0"

definition steps_left :: "channel_run \<Rightarrow> nat" where
  "steps_left r = loop_left (global_phase r) + agent_left (agent_loop_phase r) +
     copy_left (to_client_copy r) + copy_left (to_agent_copy r) +
     (if handler_returned r then 0 else 1)"

lemma steps_left_bound: "steps_left r \<le> 11"
  unfolding steps_left_def
  by (cases "global_phase r"; cases "agent_loop_phase r"; cases "to_client_copy r";
      cases "to_agent_copy r") simp_all

lemma step_after_client:
  "channel_step r r' \<Longrightarrow> client_phase r = LoopReturned \<Longrightarrow>
   client_phase r' = LoopReturned \<and> sent_on r' = sent_on r \<and> steps_left r' < steps_left r"
  by (induction rule: channel_step.induct) (simp_all add: steps_left_def)

lemma steps_after_client:
  "(channel_step ^^ n) r r' \<Longrightarrow> client_phase r = LoopReturned \<Longrightarrow>
   client_phase r' = LoopReturned \<and> sent_on r' = sent_on r \<and> n + steps_left r' \<le> steps_left r"
proof (induction n arbitrary: r')
  case (Suc n)
  then obtain r1 where r1: "(channel_step ^^ n) r r1" "channel_step r1 r'" by auto
  from Suc.IH [OF r1(1) Suc.prems(2)] step_after_client [OF r1(2)] show ?case by auto
qed simp

lemma stopped_iff:
  assumes inv: "run_inv r" and client: "client_phase r = LoopReturned"
    and stop: "\<nexists>r'. channel_step r r'"
  shows "handler_returned r \<longleftrightarrow> once_fired r"
proof
  show "once_fired r" if "handler_returned r"
    using inv that by (auto simp: run_defs)
  show "handler_returned r" if "once_fired r"
    using run_progress [OF inv that] stop by blast
qed

section \<open>Properties\<close>

text \<open>
  In every interleaving of the channel's goroutines, the handler has returned, and the
  client's channel has been closed, only if a pseudo-terminal, exec or subsystem request
  was sent on: a session with a plain shell request alone stays open for ever, with its
  goroutines, even after its client has gone. Once such a request has been sent on, the
  handler is never stuck: from every state it can run to its end.
\<close>

theorem handler_return_needs_pipe:
  assumes "run_reachable (start_run s seat) r"
  shows "(handler_returned r \<or> client_closed r \<longrightarrow> (\<exists>req \<in> set (sent_on r). starts_pipe req)) \<and>
    ((\<exists>req \<in> set (sent_on r). starts_pipe req) \<longrightarrow>
       (\<exists>r'. channel_step\<^sup>*\<^sup>* r r' \<and> handler_returned r'))"
proof -
  have inv: "run_inv r" using run_reachable_inv [OF assms run_inv_start] .
  have "handler_returned r \<or> client_closed r \<longrightarrow> to_client_copy r \<noteq> NotStarted"
    using inv by (auto simp: run_defs)
  then show ?thesis using inv run_can_return [OF inv] by (auto simp: run_defs)
qed

text \<open>A client that asks for a shell without a terminal and goes away.\<close>

definition shell_request :: request where
  "shell_request = \<lparr>rtype = ''shell'', want_reply = True, payload = []\<rparr>"

theorem handler_return_needs_pipe_witness:
  "\<exists>r. run_reachable (start_run demo_session 0) r \<and> sent_on r = [shell_request] \<and>
     client_phase r = LoopReturned \<and> \<not> handler_returned r"
proof -
  let ?r0 = "start_run demo_session 0"
  let ?r1 = "?r0\<lparr>sent_on := [shell_request]\<rparr>"
  let ?r2 = "?r1\<lparr>client_phase := LoopReturned\<rparr>"
  have "client_request (\<lambda>_. True) (\<lambda>_. True) 0 shell_request (Inr True) (demo_session, False) =
      ((demo_session, False), [ToAgent shell_request, Reply shell_request True])"
    by (simp add: client_request_def client_event_def Seats_Get_def shell_request_def
        request_type_defs starts_pipe_def)
  then have "channel_step ?r0 ?r1"
    using channel_step.client_request [of ?r0 "\<lambda>_. True" "\<lambda>_. True" shell_request "Inr True"
        demo_session False "[ToAgent shell_request, Reply shell_request True]"]
    by (simp add: start_run_def start_pipe_def)
  moreover have "channel_step ?r1 ?r2" by (rule client_returns) (simp add: start_run_def)
  ultimately have reach: "run_reachable ?r0 ?r2" by (meson run_reachable.intros)
  have "\<not> handler_returned ?r2"
    using handler_return_needs_pipe [OF reach]
    by (simp add: shell_request_def starts_pipe_def request_type_defs)
  with reach show ?thesis by force
qed



end
