(* ===== verification/Channel_Openings.thy ===== *)
theory Channel_Openings
  imports Session_Channel
begin

text \<open>
  Several session channels of one client, opened at the same time. The SSH library runs the
  handler of each channel on its own goroutine, and nothing guards the session they share:
  not the counter of seats, nor the two tables of channels. Here are the handlers'
  openings as a step relation over that shared state. A channel, on either side, is known by the
  number of its opener. The increment of the counter is one step, finer than which the code
  may still interleave.
\<close>

datatype opener =
    Idle
  | SeatRead seat
  | Seated seat
  | ClientFree seat
  | ClientSet seat
  | AgentFree seat
  | Opened seat
  | Refused seat go_error

fun seat_of :: "opener \<Rightarrow> seat option" where
  "seat_of Idle = None"
| "seat_of (SeatRead n) = Some n"
| "seat_of (Seated n) = Some n"
| "seat_of (ClientFree n) = Some n"
| "seat_of (ClientSet n) = Some n"
| "seat_of (AgentFree n) = Some n"
| "seat_of (Opened n) = Some n"
| "seat_of (Refused n e) = Some n"

record openings =
  counter :: seat
  client_table :: "seat \<rightharpoonup> handle"
  agent_table :: "seat \<rightharpoonup> handle"
  openers :: "handle \<Rightarrow> opener"

definition move :: "handle \<Rightarrow> opener \<Rightarrow> openings \<Rightarrow> openings" where
  "move i p s = s\<lparr>openers := (openers s)(i := p)\<rparr>"

text \<open>
  \<^verbatim>\<open>NewSeat\<close> reads the counter and then increments it; \<^verbatim>\<open>NewClientChannel\<close> and
  \<^verbatim>\<open>NewAgentChannel\<close> each look the seat up in their table, do something that takes time, and
  then write the table.
\<close>

inductive opening_step :: "openings \<Rightarrow> openings \<Rightarrow> bool" where
  read_seat: "openers s i = Idle \<Longrightarrow> opening_step s (move i (SeatRead (counter s)) s)"
| next_seat: "openers s i = SeatRead n \<Longrightarrow>
    opening_step s (move i (Seated n) (s\<lparr>counter := counter s + 1\<rparr>))"
| client_taken: "openers s i = Seated n \<Longrightarrow> n \<in> dom (client_table s) \<Longrightarrow>
    opening_step s (move i (Refused n ErrSeatAlreadySet) s)"
| client_free: "openers s i = Seated n \<Longrightarrow> n \<notin> dom (client_table s) \<Longrightarrow>
    opening_step s (move i (ClientFree n) s)"
| accept_fails: "openers s i = ClientFree n \<Longrightarrow>
    opening_step s (move i (Refused n (External t)) s)"
| accept: "openers s i = ClientFree n \<Longrightarrow>
    opening_step s (move i (ClientSet n) (s\<lparr>client_table := (client_table s)(n \<mapsto> i)\<rparr>))"
| agent_taken: "openers s i = ClientSet n \<Longrightarrow> n \<in> dom (agent_table s) \<Longrightarrow>
    opening_step s (move i (Refused n ErrSeatAlreadySet) s)"
| agent_free: "openers s i = ClientSet n \<Longrightarrow> n \<notin> dom (agent_table s) \<Longrightarrow>
    opening_step s (move i (AgentFree n) s)"
| open_fails: "openers s i = AgentFree n \<Longrightarrow>
    opening_step s (move i (Refused n (External t)) s)"
| open_agent: "openers s i = AgentFree n \<Longrightarrow>
    opening_step s (move i (Opened n) (s\<lparr>agent_table := (agent_table s)(n \<mapsto> i)\<rparr>))"

definition no_openings :: openings where
  "no_openings =
     \<lparr>counter = 0, client_table = Map.empty, agent_table = Map.empty, openers = (\<lambda>_. Idle)\<rparr>"

abbreviation openings_reachable :: "openings \<Rightarrow> bool" where
  "openings_reachable s \<equiv> opening_step\<^sup>*\<^sup>* no_openings s"

section \<open>What the tables hold\<close>

text \<open>
  An entry of a table belongs to an opener that has that seat and has got far enough; an
  opener that has got that far finds some entry under its seat; and one refused for its
  seat shares it with another.
\<close>

definition table_owners :: "openings \<Rightarrow> bool" where
  "table_owners s \<longleftrightarrow>
     (\<forall>n k. client_table s n = Some k \<longrightarrow>
        openers s k \<in> {ClientSet n, AgentFree n, Opened n} \<or> (\<exists>e. openers s k = Refused n e)) \<and>
     (\<forall>n k. agent_table s n = Some k \<longrightarrow> openers s k = Opened n)"

definition entries_present :: "openings \<Rightarrow> bool" where
  "entries_present s \<longleftrightarrow>
     (\<forall>n k. openers s k \<in> {ClientSet n, AgentFree n, Opened n} \<longrightarrow> client_table s n \<noteq> None) \<and>
     (\<forall>n k. openers s k = Opened n \<longrightarrow> agent_table s n \<noteq> None)"

definition refused_share :: "openings \<Rightarrow> bool" where
  "refused_share s \<longleftrightarrow>
     (\<forall>n k. openers s k = Refused n ErrSeatAlreadySet \<longrightarrow>
        (\<exists>j. j \<noteq> k \<and> seat_of (openers s j) = Some n))"

definition openings_inv :: "openings \<Rightarrow> bool" where
  "openings_inv s \<longleftrightarrow> table_owners s \<and> entries_present s \<and> refused_share s"

lemmas openings_defs = openings_inv_def table_owners_def entries_present_def refused_share_def

lemma openers_move [simp]:
  "openers (move i p s) = (openers s)(i := p)"
  "counter (move i p s) = counter s"
  "client_table (move i p s) = client_table s"
  "agent_table (move i p s) = agent_table s"
  by (simp_all add: move_def)

lemma table_owners_step: "opening_step s t \<Longrightarrow> table_owners s \<Longrightarrow> table_owners t"
  by (induction rule: opening_step.induct)
     (simp_all add: table_owners_def, (fastforce split: if_splits)+)

lemma entries_present_step: "opening_step s t \<Longrightarrow> entries_present s \<Longrightarrow> entries_present t"
  by (induction rule: opening_step.induct)
     (simp_all add: entries_present_def, (fastforce split: if_splits)+)

text \<open>A seat, once read, is kept; so whoever shares a refused opener's seat goes on sharing it.\<close>

lemma seat_of_step:
  "opening_step s t \<Longrightarrow> seat_of (openers s j) = Some n \<Longrightarrow> seat_of (openers t j) = Some n"
  by (induction rule: opening_step.induct) auto

lemma external_not_seat: "External t \<noteq> ErrSeatAlreadySet" "ErrSeatAlreadySet \<noteq> External t"
  by (simp_all add: ErrSeatAlreadySet_def)

lemma refused_new:
  assumes "opening_step s t" "table_owners s"
    and "openers t k = Refused n ErrSeatAlreadySet"
  shows "openers s k = Refused n ErrSeatAlreadySet \<or>
    (\<exists>j. j \<noteq> k \<and> seat_of (openers s j) = Some n)"
  using assms
proof (induction rule: opening_step.induct)
  case (client_taken s i m)
  then obtain j where "client_table s m = Some j" by auto
  then have "seat_of (openers s j) = Some m" "openers s j \<noteq> Seated m"
    using client_taken.prems(1) unfolding table_owners_def by fastforce+
  then show ?case using client_taken by (auto split: if_splits)
next
  case (agent_taken s i m)
  then obtain j where "agent_table s m = Some j" by auto
  then have j: "openers s j = Opened m" using agent_taken.prems(1) by (simp add: table_owners_def)
  show ?case
  proof (cases "k = i")
    case True
    then have "m = n" using agent_taken.prems(2) by simp
    then show ?thesis using j agent_taken.hyps(1) True by (intro disjI2 exI [of _ j]) auto
  next
    case False
    then show ?thesis using agent_taken.prems(2) by simp
  qed
qed (auto simp: external_not_seat split: if_splits)

lemma refused_share_step:
  assumes "opening_step s t" "table_owners s" "refused_share s"
  shows "refused_share t"
  using refused_new [OF assms(1,2)] seat_of_step [OF assms(1)] assms(3)
  unfolding refused_share_def by metis

lemma openings_inv_step: "opening_step s t \<Longrightarrow> openings_inv s \<Longrightarrow> openings_inv t"
  by (simp add: openings_inv_def table_owners_step entries_present_step refused_share_step)

lemma openings_reachable_inv: "openings_reachable s \<Longrightarrow> openings_inv s"
proof (induction rule: rtranclp_induct)
  case base
  show ?case by (simp add: openings_defs no_openings_def)
qed (rule openings_inv_step)

section \<open>Two channels at the same time\<close>

text \<open>Two openers that have both read the counter before either has incremented it.\<close>

definition both_seated :: "handle \<Rightarrow> handle \<Rightarrow> openings" where
  "both_seated i j = no_openings\<lparr>counter := 2,
     openers := (\<lambda>_. Idle)(i := Seated 0, j := Seated 0)\<rparr>"

lemma both_seated_reachable:
  assumes "i \<noteq> j"
  shows "openings_reachable (both_seated i j)"
proof -
  let ?s1 = "move i (SeatRead 0) no_openings"
  let ?s2 = "move j (SeatRead 0) ?s1"
  let ?s3 = "move i (Seated 0) (?s2\<lparr>counter := counter ?s2 + 1\<rparr>)"
  let ?s4 = "move j (Seated 0) (?s3\<lparr>counter := counter ?s3 + 1\<rparr>)"
  have "opening_step no_openings ?s1"
    using read_seat [of no_openings i] by (simp add: no_openings_def)
  moreover have "opening_step ?s1 ?s2"
    using read_seat [of ?s1 j] assms by (simp add: no_openings_def)
  moreover have "opening_step ?s2 ?s3" using assms by (intro next_seat) simp
  moreover have "opening_step ?s3 ?s4" using assms by (intro next_seat) simp
  moreover have "?s4 = both_seated i j"
    using assms by (auto simp: both_seated_def move_def no_openings_def)
  ultimately show ?thesis by (metis rtranclp.rtrancl_into_rtrancl rtranclp.rtrancl_refl)
qed

text \<open>An opener that runs from its seat to its end without being disturbed.\<close>

definition open_alone :: "handle \<Rightarrow> seat \<Rightarrow> openings \<Rightarrow> openings" where
  "open_alone i n s = move i (Opened n)
     (s\<lparr>client_table := (client_table s)(n \<mapsto> i), agent_table := (agent_table s)(n \<mapsto> i)\<rparr>)"

lemma open_from_free:
  assumes "openers s i = ClientFree n" "n \<notin> dom (agent_table s)"
  shows "opening_step\<^sup>*\<^sup>* s (open_alone i n s)"
proof -
  let ?s1 = "move i (ClientSet n) (s\<lparr>client_table := (client_table s)(n \<mapsto> i)\<rparr>)"
  let ?s2 = "move i (AgentFree n) ?s1"
  let ?s3 = "move i (Opened n) (?s2\<lparr>agent_table := (agent_table ?s2)(n \<mapsto> i)\<rparr>)"
  have "opening_step s ?s1" using assms by (intro accept)
  moreover have "opening_step ?s1 ?s2" using assms by (intro agent_free) (auto simp: move_def)
  moreover have "opening_step ?s2 ?s3" by (intro open_agent) simp
  moreover have "?s3 = open_alone i n s" by (simp add: open_alone_def move_def)
  ultimately show ?thesis by (metis rtranclp.rtrancl_into_rtrancl rtranclp.rtrancl_refl)
qed

lemma second_refused:
  assumes "i \<noteq> j"
  shows "\<exists>s. openings_reachable s \<and> openers s i = Opened 0 \<and>
    openers s j = Refused 0 ErrSeatAlreadySet"
proof -
  let ?s0 = "both_seated i j"
  let ?s1 = "move i (ClientFree 0) ?s0"
  let ?s2 = "open_alone i 0 ?s1"
  let ?s3 = "move j (Refused 0 ErrSeatAlreadySet) ?s2"
  have "opening_step ?s0 ?s1"
    using assms by (intro client_free) (simp_all add: both_seated_def no_openings_def)
  moreover have "opening_step\<^sup>*\<^sup>* ?s1 ?s2"
    by (rule open_from_free) (simp_all add: both_seated_def no_openings_def)
  moreover have "opening_step ?s2 ?s3"
    using assms by (intro client_taken) (simp_all add: open_alone_def both_seated_def)
  ultimately have "openings_reachable ?s3"
    using both_seated_reachable [OF assms]
    by (metis rtranclp.rtrancl_into_rtrancl rtranclp_trans)
  moreover have "openers ?s3 i = Opened 0 \<and> openers ?s3 j = Refused 0 ErrSeatAlreadySet"
    using assms by (simp add: open_alone_def)
  ultimately show ?thesis by blast
qed

lemma both_opened:
  assumes "i \<noteq> j"
  shows "\<exists>s. openings_reachable s \<and> openers s i = Opened 0 \<and> openers s j = Opened 0 \<and>
    client_table s = [0 \<mapsto> j] \<and> agent_table s = [0 \<mapsto> j]"
proof -
  let ?s0 = "both_seated i j"
  let ?s1 = "move i (ClientFree 0) ?s0"
  let ?s2 = "move j (ClientFree 0) ?s1"
  let ?s3 = "move i (ClientSet 0) (?s2\<lparr>client_table := (client_table ?s2)(0 \<mapsto> i)\<rparr>)"
  let ?s4 = "move i (AgentFree 0) ?s3"
  let ?s5 = "move j (ClientSet 0) (?s4\<lparr>client_table := (client_table ?s4)(0 \<mapsto> j)\<rparr>)"
  let ?s6 = "move j (AgentFree 0) ?s5"
  let ?s7 = "move i (Opened 0) (?s6\<lparr>agent_table := (agent_table ?s6)(0 \<mapsto> i)\<rparr>)"
  let ?s8 = "move j (Opened 0) (?s7\<lparr>agent_table := (agent_table ?s7)(0 \<mapsto> j)\<rparr>)"
  note init = both_seated_def no_openings_def
  have "opening_step ?s0 ?s1" using assms by (intro client_free) (simp_all add: init)
  moreover have "opening_step ?s1 ?s2" using assms by (intro client_free) (simp_all add: init)
  moreover have "opening_step ?s2 ?s3" using assms by (intro accept) simp
  moreover have "opening_step ?s3 ?s4" by (intro agent_free) (simp_all add: init move_def)
  moreover have "opening_step ?s4 ?s5" using assms by (intro accept) simp
  moreover have "opening_step ?s5 ?s6" by (intro agent_free) (simp_all add: init move_def)
  moreover have "opening_step ?s6 ?s7" using assms by (intro open_agent) simp
  moreover have "opening_step ?s7 ?s8" using assms by (intro open_agent) simp
  ultimately have "opening_step\<^sup>*\<^sup>* ?s0 ?s8" by (meson converse_rtranclp_into_rtranclp rtranclp.rtrancl_refl)
  then have "openings_reachable ?s8" using both_seated_reachable [OF assms] by simp
  moreover have "openers ?s8 i = Opened 0 \<and> openers ?s8 j = Opened 0 \<and>
      client_table ?s8 = [0 \<mapsto> j] \<and> agent_table ?s8 = [0 \<mapsto> j]"
    using assms by (simp add: init move_def)
  ultimately show ?thesis by blast
qed

section \<open>Properties\<close>



end
