(* ===== verification/Schedules.thy ===== *)
theory Schedules
  imports Main
begin

text \<open>
  Step relations as their schedules. A component whose goroutines interleave is a step
  relation; \<open>act e s\<close> is the step that the event \<open>e\<close> takes from \<open>s\<close>, if it can. A run of the
  relation is then a list of events that can be computed, so that a concrete run is one
  evaluation, and an invariant one case distinction over the events.
\<close>

fun run_schedule :: "('e \<Rightarrow> 's \<Rightarrow> 's option) \<Rightarrow> 'e list \<Rightarrow> 's \<Rightarrow> 's option" where
  "run_schedule act [] s = Some s"
| "run_schedule act (e # es) s =
     (case act e s of None \<Rightarrow> None | Some t \<Rightarrow> run_schedule act es t)"

lemma run_schedule_append:
  "run_schedule act (es @ fs) s = Option.bind (run_schedule act es s) (run_schedule act fs)"
  by (induction es arbitrary: s) (auto split: option.split)

text \<open>A measure that every step decreases bounds the length of every run.\<close>

lemma relpow_measure:
  fixes m :: "'s \<Rightarrow> nat"
  assumes "(step ^^ n) s t" "\<And>s t. step s t \<Longrightarrow> m t < m s"
  shows "n + m t \<le> m s"
  using assms(1)
proof (induction n arbitrary: t)
  case (Suc n)
  then obtain u where u: "(step ^^ n) s u" "step u t" by auto
  from Suc.IH [OF u(1)] assms(2) [OF u(2)] show ?case by linarith
qed simp

locale schedules =
  fixes act :: "'e \<Rightarrow> 's \<Rightarrow> 's option" and step :: "'s \<Rightarrow> 's \<Rightarrow> bool"
  assumes step_iff: "step s t \<longleftrightarrow> (\<exists>e. act e s = Some t)"
begin

lemma run_steps: "run_schedule act es s = Some t \<Longrightarrow> step\<^sup>*\<^sup>* s t"
proof (induction es arbitrary: s)
  case (Cons e es)
  then obtain u where u: "act e s = Some u" "run_schedule act es u = Some t"
    by (auto split: option.splits)
  then have "step s u" using step_iff by blast
  with Cons.IH [OF u(2)] show ?case by (rule_tac converse_rtranclp_into_rtranclp)
qed simp

lemma steps_run: "step\<^sup>*\<^sup>* s t \<Longrightarrow> \<exists>es. run_schedule act es s = Some t"
proof (induction rule: rtranclp_induct)
  case base
  show ?case by (intro exI [of _ "[]"]) simp
next
  case (step t u)
  then obtain es e where "run_schedule act es s = Some t" "act e t = Some u"
    using step_iff by blast
  then have "run_schedule act (es @ [e]) s = Some u" by (simp add: run_schedule_append)
  then show ?case by blast
qed

text \<open>The states a relation reaches are the results of its schedules.\<close>

lemma steps_iff: "step\<^sup>*\<^sup>* s t \<longleftrightarrow> (\<exists>es. run_schedule act es s = Some t)"
  using run_steps steps_run by blast

lemma stuck_iff: "(\<nexists>t. step s t) \<longleftrightarrow> (\<forall>e. act e s = None)"
  using step_iff by (metis not_None_eq)

lemma invariant:
  assumes "step\<^sup>*\<^sup>* s t" "I s" "\<And>e s t. act e s = Some t \<Longrightarrow> I s \<Longrightarrow> I t"
  shows "I t"
  using assms(1,2) by (induction rule: rtranclp_induct) (auto simp: step_iff intro: assms(3))

lemma bounded:
  assumes "(step ^^ n) s t" "\<And>e s t. act e s = Some t \<Longrightarrow> m t < (m s :: nat)"
  shows "n + m t \<le> m s"
  using assms(1) by (rule relpow_measure) (auto simp: step_iff intro: assms(2))

end

end
