(* ===== verification/Refinement.thy ===== *)
theory Refinement
  imports Main
begin

text \<open>
  What it means that a component's step relation implements an abstract one: a function
  \<open>view\<close> from its states to the abstract states under which every step, from a state that
  satisfies the component's invariant, is a step of the abstract relation or leaves the
  view unchanged.
\<close>

locale implements =
  fixes c_step :: "'c \<Rightarrow> 'c \<Rightarrow> bool"
    and a_step :: "'a \<Rightarrow> 'a \<Rightarrow> bool"
    and inv :: "'c \<Rightarrow> bool"
    and view :: "'c \<Rightarrow> 'a"
  assumes inv_step: "c_step s t \<Longrightarrow> inv s \<Longrightarrow> inv t"
    and simulates: "c_step s t \<Longrightarrow> inv s \<Longrightarrow> view t = view s \<or> a_step (view s) (view t)"
begin

lemma run_inv: "c_step\<^sup>*\<^sup>* s t \<Longrightarrow> inv s \<Longrightarrow> inv t"
  by (induction rule: rtranclp_induct) (auto intro: inv_step)

lemma run_simulates: "c_step\<^sup>*\<^sup>* s t \<Longrightarrow> inv s \<Longrightarrow> a_step\<^sup>*\<^sup>* (view s) (view t)"
proof (induction rule: rtranclp_induct)
  case (step t u)
  have "inv t" using run_inv step.hyps(1) step.prems .
  with simulates step.hyps(2) have "view u = view t \<or> a_step (view t) (view u)" .
  with step.IH [OF step.prems] show ?case by (auto intro: rtranclp.rtrancl_into_rtrancl)
qed simp

text \<open>An invariant of the abstract relation holds of every view of a run.\<close>

lemma abstract_invariant:
  assumes "c_step\<^sup>*\<^sup>* s t" "inv s" "J (view s)"
    and keeps: "\<And>a b. a_step a b \<Longrightarrow> J a \<Longrightarrow> J b"
  shows "J (view t)"
  using run_simulates [OF assms(1,2)] assms(3)
  by (induction rule: rtranclp_induct) (auto intro: keeps)

end

end
