(* ===== verification/Channel_End.thy ===== *)
theory Channel_End
  imports Schedules Refinement Session_Lifecycle
begin

text \<open>
  What a client has seen when its session channel is closed. The agent's channel carries
  output, requests and at last its close; the SSH library hands the output to the pipe
  (\<^verbatim>\<open>channels/utils.go\<close>) and the requests to the loop of the agent's requests
  (\<^verbatim>\<open>channels/session.go\<close>), two goroutines that write to the client independently and meet
  on the channel \<^verbatim>\<open>done\<close>. The pipe has been started, the client's connection lasts, and the
  client can be written to.
\<close>

section \<open>The goroutines and what they carry\<close>

datatype agent_sent = Output bytes | AgentRequest request | AgentCloses
datatype client_sees = SeesData bytes | SeesRequest request | SeesEOF | SeesClose

record bridge =
  unsent :: "agent_sent list"
  output_in :: "bytes list"
  requests_in :: "request list"
  agent_closed :: bool
  loop_at :: agent_phase
  copy_at :: copy_phase
  seen :: "client_sees list"

definition start_bridge :: "agent_sent list \<Rightarrow> bridge" where
  "start_bridge ms =
     \<lparr>unsent = ms, output_in = [], requests_in = [], agent_closed = False,
      loop_at = AgentLooping, copy_at = Copying, seen = []\<rparr>"

datatype bridge_event =
    Arrives | CopyOutput | CopyEnds | ForwardRequest | LoopEnds | MeetDone | CloseClient | CloseWrite

text \<open>
  A copy ends at the end of the output, which the close of the agent's channel brings, and
  so does the loop. The client's channel may be closed before the pipe's deferred call tells
  the end of the output, which then says nothing any more.
\<close>

fun bridge_act :: "bridge_event \<Rightarrow> bridge \<Rightarrow> bridge option" where
  "bridge_act Arrives r =
     (if agent_closed r then None
      else (case unsent r of
              [] \<Rightarrow> None
            | Output d # ms \<Rightarrow> Some (r\<lparr>unsent := ms, output_in := output_in r @ [d]\<rparr>)
            | AgentRequest q # ms \<Rightarrow> Some (r\<lparr>unsent := ms, requests_in := requests_in r @ [q]\<rparr>)
            | AgentCloses # ms \<Rightarrow> Some (r\<lparr>unsent := ms, agent_closed := True\<rparr>)))"
| "bridge_act CopyOutput r =
     (case (copy_at r, output_in r) of
        (Copying, d # ds) \<Rightarrow> Some (r\<lparr>output_in := ds, seen := seen r @ [SeesData d]\<rparr>)
      | _ \<Rightarrow> None)"
| "bridge_act CopyEnds r =
     (if copy_at r = Copying \<and> output_in r = [] \<and> agent_closed r
      then Some (r\<lparr>copy_at := SendingDone\<rparr>) else None)"
| "bridge_act ForwardRequest r =
     (case (loop_at r, requests_in r) of
        (AgentLooping, q # qs) \<Rightarrow>
          Some (r\<lparr>requests_in := qs,
            seen := seen r @ map SeesRequest (to_client (fst (agent_loop [Received q (Inr True)])))\<rparr>)
      | _ \<Rightarrow> None)"
| "bridge_act LoopEnds r =
     (if loop_at r = AgentLooping \<and> requests_in r = [] \<and> agent_closed r
      then Some (r\<lparr>loop_at := AwaitingDone\<rparr>) else None)"
| "bridge_act MeetDone r =
     (if copy_at r = SendingDone \<and> loop_at r = AwaitingDone
      then Some (r\<lparr>copy_at := ClosingWrite, loop_at := ClosingClient\<rparr>) else None)"
| "bridge_act CloseClient r =
     (if loop_at r = ClosingClient
      then Some (r\<lparr>loop_at := AgentReturned, seen := seen r @ [SeesClose]\<rparr>) else None)"
| "bridge_act CloseWrite r =
     (if copy_at r = ClosingWrite
      then Some (r\<lparr>copy_at := Copied,
        seen := (if loop_at r = AgentReturned then seen r else seen r @ [SeesEOF])\<rparr>) else None)"

definition bridge_step :: "bridge \<Rightarrow> bridge \<Rightarrow> bool" where
  "bridge_step r r' \<longleftrightarrow> (\<exists>e. bridge_act e r = Some r')"

interpretation br: schedules bridge_act bridge_step
  by unfold_locales (simp add: bridge_step_def)

section \<open>The invariant\<close>

fun outputs :: "agent_sent list \<Rightarrow> bytes list" where
  "outputs [] = []"
| "outputs (Output d # ms) = d # outputs ms"
| "outputs (_ # ms) = outputs ms"

fun sent_requests :: "agent_sent list \<Rightarrow> request list" where
  "sent_requests [] = []"
| "sent_requests (AgentRequest q # ms) = q # sent_requests ms"
| "sent_requests (_ # ms) = sent_requests ms"

fun seen_data :: "client_sees list \<Rightarrow> bytes list" where
  "seen_data [] = []"
| "seen_data (SeesData d # es) = d # seen_data es"
| "seen_data (_ # es) = seen_data es"

fun seen_requests :: "client_sees list \<Rightarrow> request list" where
  "seen_requests [] = []"
| "seen_requests (SeesRequest q # es) = q # seen_requests es"
| "seen_requests (_ # es) = seen_requests es"

lemma sent_append [simp]:
  "outputs (ms @ ns) = outputs ms @ outputs ns"
  "sent_requests (ms @ ns) = sent_requests ms @ sent_requests ns"
  by (induction ms rule: outputs.induct) simp_all

lemma seen_append [simp]:
  "seen_data (es @ fs) = seen_data es @ seen_data fs"
  "seen_requests (es @ fs) = seen_requests es @ seen_requests fs"
  by (induction es rule: seen_data.induct) simp_all

text \<open>
  Nothing is lost or reordered on the way of either kind; whoever has stopped has nothing
  left to do; the client's channel is closed only after both have.
\<close>

definition carried :: "agent_sent list \<Rightarrow> bridge \<Rightarrow> bool" where
  "carried ms r \<longleftrightarrow>
     seen_data (seen r) @ output_in r @ outputs (unsent r) = outputs ms \<and>
     seen_requests (seen r) @ requests_in r @ sent_requests (unsent r) = sent_requests ms \<and>
     (if agent_closed r then unsent r = []
      else \<exists>u. unsent r = u @ [AgentCloses] \<and> AgentCloses \<notin> set u)"

definition stopped_done :: "bridge \<Rightarrow> bool" where
  "stopped_done r \<longleftrightarrow>
     copy_at r \<noteq> NotStarted \<and>
     (copy_at r \<noteq> Copying \<longrightarrow> agent_closed r \<and> output_in r = []) \<and>
     (loop_at r \<noteq> AgentLooping \<longrightarrow> agent_closed r \<and> requests_in r = []) \<and>
     (loop_at r \<in> {ClosingClient, AgentReturned} \<longleftrightarrow> copy_at r \<in> {ClosingWrite, Copied}) \<and>
     (SeesClose \<in> set (seen r) \<longleftrightarrow> loop_at r = AgentReturned) \<and>
     (SeesClose \<in> set (seen r) \<longrightarrow> last (seen r) = SeesClose)"

definition bridge_inv :: "agent_sent list \<Rightarrow> bridge \<Rightarrow> bool" where
  "bridge_inv ms r \<longleftrightarrow> carried ms r \<and> stopped_done r"

lemma bridge_inv_start:
  "AgentCloses \<notin> set ms \<Longrightarrow> bridge_inv (ms @ [AgentCloses]) (start_bridge (ms @ [AgentCloses]))"
  by (auto simp: bridge_inv_def carried_def stopped_done_def start_bridge_def)

lemma carried_act:
  assumes act: "bridge_act e r = Some r'" and inv: "carried ms r"
  shows "carried ms r'"
proof (cases e)
  case Arrives
  then obtain u where u: "unsent r = u @ [AgentCloses]" "AgentCloses \<notin> set u" "\<not> agent_closed r"
    using act inv by (auto simp: carried_def split: if_splits)
  show ?thesis
  proof (cases u)
    case Nil
    then show ?thesis using act inv u Arrives by (simp add: carried_def) fastforce
  next
    case (Cons m v)
    then show ?thesis
      using act inv u Arrives by (cases m) (simp_all add: carried_def, fastforce+)
  qed
next
  case CopyOutput
  then show ?thesis
    using act inv by (cases "copy_at r"; cases "output_in r") (simp_all add: carried_def, force)
next
  case ForwardRequest
  then show ?thesis
    using act inv by (cases "loop_at r"; cases "requests_in r") (simp_all add: carried_def, force)
qed (use act inv in \<open>(clarsimp simp: carried_def split: if_splits)+\<close>)

lemma stopped_act:
  assumes act: "bridge_act e r = Some r'" and inv: "stopped_done r"
  shows "stopped_done r'"
proof (cases e)
  case Arrives
  then show ?thesis
    using act inv
    by (simp add: stopped_done_def split: if_splits list.splits agent_sent.splits) fastforce+
next
  case CopyOutput
  then show ?thesis
    using act inv by (cases "copy_at r"; cases "output_in r") (simp_all add: stopped_done_def, force)
next
  case ForwardRequest
  then show ?thesis
    using act inv by (cases "loop_at r"; cases "requests_in r") (simp_all add: stopped_done_def, force)
next
  case CopyEnds
  then have at: "copy_at r = Copying" "output_in r = []" "agent_closed r"
    and r': "r' = r\<lparr>copy_at := SendingDone\<rparr>"
    using act by (auto split: if_splits)
  show ?thesis using inv at unfolding r' stopped_done_def by simp
next
  case LoopEnds
  then have at: "loop_at r = AgentLooping" "requests_in r = []" "agent_closed r"
    and r': "r' = r\<lparr>loop_at := AwaitingDone\<rparr>"
    using act by (auto split: if_splits)
  show ?thesis using inv at unfolding r' stopped_done_def by simp
next
  case MeetDone
  then have at: "copy_at r = SendingDone" "loop_at r = AwaitingDone"
    and r': "r' = r\<lparr>copy_at := ClosingWrite, loop_at := ClosingClient\<rparr>"
    using act by (auto split: if_splits)
  show ?thesis using inv at unfolding r' stopped_done_def by simp
next
  case CloseClient
  then have at: "loop_at r = ClosingClient"
    and r': "r' = r\<lparr>loop_at := AgentReturned, seen := seen r @ [SeesClose]\<rparr>"
    using act by (auto split: if_splits)
  show ?thesis using inv at unfolding r' stopped_done_def by simp
next
  case CloseWrite
  then have at: "copy_at r = ClosingWrite"
    and r': "r' = r\<lparr>copy_at := Copied,
      seen := (if loop_at r = AgentReturned then seen r else seen r @ [SeesEOF])\<rparr>"
    using act by (auto split: if_splits)
  show ?thesis using inv at unfolding r' stopped_done_def by simp
qed

lemma bridge_inv_run:
  assumes "bridge_step\<^sup>*\<^sup>* (start_bridge (ms @ [AgentCloses])) r" "AgentCloses \<notin> set ms"
  shows "bridge_inv (ms @ [AgentCloses]) r"
  by (rule br.invariant [OF assms(1), where I = "bridge_inv (ms @ [AgentCloses])"])
     (use bridge_inv_start [OF assms(2)] carried_act stopped_act in \<open>auto simp: bridge_inv_def\<close>)

section \<open>The same goroutines in the handler's lifecycle\<close>

text \<open>
  The goroutines here are two of those of \<open>Session_Lifecycle\<close>, with what they carry: every
  step is a step of the handler's goroutines there, or moves data only. \<open>base\<close> gives the
  state of the other goroutines, which do not matter here.
\<close>

definition lifecycle_view :: "channel_run \<Rightarrow> bridge \<Rightarrow> channel_run" where
  "lifecycle_view base r =
     base\<lparr>agent_loop_phase := loop_at r, to_client_copy := copy_at r,
       client_closed := (loop_at r = AgentReturned)\<rparr>"

lemma view_fields:
  "agent_loop_phase (lifecycle_view base r) = loop_at r"
  "to_client_copy (lifecycle_view base r) = copy_at r"
  by (simp_all add: lifecycle_view_def)

lemma bridge_lifecycle:
  assumes act: "bridge_act e r = Some r'"
  shows "lifecycle_view base r' = lifecycle_view base r \<or>
    channel_step (lifecycle_view base r) (lifecycle_view base r')"
proof (cases e)
  case CopyEnds
  then have "lifecycle_view base r' = (lifecycle_view base r)\<lparr>to_client_copy := SendingDone\<rparr>"
    using act by (auto simp: lifecycle_view_def split: if_splits)
  then show ?thesis
    using to_client_ends [of "lifecycle_view base r"] act CopyEnds
    by (auto simp: view_fields split: if_splits)
next
  case LoopEnds
  then have "lifecycle_view base r' = (lifecycle_view base r)\<lparr>agent_loop_phase := AwaitingDone\<rparr>"
    using act by (auto simp: lifecycle_view_def split: if_splits)
  then show ?thesis
    using agent_leaves [of "lifecycle_view base r"] act LoopEnds
    by (auto simp: view_fields split: if_splits)
next
  case MeetDone
  then have "lifecycle_view base r' = (lifecycle_view base r)\<lparr>to_client_copy := ClosingWrite, agent_loop_phase := ClosingClient\<rparr>"
    using act by (auto simp: lifecycle_view_def split: if_splits)
  then show ?thesis
    using done_received [of "lifecycle_view base r"] act MeetDone
    by (auto simp: view_fields split: if_splits)
next
  case CloseClient
  then have "lifecycle_view base r' = (lifecycle_view base r)\<lparr>agent_loop_phase := AgentReturned, client_closed := True\<rparr>"
    using act by (auto simp: lifecycle_view_def split: if_splits)
  then show ?thesis
    using client_closes [of "lifecycle_view base r"] act CloseClient
    by (auto simp: view_fields split: if_splits)
next
  case CloseWrite
  then have "lifecycle_view base r' = (lifecycle_view base r)\<lparr>to_client_copy := Copied\<rparr>"
    using act by (auto simp: lifecycle_view_def split: if_splits)
  then show ?thesis
    using to_client_done [of "lifecycle_view base r"] act CloseWrite
    by (auto simp: view_fields split: if_splits)
qed (use act in \<open>auto simp: lifecycle_view_def split: if_splits list.splits agent_sent.splits
      agent_phase.splits copy_phase.splits\<close>)

interpretation lifecycle: implements bridge_step channel_step "\<lambda>_. True" "lifecycle_view base"
  for base
  by unfold_locales (auto simp: bridge_step_def dest: bridge_lifecycle)

section \<open>Progress\<close>

definition bridge_left :: "bridge \<Rightarrow> nat" where
  "bridge_left r = 2 * length (unsent r) + length (output_in r) + length (requests_in r) +
     agent_left (loop_at r) + copy_left (copy_at r)"

lemma bridge_left_act: "bridge_act e r = Some r' \<Longrightarrow> bridge_left r' < bridge_left r"
  by (cases e) (auto simp: bridge_left_def
      split: if_splits list.splits agent_sent.splits agent_phase.splits copy_phase.splits)

text \<open>As long as the client's channel is open, some goroutine can go on.\<close>

lemma bridge_progress:
  assumes inv: "bridge_inv ms r" and "SeesClose \<notin> set (seen r)"
  shows "\<exists>e r'. bridge_act e r = Some r'"
proof (cases "agent_closed r")
  case False
  then obtain u where "unsent r = u @ [AgentCloses]"
    using inv by (auto simp: bridge_inv_def carried_def)
  then have "bridge_act Arrives r \<noteq> None"
    using False by (cases u) (simp_all split: agent_sent.split)
  then show ?thesis by blast
next
  case closed: True
  show ?thesis
  proof (cases "copy_at r = Copying")
    case True
    then have "bridge_act CopyOutput r \<noteq> None \<or> bridge_act CopyEnds r \<noteq> None"
      using closed by (cases "output_in r") simp_all
    then show ?thesis by blast
  next
    case copy: False
    show ?thesis
    proof (cases "loop_at r")
      case AgentLooping
      then have "bridge_act ForwardRequest r \<noteq> None \<or> bridge_act LoopEnds r \<noteq> None"
        using closed by (cases "requests_in r") simp_all
      then show ?thesis by blast
    next
      case AwaitingDone
      then have "copy_at r = SendingDone"
        using inv copy by (cases "copy_at r") (simp_all add: bridge_inv_def stopped_done_def)
      then have "bridge_act MeetDone r \<noteq> None" using AwaitingDone by simp
      then show ?thesis by blast
    next
      case ClosingClient
      then have "bridge_act CloseClient r \<noteq> None" by simp
      then show ?thesis by blast
    next
      case AgentReturned
      then show ?thesis using inv assms(2) by (simp add: bridge_inv_def stopped_done_def)
    qed
  qed
qed

section \<open>Properties\<close>

text \<open>
  C12. A session channel that the agent ends is closed at the client, and not before everything
  has been passed on. Whatever the agent sends on the channel, every run of the goroutines
  is finite; one that can go no further has closed the client's channel; and once that is
  closed the client has seen all of the output and all of the requests, each in its order,
  and the close is the last it sees. Only the order between output and requests is not
  kept: an exit status can reach the client before output the agent sent earlier.
\<close>

theorem channel_ends_complete:
  assumes "AgentCloses \<notin> set ms" "bridge_step\<^sup>*\<^sup>* (start_bridge (ms @ [AgentCloses])) r"
  shows "(\<forall>n r'. (bridge_step ^^ n) r r' \<longrightarrow> n \<le> 2 * length ms + 8) \<and>
    ((\<nexists>r'. bridge_step r r') \<longrightarrow> SeesClose \<in> set (seen r)) \<and>
    (SeesClose \<in> set (seen r) \<longrightarrow>
       seen_data (seen r) = outputs ms \<and> seen_requests (seen r) = sent_requests ms \<and>
       last (seen r) = SeesClose)"
proof (intro conjI allI impI)
  have inv: "bridge_inv (ms @ [AgentCloses]) r" by (rule bridge_inv_run [OF assms(2,1)])
  obtain k where k: "(bridge_step ^^ k) (start_bridge (ms @ [AgentCloses])) r"
    using assms(2) by (auto simp: rtranclp_power)
  show "n \<le> 2 * length ms + 8" if "(bridge_step ^^ n) r r'" for n r'
    using br.bounded [OF k, of bridge_left] br.bounded [OF that, of bridge_left] bridge_left_act
    by (fastforce simp: bridge_left_def start_bridge_def)
  show "SeesClose \<in> set (seen r)" if "\<nexists>r'. bridge_step r r'"
    using bridge_progress [OF inv] that by (auto simp: bridge_step_def)
  assume "SeesClose \<in> set (seen r)"
  then show "seen_data (seen r) = outputs ms" "seen_requests (seen r) = sent_requests ms"
    "last (seen r) = SeesClose"
    using inv by (auto simp: bridge_inv_def carried_def stopped_done_def)
qed

text \<open>A command that prints once and reports its status, which overtakes what it printed.\<close>

definition exit_request :: request where
  "exit_request = \<lparr>rtype = ''exit-status'', want_reply = False, payload = []\<rparr>"

definition overtaking :: "bridge_event list" where
  "overtaking =
     [Arrives, Arrives, ForwardRequest, Arrives, CopyOutput, CopyEnds, LoopEnds, MeetDone, CloseClient]"

theorem channel_ends_complete_witness:
  "\<exists>r. bridge_step\<^sup>*\<^sup>* (start_bridge [Output ''hi'', AgentRequest exit_request, AgentCloses]) r \<and>
     seen r = [SeesRequest exit_request, SeesData ''hi'', SeesClose] \<and>
     seen_data (seen r) = [''hi'']"
proof -
  let ?ms = "[Output ''hi'', AgentRequest exit_request]"
  obtain r where run: "run_schedule bridge_act overtaking (start_bridge (?ms @ [AgentCloses])) = Some r"
    and seen: "seen r = [SeesRequest exit_request, SeesData ''hi'', SeesClose]"
    by (simp add: overtaking_def start_bridge_def)
  then have steps: "bridge_step\<^sup>*\<^sup>* (start_bridge (?ms @ [AgentCloses])) r" by (intro br.run_steps)
  have "seen_data (seen r) = outputs ?ms"
    using conjunct2 [OF conjunct2 [OF channel_ends_complete [OF _ steps]]] seen by simp
  with steps seen show ?thesis by force
qed

end
