(* ===== verification/Agent_Server.thy ===== *)
theory Agent_Server
  imports Std_Net
begin

unbundle bit_operations_syntax

text \<open>
  The package \<^verbatim>\<open>agent/pkg/agent/server\<close>: the SSH server of the agent. It accepts the server's
  connections, decides what kind of session a request asks for, and keeps the running
  commands and connections so that closing a connection ends its command. A process and a
  connection are known by a number. Its mutex makes each operation on the maps one step.
\<close>

section \<open>Features\<close>

type_synonym Feature = "64 word"

text \<open>The constants count with \<^verbatim>\<open>iota\<close>, shifted by one: it is 1 and 2 at the second and third.\<close>

definition NoFeature :: Feature where "NoFeature = 0"
definition LocalPortForwardFeature :: Feature where "LocalPortForwardFeature = push_bit 1 1"
definition ReversePortForwardFeature :: Feature where "ReversePortForwardFeature = push_bit 1 2"

definition LocalPortForwarding :: "Feature \<Rightarrow> bool" where
  "LocalPortForwarding features \<longleftrightarrow> features AND LocalPortForwardFeature > 0"

definition ReversePortForwarding :: "Feature \<Rightarrow> bool" where
  "ReversePortForwarding features \<longleftrightarrow> features AND ReversePortForwardFeature > 0"

lemmas feature_defs = NoFeature_def LocalPortForwardFeature_def ReversePortForwardFeature_def
  LocalPortForwarding_def ReversePortForwarding_def

section \<open>The server's state\<close>

record Config =
  srv_PrivateKey :: string
  srv_KeepAliveInterval :: "32 word"
  Features :: Feature

record Server =
  cmds :: "string \<rightharpoonup> handle"
  deviceName :: string
  ContainerID :: string
  keepAliveInterval :: "32 word"
  srv_features :: Feature
  Sessions :: "string \<rightharpoonup> handle"

definition NewServer :: "Config \<Rightarrow> Server" where
  "NewServer cfg =
     \<lparr>cmds = Map.empty, deviceName = [], ContainerID = [],
      keepAliveInterval = srv_KeepAliveInterval cfg, srv_features = Features cfg,
      Sessions = Map.empty\<rparr>"

definition SetDeviceName :: "string \<Rightarrow> Server \<Rightarrow> Server" where
  "SetDeviceName name s = s\<lparr>deviceName := name\<rparr>"

definition SetContainerID :: "string \<Rightarrow> Server \<Rightarrow> Server" where
  "SetContainerID i s = s\<lparr>ContainerID := i\<rparr>"

text \<open>The effects of closing: processes killed and connections closed.\<close>

datatype close_effect = Kill handle | CloseConn handle

definition sshConn_Close ::
  "string option \<Rightarrow> handle \<Rightarrow> Server \<Rightarrow> Server \<times> close_effect list" where
  "sshConn_Close session_id c s =
     (case session_id of
        None \<Rightarrow> (s, [CloseConn c])
      | Some i \<Rightarrow>
          (case cmds s i of
             None \<Rightarrow> (s, [CloseConn c])
           | Some v \<Rightarrow> (s\<lparr>cmds := (cmds s)(i := None)\<rparr>, [Kill v, CloseConn c])))"

definition StoreSession :: "string \<Rightarrow> handle \<Rightarrow> Server \<Rightarrow> Server" where
  "StoreSession i c s = s\<lparr>Sessions := (Sessions s)(i \<mapsto> c)\<rparr>"

definition CloseSession :: "string \<Rightarrow> Server \<Rightarrow> Server \<times> close_effect list" where
  "CloseSession i s =
     (case Sessions s i of
        None \<Rightarrow> (s, [])
      | Some c \<Rightarrow> (s\<lparr>Sessions := (Sessions s)(i := None)\<rparr>, [CloseConn c]))"

text \<open>Every password and every key is accepted; the mode's own checks are not asked.\<close>

definition passwordHandler :: "Server \<Rightarrow> string \<Rightarrow> string \<Rightarrow> bool" where
  "passwordHandler s user pass = True"

definition publicKeyHandler :: "Server \<Rightarrow> string \<Rightarrow> 'key \<Rightarrow> bool" where
  "publicKeyHandler s user key = True"

section \<open>What the server is built with\<close>

text \<open>
  The host key: with a key file configured, an error of reading it is only a warning and
  the server is left without a key; otherwise a key is generated, and failing to do so ends
  the process with a message.
\<close>

datatype host_key = KeyOf handle | NoKey go_error | FatalKey string

definition server_host_key ::
  "Config \<Rightarrow> (string \<Rightarrow> go_error + handle) \<Rightarrow> go_error + handle \<Rightarrow> (handle \<Rightarrow> go_error + handle) \<Rightarrow>
   host_key" where
  "server_host_key cfg key_file generated new_signer =
     (if srv_PrivateKey cfg \<noteq> [] then
        (case key_file (srv_PrivateKey cfg) of Inl err \<Rightarrow> NoKey err | Inr k \<Rightarrow> KeyOf k)
      else (case generated of
              Inl _ \<Rightarrow> FatalKey ''failed to generate private key''
            | Inr k \<Rightarrow>
                (case new_signer k of
                   Inl _ \<Rightarrow> FatalKey ''failed to create signer from private key''
                 | Inr signer \<Rightarrow> KeyOf signer)))"

text \<open>The channels and subsystems the server handles.\<close>

definition ChannelSession :: string where "ChannelSession = ''session''"
definition ChannelDirectTcpip :: string where "ChannelDirectTcpip = ''direct-tcpip''"
definition SFTPSubsystemName :: string where "SFTPSubsystemName = ''sftp''"

datatype agent_handler = SessionRequests | ForwardTcpip

definition agent_ChannelHandlers :: "string \<rightharpoonup> agent_handler" where
  "agent_ChannelHandlers =
     [ChannelSession \<mapsto> SessionRequests, ChannelDirectTcpip \<mapsto> ForwardTcpip]"

text \<open>
  A server without a key file always has a key once its constructor returns; with one it
  may be left without any.
\<close>

lemma server_host_key_cases:
  "srv_PrivateKey cfg = [] \<Longrightarrow> server_host_key cfg kf g ns \<noteq> NoKey e"
  "srv_PrivateKey cfg \<noteq> [] \<Longrightarrow> server_host_key cfg kf g ns \<noteq> FatalKey msg"
  "kf (srv_PrivateKey cfg) = Inl e \<Longrightarrow> srv_PrivateKey cfg \<noteq> [] \<Longrightarrow>
   server_host_key cfg kf g ns = NoKey e"
  by (simp_all add: server_host_key_def split: sum.split)

section \<open>Keeping the connection alive\<close>

text \<open>Durations are 64-bit counts of nanoseconds.\<close>

definition Second :: "64 word" where "Second = 1000000000"

definition keepAlive_interval :: "Server \<Rightarrow> 64 word" where
  "keepAlive_interval s =
     (let interval = ucast (keepAliveInterval s) * Second
      in if sint interval \<le> 0 then 30 * Second else interval)"

datatype keepalive_input = Tick | ContextDone

text \<open>
  Each tick sends one global request, of type \<^verbatim>\<open>keepalive\<close> and wanting no reply, on the
  connection when the context has one. The result is the requests and whether the loop has
  ended.
\<close>

fun keepAlive_loop :: "handle option \<Rightarrow> keepalive_input list \<Rightarrow> (handle \<times> string \<times> bool) list \<times> bool" where
  "keepAlive_loop c [] = ([], False)"
| "keepAlive_loop c (ContextDone # _) = ([], True)"
| "keepAlive_loop c (Tick # ins) =
     (let (rs, fin) = keepAlive_loop c ins
      in ((case c of None \<Rightarrow> [] | Some h \<Rightarrow> [(h, ''keepalive'', False)]) @ rs, fin))"

section \<open>The type of a session\<close>

datatype Type =
    SessionTypeShell | SessionTypeHeredoc | SessionTypeExec | SessionTypeSubsystem
  | SessionTypeUnknown

definition RequestTypeShell :: string where "RequestTypeShell = ''shell''"
definition RequestTypeExec :: string where "RequestTypeExec = ''exec''"
definition RequestTypeSubsystem :: string where "RequestTypeSubsystem = ''subsystem''"

lemmas agent_request_type_defs = RequestTypeShell_def RequestTypeExec_def RequestTypeSubsystem_def

text \<open>\<open>request_type\<close> is the value the connection's context holds, if any.\<close>

definition GetSessionType :: "bool \<Rightarrow> string option \<Rightarrow> Type \<times> go_error option" where
  "GetSessionType isPty request_type =
     (case request_type of
        None \<Rightarrow> (SessionTypeUnknown, Some (Errorf ''failed to get request type from session context''))
      | Some r \<Rightarrow>
          if isPty \<and> r = RequestTypeShell then (SessionTypeShell, None)
          else if \<not> isPty \<and> r = RequestTypeShell then (SessionTypeHeredoc, None)
          else if r = RequestTypeExec then (SessionTypeExec, None)
          else if r = RequestTypeSubsystem then (SessionTypeSubsystem, None)
          else (SessionTypeUnknown, None))"

datatype mode_call = Shell | Heredoc | Exec | SFTP

definition session_call :: "Type \<Rightarrow> mode_call" where
  "session_call t =
     (case t of SessionTypeShell \<Rightarrow> Shell | SessionTypeHeredoc \<Rightarrow> Heredoc | _ \<Rightarrow> Exec)"

section \<open>The session handler\<close>

datatype handler_effect =
    ChownDir string int int
  | ChownSocket string int int
  | SetAuthSock string
  | ForwardAgentConnections string
  | Call mode_call
  | CloseListener string

text \<open>
  What the handler gets from outside: whether the client asked for agent forwarding, the
  user's entry (its user and group as text), the listener's socket, and the results of
  changing an owner.
\<close>

record session_env =
  agent_requested :: bool
  user_entry :: "go_error + string \<times> string"
  agent_listener :: "go_error + string"
  chown_dir :: "string \<Rightarrow> int \<Rightarrow> int \<Rightarrow> go_error option"
  chown_socket :: "string \<Rightarrow> int \<Rightarrow> int \<Rightarrow> go_error option"

definition run_session :: "bool \<Rightarrow> string option \<Rightarrow> handler_effect list" where
  "run_session isPty request_type =
     (case GetSessionType isPty request_type of
        (_, Some _) \<Rightarrow> []
      | (t, None) \<Rightarrow> [Call (session_call t)])"

definition sessionHandler ::
  "session_env \<Rightarrow> bool \<Rightarrow> string option \<Rightarrow> handler_effect list" where
  "sessionHandler env isPty request_type =
     (if \<not> agent_requested env then run_session isPty request_type
      else (case user_entry env of
              Inl _ \<Rightarrow> []
            | Inr (u, g) \<Rightarrow>
                (case Atoi u of
                   Inl _ \<Rightarrow> []
                 | Inr uid \<Rightarrow>
                     (case Atoi g of
                        Inl _ \<Rightarrow> []
                      | Inr gid \<Rightarrow>
                          (case agent_listener env of
                             Inl _ \<Rightarrow> []
                           | Inr sock \<Rightarrow>
                               ChownDir sock uid gid #
                               (if chown_dir env sock uid gid \<noteq> None then []
                                else ChownSocket sock uid gid #
                                  (if chown_socket env sock uid gid \<noteq> None then []
                                   else [SetAuthSock sock, ForwardAgentConnections sock] @
                                     run_session isPty request_type)) @
                               [CloseListener sock])))))"

text \<open>A subsystem's handler is chosen by its name; only SFTP has one.\<close>

definition sftpSubsystemHandler :: "handler_effect list" where
  "sftpSubsystemHandler = [Call SFTP]"

definition SubsystemHandlers :: "string \<rightharpoonup> handler_effect list" where
  "SubsystemHandlers = [SFTPSubsystemName \<mapsto> sftpSubsystemHandler]"

section \<open>Properties\<close>

lemma and_exp_iff: "f AND 2 ^ n > (0 :: 64 word) \<longleftrightarrow> bit f n" if "n < 64"
proof -
  have "f AND 2 ^ n = (if bit f n then 2 ^ n else 0)"
    using that by (intro bit_eqI) (auto simp: bit_simps)
  moreover have "(2 ^ n :: 64 word) > 0"
    using that by (simp only: word_neq_0_conv [symmetric] exp_eq_zero_iff) simp
  ultimately show ?thesis by auto
qed

text \<open>
  The two port forwarding features are independent switches: each callback answers
  what its own bit of the configuration says, for all of the features' values. With no
  feature, as the minimal agent's program configures its server, both are refused.
\<close>

theorem features_independent:
  "(LocalPortForwarding f \<longleftrightarrow> bit f 1) \<and> (ReversePortForwarding f \<longleftrightarrow> bit f 2) \<and>
   \<not> LocalPortForwarding NoFeature \<and> \<not> ReversePortForwarding NoFeature \<and>
   LocalPortForwarding LocalPortForwardFeature \<and> \<not> ReversePortForwarding LocalPortForwardFeature"
proof -
  have "ReversePortForwardFeature = 2 ^ 2" "LocalPortForwardFeature = 2 ^ 1"
    by (simp_all add: ReversePortForwardFeature_def LocalPortForwardFeature_def push_bit_eq_mult)
  then have r: "ReversePortForwarding g \<longleftrightarrow> bit g 2" and l: "LocalPortForwarding g \<longleftrightarrow> bit g 1" for g
    using and_exp_iff [of 2 g] and_exp_iff [of 1 g]
    by (simp_all only: ReversePortForwarding_def LocalPortForwarding_def)
  show ?thesis
    unfolding r l by (simp add: NoFeature_def LocalPortForwardFeature_def bit_simps)
qed

text \<open>
  The keepalive interval is exactly the configured number of seconds, and thirty when
  none is configured: the conversion to nanoseconds never overflows its 64 bits.
\<close>

theorem keepAlive_interval_exact:
  "sint (keepAlive_interval s) =
     (if keepAliveInterval s = 0 then 30 else uint (keepAliveInterval s)) * 1000000000"
proof -
  let ?k = "keepAliveInterval s"
  have k: "uint ?k < 4294967296" using uint_lt2p [of ?k] by simp
  have u: "uint (ucast ?k * Second) = uint ?k * 1000000000"
    using k by (simp add: Second_def uint_word_ariths unsigned_ucast_eq take_bit_int_eq_self)
  have "sint (ucast ?k * Second) = uint ?k * 1000000000"
    using k uint_nonnegative [of ?k] unfolding sint_uint u
    by (intro signed_take_bit_int_eq_self) (auto intro: order.trans [of _ 0])
  then show ?thesis
    by (auto simp: keepAlive_interval_def Let_def Second_def uint_0_iff)
qed

text \<open>
  C40. When the client's SSH agent is forwarded, the socket is handed to the session only
  after both it and its directory belong to the logged-in user; whenever a step before that
  fails, no command runs; and a listener that was opened is always closed.
\<close>

theorem agent_socket_owned:
  assumes "agent_requested env" and c: "Call c \<in> set (sessionHandler env isPty rt)"
  shows "\<exists>u g uid gid sock. user_entry env = Inr (u, g) \<and> Atoi u = Inr uid \<and>
     Atoi g = Inr gid \<and> agent_listener env = Inr sock \<and>
     chown_dir env sock uid gid = None \<and> chown_socket env sock uid gid = None \<and>
     sessionHandler env isPty rt = [ChownDir sock uid gid, ChownSocket sock uid gid,
       SetAuthSock sock, ForwardAgentConnections sock, Call c, CloseListener sock]"
proof -
  obtain u g where e: "user_entry env = Inr (u, g)"
    using c assms by (cases "user_entry env") (auto simp: sessionHandler_def)
  obtain uid where uid: "Atoi u = Inr uid"
    using c assms e by (cases "Atoi u") (auto simp: sessionHandler_def)
  obtain gid where gid: "Atoi g = Inr gid"
    using c assms e uid by (cases "Atoi g") (auto simp: sessionHandler_def)
  obtain sock where sock: "agent_listener env = Inr sock"
    using c assms e uid gid by (cases "agent_listener env") (auto simp: sessionHandler_def)
  have d: "chown_dir env sock uid gid = None"
    using c assms e uid gid sock by (auto simp: sessionHandler_def split: if_splits)
  have s: "chown_socket env sock uid gid = None"
    using c assms e uid gid sock d by (auto simp: sessionHandler_def split: if_splits)
  have "run_session isPty rt = [Call c]"
    using c assms e uid gid sock d s
    by (auto simp: sessionHandler_def run_session_def split: prod.splits option.splits)
  then show ?thesis
    using assms e uid gid sock d s by (simp add: sessionHandler_def)
qed

definition demo_session_env :: session_env where
  "demo_session_env =
     \<lparr>agent_requested = True, user_entry = Inr (''1000'', ''100''), agent_listener = Inr ''/tmp/a/s'',
      chown_dir = (\<lambda>_ _ _. None), chown_socket = (\<lambda>_ _ _. None)\<rparr>"

theorem agent_socket_owned_witness:
  "\<exists>u g uid gid. user_entry demo_session_env = Inr (u, g) \<and> Atoi u = Inr uid \<and> Atoi g = Inr gid \<and>
     sessionHandler demo_session_env True (Some ''shell'') = [ChownDir ''/tmp/a/s'' uid gid,
       ChownSocket ''/tmp/a/s'' uid gid, SetAuthSock ''/tmp/a/s'',
       ForwardAgentConnections ''/tmp/a/s'', Call Shell, CloseListener ''/tmp/a/s'']"
proof -
  have "Atoi ''1000'' = Inr 1000" "Atoi ''100'' = Inr 100"
    by (simp_all add: Atoi_def is_digit_def parse_nat_def digit_val_def)
  then have "Call Shell \<in> set (sessionHandler demo_session_env True (Some ''shell''))"
    by (simp add: sessionHandler_def demo_session_env_def run_session_def GetSessionType_def
        RequestTypeShell_def session_call_def)
  from agent_socket_owned [OF _ this] show ?thesis
    by (auto simp: demo_session_env_def)
qed

end
