(* ===== verification/Keepalive_Backlog.thy ===== *)
theory Keepalive_Backlog
  imports Schedules Session_Channel Agent_Server
begin

text \<open>
  Who serves the global requests of the connection to the agent. The server keeps the
  request channel that \<^verbatim>\<open>NewClientConn\<close> returned in the session (\<^verbatim>\<open>Auth\<close> in
  \<^verbatim>\<open>session_minimal.go\<close>), and only the session channels' loops read it
  (\<^verbatim>\<open>channels/session.go\<close>). The SSH library reads the connection in order and puts a global
  request into that channel, which holds at most \<open>cap\<close> of them; when it is full the library
  reads nothing more, as it documents. The agent, for its part, starts a keepalive for every
  session request and ends it only with the connection (\<^verbatim>\<open>server.go\<close>).
\<close>

section \<open>What one loop does with a keepalive\<close>

definition agent_keepalive :: request where
  "agent_keepalive = \<lparr>rtype = ''keepalive'', want_reply = False, payload = []\<rparr>"

text \<open>The loop of a channel whose client can still be sent to goes on, and the loop of one
  that has been closed returns on the first keepalive it gets.\<close>

lemma keepalive_is_requested:
  "(h, ty, w) \<in> set (fst (keepAlive_loop c ins)) \<Longrightarrow>
   \<lparr>rtype = ty, want_reply = w, payload = []\<rparr> = agent_keepalive"
  by (induction c ins rule: keepAlive_loop.induct)
     (auto simp: agent_keepalive_def split: prod.splits option.splits)

lemma loop_on_keepalive:
  "snd (global_loop s [Received agent_keepalive sent]) \<longleftrightarrow> isl sent"
  by (cases sent) (simp_all add: agent_keepalive_def HasPrefix_def KeepAliveRequestTypePrefix_def
      KeepAlive_def)

section \<open>The connection to the agent\<close>

text \<open>
  \<open>wire\<close> holds what the agent has sent and the library has not read: keepalives, data of
  any other channel, and confirmations of session channels the server asked for, whose
  loops start with them. \<open>serving\<close> counts the loops whose client's channel is open and
  \<open>closing\<close> those whose client's channel has been closed and that have not returned.
\<close>

datatype agent_message = Keepalive | ChannelData | Opened

record backlog =
  wire :: "agent_message list"
  queued :: nat
  serving :: nat
  closing :: nat
  delivered :: nat

definition start_backlog :: backlog where
  "start_backlog = \<lparr>wire = [], queued = 0, serving = 0, closing = 0, delivered = 0\<rparr>"

datatype backlog_event =
    SendKeepalive | SendData | AskChannel | ReadMessage | PassOn | CloseChannel | LoopReturns

fun backlog_act :: "nat \<Rightarrow> backlog_event \<Rightarrow> backlog \<Rightarrow> backlog option" where
  "backlog_act cap SendKeepalive r = Some (r\<lparr>wire := wire r @ [Keepalive]\<rparr>)"
| "backlog_act cap SendData r = Some (r\<lparr>wire := wire r @ [ChannelData]\<rparr>)"
| "backlog_act cap AskChannel r = Some (r\<lparr>wire := wire r @ [Opened]\<rparr>)"
| "backlog_act cap ReadMessage r =
     (case wire r of
        [] \<Rightarrow> None
      | Keepalive # w \<Rightarrow>
          if queued r < cap then Some (r\<lparr>wire := w, queued := queued r + 1\<rparr>) else None
      | ChannelData # w \<Rightarrow> Some (r\<lparr>wire := w, delivered := delivered r + 1\<rparr>)
      | Opened # w \<Rightarrow> Some (r\<lparr>wire := w, serving := serving r + 1\<rparr>))"
| "backlog_act cap PassOn r =
     (if 0 < serving r \<and> 0 < queued r then Some (r\<lparr>queued := queued r - 1\<rparr>) else None)"
| "backlog_act cap CloseChannel r =
     (if 0 < serving r then Some (r\<lparr>serving := serving r - 1, closing := closing r + 1\<rparr>) else None)"
| "backlog_act cap LoopReturns r =
     (if 0 < closing r \<and> 0 < queued r
      then Some (r\<lparr>queued := queued r - 1, closing := closing r - 1\<rparr>) else None)"

definition backlog_step :: "nat \<Rightarrow> backlog \<Rightarrow> backlog \<Rightarrow> bool" where
  "backlog_step cap r r' \<longleftrightarrow> (\<exists>e. backlog_act cap e r = Some r')"

interpretation bl: schedules "backlog_act cap" "backlog_step cap" for cap
  by unfold_locales (simp add: backlog_step_def)

section \<open>When the connection can go on\<close>

text \<open>
  The keepalives before the next confirmation, those in the channel included, that nobody
  will take: with no open channel, each remaining loop takes one.
\<close>

definition ahead :: "agent_message list \<Rightarrow> nat" where
  "ahead w = count_list (takeWhile (\<lambda>m. m \<noteq> Opened) w) Keepalive"

definition flows :: "nat \<Rightarrow> backlog \<Rightarrow> bool" where
  "flows cap r \<longleftrightarrow> 0 < serving r \<or> queued r + ahead (wire r) \<le> cap + closing r"

lemma ahead_simps [simp]:
  "ahead [] = 0" "ahead (Keepalive # w) = Suc (ahead w)" "ahead (ChannelData # w) = ahead w"
  "ahead (Opened # w) = 0"
  by (simp_all add: ahead_def)

lemma ahead_append: "ahead w \<le> ahead (w @ v)"
  by (induction w) (simp_all add: ahead_def)

lemma backlog_bound:
  "(backlog_step cap)\<^sup>*\<^sup>* start_backlog r \<Longrightarrow> queued r \<le> cap"
  by (erule bl.invariant)
     (auto simp: start_backlog_def elim!: backlog_act.elims
      split: if_splits list.splits agent_message.splits)

text \<open>Reading the next message, after making room for it, keeps the connection flowing.\<close>

lemma flows_read:
  assumes "flows cap r" "wire r = m # w" "0 < cap" "queued r \<le> cap"
  shows "\<exists>r'. (backlog_step cap)\<^sup>*\<^sup>* r r' \<and> wire r' = w \<and> flows cap r' \<and> queued r' \<le> cap"
proof -
  have one: "?thesis" if "backlog_act cap ReadMessage r = Some r'" "wire r' = w" "flows cap r'"
      "queued r' \<le> cap" for r'
    using bl.run_steps [of cap "[ReadMessage]" r r'] that by auto
  have two: "?thesis" if "backlog_act cap e r = Some u" "backlog_act cap ReadMessage u = Some r'"
      "wire r' = w" "flows cap r'" "queued r' \<le> cap" for e u r'
    using bl.run_steps [of cap "[e, ReadMessage]" r r'] that by auto
  show ?thesis
  proof (cases m)
    case ChannelData
    then show ?thesis
      using assms by (intro one [of "r\<lparr>wire := w, delivered := delivered r + 1\<rparr>"]) (auto simp: flows_def)
  next
    case Opened
    then show ?thesis
      using assms by (intro one [of "r\<lparr>wire := w, serving := serving r + 1\<rparr>"]) (auto simp: flows_def)
  next
    case k: Keepalive
    consider (room) "queued r < cap" | (pass) "queued r = cap" "0 < serving r"
      | (loop) "queued r = cap" "serving r = 0" "0 < closing r"
      using assms k by (fastforce simp: flows_def)
    then show ?thesis
    proof cases
      case room
      then show ?thesis
        using assms k by (intro one [of "r\<lparr>wire := w, queued := queued r + 1\<rparr>"]) (auto simp: flows_def)
    next
      case pass
      then show ?thesis
        using assms k
        by (intro two [of PassOn "r\<lparr>queued := queued r - 1\<rparr>" "r\<lparr>wire := w\<rparr>"]) (auto simp: flows_def)
    next
      case loop
      then show ?thesis
        using assms k
        by (intro two [of LoopReturns "r\<lparr>queued := queued r - 1, closing := closing r - 1\<rparr>"
              "r\<lparr>wire := w, closing := closing r - 1\<rparr>"]) (auto simp: flows_def)
    qed
  qed
qed

lemma flows_drains:
  assumes "flows cap r" "0 < cap" "queued r \<le> cap"
  shows "\<exists>r'. (backlog_step cap)\<^sup>*\<^sup>* r r' \<and> wire r' = []"
  using assms
proof (induction "wire r" arbitrary: r)
  case Nil
  then show ?case by (metis rtranclp.rtrancl_refl)
next
  case (Cons m w)
  obtain u where u: "(backlog_step cap)\<^sup>*\<^sup>* r u" "wire u = w" "flows cap u" "queued u \<le> cap"
    using flows_read [of cap r m w] Cons.prems Cons.hyps(2) by metis
  then obtain r' where "(backlog_step cap)\<^sup>*\<^sup>* u r'" "wire r' = []"
    using Cons.hyps(1) [of u] Cons.prems(2) by blast
  with u(1) show ?case by (meson rtranclp_trans)
qed

section \<open>When it cannot\<close>

text \<open>
  \<open>jammed cap k old r\<close>: of the messages \<open>old\<close> some are still on the wire, among them a
  keepalive that nobody will make room for, and at most \<open>k\<close> data can ever be delivered.
\<close>

definition jammed :: "nat \<Rightarrow> nat \<Rightarrow> backlog \<Rightarrow> bool" where
  "jammed cap k r \<longleftrightarrow> serving r = 0 \<and> queued r \<le> cap \<and>
     (\<exists>old new. wire r = old @ new \<and> cap + closing r < queued r + ahead old \<and>
        delivered r + count_list old ChannelData \<le> k)"

lemma jammedI:
  "wire r = old @ new \<Longrightarrow> serving r = 0 \<Longrightarrow> queued r \<le> cap \<Longrightarrow> cap + closing r < queued r + ahead old \<Longrightarrow>
   delivered r + count_list old ChannelData \<le> k \<Longrightarrow> jammed cap k r"
  unfolding jammed_def by blast

lemma jammed_act: "backlog_act cap e r = Some r' \<Longrightarrow> jammed cap k r \<Longrightarrow> jammed cap k r'"
proof -
  assume act: "backlog_act cap e r = Some r'" and "jammed cap k r"
  then obtain old new where w: "wire r = old @ new"
    "cap + closing r < queued r + ahead old" "delivered r + count_list old ChannelData \<le> k"
    and s: "serving r = 0" "queued r \<le> cap"
    by (auto simp: jammed_def)
  then obtain m old' where old: "old = m # old'" by (cases old) auto
  show "jammed cap k r'"
  proof (cases e)
    case ReadMessage
    then show ?thesis
      using act w s unfolding old
      by (cases m) (auto split: if_splits intro!: jammedI [where old = old' and new = new])
  next
    case LoopReturns
    then show ?thesis
      using act w s by (auto split: if_splits intro!: jammedI [where old = old and new = new])
  next
    case SendKeepalive
    then show ?thesis using act w s by (auto intro!: jammedI [where old = old])
  next
    case SendData
    then show ?thesis using act w s by (auto intro!: jammedI [where old = old])
  next
    case AskChannel
    then show ?thesis using act w s by (auto intro!: jammedI [where old = old])
  qed (use act s in \<open>simp_all split: if_splits\<close>)
qed

lemma jammed_forever:
  assumes "\<not> flows cap r" "queued r \<le> cap" "(backlog_step cap)\<^sup>*\<^sup>* r r'"
  shows "wire r' \<noteq> [] \<and> delivered r' \<le> delivered r + count_list (wire r) ChannelData"
proof -
  let ?k = "delivered r + count_list (wire r) ChannelData"
  have "jammed cap ?k r"
    using assms(1,2) by (intro jammedI [where old = "wire r" and new = "[]"]) (auto simp: flows_def)
  then have "jammed cap ?k r'" 
    by (rule bl.invariant [OF assms(3), where I = "jammed cap ?k"]) (rule jammed_act)
  then show ?thesis by (auto simp: jammed_def)
qed

section \<open>The property\<close>

text \<open>
  C14. The server can stop reading from the agent for ever. In every state that the connection
  reaches, everything the agent has sent can still be read if and only if a session channel
  is open or the keepalives ahead fit into the channel and the loops of closed channels. In
  any other state nothing sent from then on is ever delivered, not even the confirmation
  of a new channel: forwarded connections freeze, and no session can be opened again.
\<close>

theorem keepalives_block_connection:
  assumes "0 < cap" "(backlog_step cap)\<^sup>*\<^sup>* start_backlog r"
  shows "((\<exists>r'. (backlog_step cap)\<^sup>*\<^sup>* r r' \<and> wire r' = []) \<longleftrightarrow>
      0 < serving r \<or> queued r + ahead (wire r) \<le> cap + closing r) \<and>
    (0 < serving r \<or> queued r + ahead (wire r) \<le> cap + closing r \<or>
      (\<forall>r'. (backlog_step cap)\<^sup>*\<^sup>* r r' \<longrightarrow>
         delivered r' \<le> delivered r + count_list (wire r) ChannelData))"
  using flows_drains [of cap r] jammed_forever [of cap r] backlog_bound [OF assms(2)] assms(1)
  unfolding flows_def by blast

text \<open>One session, over before its third keepalive, and data of a forwarded connection.\<close>

definition one_session :: "backlog_event list" where
  "one_session =
     [AskChannel, ReadMessage, CloseChannel, SendKeepalive, SendKeepalive, SendKeepalive, SendData]"

theorem keepalives_block_connection_witness:
  "\<exists>r. (backlog_step 1)\<^sup>*\<^sup>* start_backlog r \<and> wire r \<noteq> [] \<and>
     \<not> (\<exists>r'. (backlog_step 1)\<^sup>*\<^sup>* r r' \<and> wire r' = [])"
proof -
  let ?r = "\<lparr>wire = [Keepalive, Keepalive, Keepalive, ChannelData], queued = 0, serving = 0, closing = 1,
    delivered = 0\<rparr>"
  have "run_schedule (backlog_act 1) one_session start_backlog = Some ?r"
    by (simp add: one_session_def start_backlog_def)
  then have r: "(backlog_step 1)\<^sup>*\<^sup>* start_backlog ?r" by (rule bl.run_steps)
  have "\<not> (\<exists>r'. (backlog_step 1)\<^sup>*\<^sup>* ?r r' \<and> wire r' = [])"
    using conjunct1 [OF keepalives_block_connection [OF _ r]] by simp
  with r show ?thesis by (intro exI [of _ ?r]) simp
qed

end
