(* ===== verification/Host_Mode.thy ===== *)
theory Host_Mode
  imports Agent_Server
begin

text \<open>
  The package \<^verbatim>\<open>modes/host\<close>: the mode in which the agent's server runs on the host itself.
  Here are its authenticator, the commands it builds and the table of running shells that
  it shares with the server; what happens to a command once started is in the theory
  \<^verbatim>\<open>Host_Session\<close>.
\<close>

section \<open>The authenticator\<close>

record Authenticator =
  singleUserPassword :: string

definition NewAuthenticator :: "string \<Rightarrow> Authenticator" where
  "NewAuthenticator pwd = \<lparr>singleUserPassword = pwd\<rparr>"

definition Authenticator_Password :: "Authenticator \<Rightarrow> string \<Rightarrow> string \<Rightarrow> bool" where
  "Authenticator_Password a user pass =
     (if singleUserPassword a \<noteq> [] then pass = singleUserPassword a else True)"

definition Authenticator_PublicKey :: "Authenticator \<Rightarrow> string \<Rightarrow> 'key option \<Rightarrow> bool" where
  "Authenticator_PublicKey a user key = (key \<noteq> None)"

text \<open>
  The interface a server has to its mode's authenticator, as its documentation states the
  single-user mode: with a password configured, only that password lets anyone in.
\<close>

locale authenticator =
  fixes configured :: "'a \<Rightarrow> string"
    and password :: "'a \<Rightarrow> string \<Rightarrow> string \<Rightarrow> bool"
  assumes single_user: "configured a \<noteq> [] \<Longrightarrow> password a user pass \<longleftrightarrow> pass = configured a"
    and multi_user: "configured a = [] \<Longrightarrow> password a user pass"
begin

lemma configured_accepted: "password a user (configured a)"
  by (cases "configured a = []") (simp_all add: single_user multi_user)

lemma refuses_iff: "\<not> password a user pass \<longleftrightarrow> configured a \<noteq> [] \<and> pass \<noteq> configured a"
  by (cases "configured a = []") (simp_all add: single_user multi_user)

end

interpretation host_auth: authenticator singleUserPassword Authenticator_Password
  by unfold_locales (simp_all add: Authenticator_Password_def)

text \<open>
  The password configured for the single-user mode protects nothing: the mode's own
  authenticator refuses exactly the other passwords, but the server's handler, which alone
  is asked, lets in every user with every password.
\<close>

theorem single_user_password_ignored:
  "(\<not> Authenticator_Password (NewAuthenticator pwd) user pass \<longleftrightarrow> pwd \<noteq> [] \<and> pass \<noteq> pwd) \<and>
   passwordHandler s user pass"
  using host_auth.refuses_iff [of "NewAuthenticator pwd" user pass]
  by (simp add: NewAuthenticator_def passwordHandler_def)

section \<open>Commands\<close>

record Cmd =
  cmd_Path :: string
  cmd_Args :: "string list"
  cmd_Env :: "string list"

definition login_shell :: "string \<Rightarrow> string" where
  "login_shell shell = (if shell = [] then ''/bin/bash'' else shell)"

text \<open>
  \<open>shell\<close> is the variable SHELL of the agent's environment, empty when unset. The
  terminal's name is completed and then not used.
\<close>

definition generateShellCmd ::
  "string \<Rightarrow> string list \<Rightarrow> string option \<Rightarrow> string \<Rightarrow> Cmd" where
  "generateShellCmd shell environ auth_sock term =
     (let term' = (if term = [] then ''xterm'' else term);
          envs = (case auth_sock of
                    None \<Rightarrow> environ
                  | Some sock \<Rightarrow> environ @ [''SSH_AUTH_SOCK='' @ sock])
      in \<lparr>cmd_Path = login_shell shell, cmd_Args = [''--login''], cmd_Env = envs\<rparr>)"

definition generateExecCmd :: "string \<Rightarrow> string list \<Rightarrow> string \<Rightarrow> Cmd" where
  "generateExecCmd shell environ raw =
     \<lparr>cmd_Path = login_shell shell, cmd_Args = [''-c'', raw], cmd_Env = environ\<rparr>"

definition sftpCmd :: "string list \<Rightarrow> Cmd" where
  "sftpCmd agent_environ =
     \<lparr>cmd_Path = ''/usr/lib/openssh/sftp-server'', cmd_Args = [], cmd_Env = agent_environ\<rparr>"

text \<open>
  The commands the host mode builds: the login shell gets the client's environment
  and, exactly when an agent's socket was set up, the socket's path; a command is passed to
  the shell as one argument, unchanged; and the terminal's name the client sent reaches
  neither.
\<close>

lemma commands_built:
  "cmd_Env (generateShellCmd shell environ auth_sock trm) =
     environ @ (case auth_sock of None \<Rightarrow> [] | Some sock \<Rightarrow> [''SSH_AUTH_SOCK='' @ sock]) \<and>
   cmd_Args (generateExecCmd shell environ raw) = [''-c'', raw] \<and>
   cmd_Path (generateShellCmd shell environ auth_sock trm) =
     cmd_Path (generateExecCmd shell environ raw) \<and>
   cmd_Path (generateExecCmd shell environ raw) \<noteq> [] \<and>
   generateShellCmd shell environ auth_sock trm = generateShellCmd shell environ auth_sock trm'"
  by (simp add: generateShellCmd_def generateExecCmd_def login_shell_def split: option.split)

section \<open>The table of running shells\<close>

text \<open>
  \<^verbatim>\<open>Shell\<close> enters its command under the session's identifier, which is the connection's: all
  its channels share it. The server and the sessioner use the same table, each under a
  mutex of its own.
\<close>

definition register_shell :: "string \<Rightarrow> handle \<Rightarrow> Server \<Rightarrow> Server" where
  "register_shell i p s = s\<lparr>cmds := (cmds s)(i \<mapsto> p)\<rparr>"

lemma cmds_register: "cmds (register_shell i p s) = (cmds s)(i \<mapsto> p)"
  by (simp add: register_shell_def)

text \<open>
  Closing a connection kills the last shell started on it, closes the connection and
  forgets the shell, and leaves the shells of every other connection alone. A shell started
  on it before that one is forgotten without being killed.
\<close>

theorem close_kills_last_shell:
  assumes "\<forall>j. cmds s j \<noteq> Some p" "p \<noteq> q"
  shows "\<exists>s'. sshConn_Close (Some i) c (register_shell i q (register_shell i p s)) =
       (s', [Kill q, CloseConn c]) \<and>
     cmds s' = (cmds s)(i := None) \<and> p \<notin> ran (cmds s') \<and> Sessions s' = Sessions s"
proof -
  let ?s = "register_shell i q (register_shell i p s)"
  have "sshConn_Close (Some i) c ?s = (?s\<lparr>cmds := (cmds ?s)(i := None)\<rparr>, [Kill q, CloseConn c])"
    by (simp add: sshConn_Close_def register_shell_def)
  then show ?thesis
    using assms by (auto simp: register_shell_def ran_def)
qed

theorem close_kills_last_shell_witness:
  "\<exists>s'. sshConn_Close (Some ''s1'') 9
       (register_shell ''s1'' 2 (register_shell ''s1'' 1
         (NewServer \<lparr>srv_PrivateKey = [], srv_KeepAliveInterval = 30, Features = 0\<rparr>))) =
     (s', [Kill 2, CloseConn 9]) \<and> 1 \<notin> ran (cmds s')"
  using close_kills_last_shell
    [of "NewServer \<lparr>srv_PrivateKey = [], srv_KeepAliveInterval = 30, Features = 0\<rparr>" 1 2 "''s1''" 9]
  by (fastforce simp: NewServer_def)

section \<open>Terminals\<close>

text \<open>
  A command's standard streams, where \<open>None\<close> is one not set, and its process attributes.
  The terminal library gives a terminal's two ends, or an error.
\<close>

record stdio =
  Stdin :: "handle option"
  Stdout :: "handle option"
  Stderr :: "handle option"
  Setsid :: bool
  Setctty :: bool

definition attach_tty :: "handle \<Rightarrow> stdio \<Rightarrow> stdio" where
  "attach_tty tty c =
     c\<lparr>Stdout := (if Stdout c = None then Some tty else Stdout c),
       Stderr := (if Stderr c = None then Some tty else Stderr c),
       Stdin := (if Stdin c = None then Some tty else Stdin c),
       Setsid := True, Setctty := True\<rparr>"

text \<open>
  A window as the SSH library reports it, with sizes that are ints, and the terminal's
  size, which has 16 bits for each; the code converts the one to the other.
\<close>

record Window =
  Width :: int
  Height :: int

record Winsize =
  Rows :: "16 word"
  Cols :: "16 word"
  pixel_X :: "16 word"
  pixel_Y :: "16 word"

definition winsize :: "Window \<Rightarrow> Winsize" where
  "winsize win =
     \<lparr>Rows = word_of_int (Height win), Cols = word_of_int (Width win), pixel_X = 0, pixel_Y = 0\<rparr>"

text \<open>The loop sets the size for every window received; errors are ignored.\<close>

definition resize_loop :: "Window list \<Rightarrow> Winsize list" where
  "resize_loop wins = map winsize wins"

datatype pty_effect =
    StartOn stdio
  | CloseTty handle
  | ClosePtmx handle
  | ResizeLoop handle
  | CopyToSession handle
  | CopyFromSession handle

text \<open>\<open>openPty\<close> starts the command and closes its own copy of the terminal in any case.\<close>

definition openPty ::
  "go_error + handle \<times> handle \<Rightarrow> (stdio \<Rightarrow> go_error option) \<Rightarrow> stdio \<Rightarrow>
   pty_effect list \<times> (go_error + handle \<times> handle)" where
  "openPty opened start c =
     (case opened of
        Inl err \<Rightarrow> ([], Inl err)
      | Inr (ptmx, tty) \<Rightarrow>
          (case start (attach_tty tty c) of
             Some err \<Rightarrow> ([StartOn (attach_tty tty c), ClosePtmx ptmx, CloseTty tty], Inl err)
           | None \<Rightarrow> ([StartOn (attach_tty tty c), CloseTty tty], Inr (ptmx, tty))))"

definition startPty ::
  "go_error + handle \<times> handle \<Rightarrow> (stdio \<Rightarrow> go_error option) \<Rightarrow> stdio \<Rightarrow>
   pty_effect list \<times> (go_error + handle)" where
  "startPty opened start c =
     (case openPty opened start c of
        (es, Inl err) \<Rightarrow> (es, Inl err)
      | (es, Inr (f, tty)) \<Rightarrow> (es @ [ResizeLoop f, CopyToSession f, CopyFromSession f], Inr tty))"

text \<open>\<open>initPty\<close> prepares the command without starting it, and gives both ends to the caller.\<close>

definition initPty ::
  "go_error + handle \<times> handle \<Rightarrow> stdio \<Rightarrow> stdio \<times> pty_effect list \<times> (go_error + handle \<times> handle)" where
  "initPty opened c =
     (case opened of
        Inl err \<Rightarrow> (c, [], Inl err)
      | Inr (pty, tty) \<Rightarrow>
          (attach_tty tty c, [ResizeLoop pty, CopyToSession pty, CopyFromSession pty],
           Inr (pty, tty)))"

text \<open>
  The terminal gets the sizes asked for, in order, as long as they fit into 16 bits, and
  what is left of them modulo 65536 otherwise: a client that asks for 65536 columns gets
  none.
\<close>

lemma resize_exact:
  "map (\<lambda>z. (uint (Cols z), uint (Rows z))) (resize_loop wins) =
     map (\<lambda>w. (Width w mod 65536, Height w mod 65536)) wins"
  by (simp add: resize_loop_def winsize_def uint_word_of_int)

text \<open>
  A command started on a terminal has all three streams and leads a session of its own; its
  copy of the terminal is closed whether it could be started or not, and the controlling
  end exactly when it could not.
\<close>

lemma openPty_streams:
  assumes "openPty (Inr (ptmx, tty)) start c = (es, r)"
  shows "\<exists>c'. StartOn c' \<in> set es \<and> Stdin c' \<noteq> None \<and> Stdout c' \<noteq> None \<and> Stderr c' \<noteq> None \<and>
    Setsid c' \<and> Setctty c' \<and> CloseTty tty \<in> set es \<and> (ClosePtmx ptmx \<in> set es \<longleftrightarrow> isl r)"
  using assms
  by (intro exI [of _ "attach_tty tty c"])
     (auto simp: openPty_def attach_tty_def split: option.splits)

end
