(* ===== verification/Host_Session.thy ===== *)
theory Host_Session
  imports Schedules Host_Mode
begin

text \<open>
  \<^verbatim>\<open>modes/host/sessioner.go\<close>: what the host mode does with a command. Each method of the
  code is the sequence of its actions; the goroutines it starts, the process and the
  connection take their steps in between, in any order.
\<close>

section \<open>The methods as sequences of actions\<close>

text \<open>
  \<open>StartCmd m\<close>: start the process; if that fails, the method returns when \<open>m\<close>, and only
  logs it otherwise. \<open>ArmKiller\<close>: start the goroutine that kills the process when the
  connection has ended. \<open>AwaitOutput\<close>: wait for the goroutine that copies the output.
  \<open>WaitCmd\<close>: wait for the process.
\<close>

datatype action =
    OpenPty | CopyInput | CopyOutput | StartCmd bool | AwaitOutput | ArmKiller | WaitCmd
  | SendExit | ClosePty

text \<open>\<open>conn_ok\<close> says whether the session's context holds its connection.\<close>

definition Exec_plan :: "string list \<Rightarrow> bool \<Rightarrow> bool \<Rightarrow> action list" where
  "Exec_plan command isPty conn_ok =
     (if command = [] then [SendExit]
      else if isPty then
        [OpenPty, StartCmd True] @ (if conn_ok then [ArmKiller, WaitCmd, SendExit] else []) @
        [ClosePty]
      else
        [CopyInput, CopyOutput, StartCmd True, AwaitOutput] @
        (if conn_ok then [ArmKiller, WaitCmd, SendExit] else []))"

definition Heredoc_plan :: "bool \<Rightarrow> action list" where
  "Heredoc_plan conn_ok =
     (if \<not> conn_ok then []
      else [ArmKiller, StartCmd False, CopyInput, CopyOutput, WaitCmd, SendExit])"

text \<open>
  \<^verbatim>\<open>Shell\<close> starts its command on a terminal; when that fails it logs the error and goes on
  with the terminal it did not get, whose name it logs too.
\<close>

definition Sessioner_Shell ::
  "go_error + handle \<Rightarrow> string \<Rightarrow> Server \<Rightarrow> Server go" where
  "Sessioner_Shell started session_id s =
     (case started of
        Inl _ \<Rightarrow> Panic
      | Inr p \<Rightarrow> Val (register_shell session_id p s))"

text \<open>
  \<^verbatim>\<open>SFTP\<close>: the results of making the three pipes, of starting the process and of waiting for
  it. The session is closed in any case.
\<close>

datatype sftp_effect = StartProcess | CopyBoth | CloseSFTP

definition Sessioner_SFTP ::
  "go_error option \<Rightarrow> go_error option \<Rightarrow> go_error option \<Rightarrow> go_error option \<Rightarrow> go_error option \<Rightarrow>
   sftp_effect list \<times> go_error option" where
  "Sessioner_SFTP stdin stdout stderr started waited =
     (if stdin \<noteq> None then ([CloseSFTP], Some (Errorf ''failed to get stdin pipe''))
      else if stdout \<noteq> None then ([CloseSFTP], Some (Errorf ''failed to get stdout pipe''))
      else if stderr \<noteq> None then ([CloseSFTP], Some (Errorf ''failed to get stderr pipe''))
      else if started \<noteq> None then
        ([StartProcess, CloseSFTP], Some (Errorf ''failed to start command''))
      else if waited \<noteq> None then
        ([StartProcess, CopyBoth, CloseSFTP], Some (Errorf ''failed to wait command''))
      else ([StartProcess, CopyBoth, CloseSFTP], None))"

text \<open>Its actions once the pipes have been made, without the scanner of its error output.\<close>

definition SFTP_plan :: "action list" where
  "SFTP_plan = [StartCmd True, CopyInput, CopyOutput, WaitCmd]"

section \<open>A run of a method\<close>

datatype proc_state = NotStarted | StartFailed | Running | Ended
datatype copier_state = NoCopier | CopyingOut | CopyEnded

text \<open>
  \<open>pending\<close>, \<open>delivered\<close> and \<open>lost\<close> count the pieces of the process's output that are not yet
  copied, that have reached the session, and that never will.
\<close>

record run =
  plan :: "action list"
  on_pty :: bool
  proc :: proc_state
  copier :: copier_state
  pending :: nat
  delivered :: nat
  lost :: nat
  killer :: bool
  connected :: bool
  exit_sent :: bool
  crashed :: bool

definition start_method :: "bool \<Rightarrow> action list \<Rightarrow> run" where
  "start_method isPty as =
     \<lparr>plan = as, on_pty = isPty, proc = NotStarted, copier = NoCopier, pending = 0, delivered = 0,
      lost = 0, killer = False, connected = True, exit_sent = False, crashed = False\<rparr>"

definition drop_output :: "run \<Rightarrow> run" where
  "drop_output r = r\<lparr>copier := CopyEnded, lost := lost r + pending r, pending := 0\<rparr>"

text \<open>
  Waiting for a process closes the pipes its output is read from; a terminal stays open
  until the method's deferred call closes it, so its copier sees no end before. Killing a
  process that was never started uses a missing process: the agent panics.
\<close>

inductive method_step :: "run \<Rightarrow> run \<Rightarrow> bool" where
  open_pty: "plan r = OpenPty # as \<Longrightarrow> method_step r (r\<lparr>plan := as, copier := CopyingOut\<rparr>)"
| open_pty_fails: "plan r = OpenPty # as \<Longrightarrow> method_step r (r\<lparr>plan := as\<rparr>)"
| copy_input: "plan r = CopyInput # as \<Longrightarrow> method_step r (r\<lparr>plan := as\<rparr>)"
| copy_output: "plan r = CopyOutput # as \<Longrightarrow>
    method_step r (r\<lparr>plan := as, copier := CopyingOut\<rparr>)"
| start_cmd: "plan r = StartCmd m # as \<Longrightarrow> method_step r (r\<lparr>plan := as, proc := Running\<rparr>)"
| start_fails: "plan r = StartCmd m # as \<Longrightarrow>
    method_step r (r\<lparr>plan := (if m then dropWhile (\<lambda>a. a \<noteq> ClosePty) as else as),
      proc := StartFailed\<rparr>)"
| await_output: "plan r = AwaitOutput # as \<Longrightarrow> copier r = CopyEnded \<Longrightarrow>
    method_step r (r\<lparr>plan := as\<rparr>)"
| arm_killer: "plan r = ArmKiller # as \<Longrightarrow> method_step r (r\<lparr>plan := as, killer := True\<rparr>)"
| wait_cmd: "plan r = WaitCmd # as \<Longrightarrow> proc r \<in> {Ended, StartFailed} \<Longrightarrow>
    method_step r ((if on_pty r then r else drop_output r)\<lparr>plan := as\<rparr>)"
| send_exit: "plan r = SendExit # as \<Longrightarrow> method_step r (r\<lparr>plan := as, exit_sent := True\<rparr>)"
| close_pty: "plan r = ClosePty # as \<Longrightarrow> method_step r ((drop_output r)\<lparr>plan := as\<rparr>)"
| produce: "proc r = Running \<Longrightarrow> method_step r (r\<lparr>pending := pending r + 1\<rparr>)"
| proc_ends: "proc r = Running \<Longrightarrow> method_step r (r\<lparr>proc := Ended\<rparr>)"
| relay: "copier r = CopyingOut \<Longrightarrow> pending r > 0 \<Longrightarrow> connected r \<Longrightarrow>
    method_step r (r\<lparr>pending := pending r - 1, delivered := delivered r + 1\<rparr>)"
| relay_fails: "copier r = CopyingOut \<Longrightarrow> pending r > 0 \<Longrightarrow> \<not> connected r \<Longrightarrow>
    method_step r (drop_output r)"
| output_ends: "copier r = CopyingOut \<Longrightarrow> pending r = 0 \<Longrightarrow> \<not> on_pty r \<Longrightarrow>
    proc r \<in> {Ended, StartFailed} \<Longrightarrow> method_step r (r\<lparr>copier := CopyEnded\<rparr>)"
| disconnect: "connected r \<Longrightarrow> method_step r (r\<lparr>connected := False\<rparr>)"
| kill: "killer r \<Longrightarrow> \<not> connected r \<Longrightarrow> proc r = Running \<Longrightarrow>
    method_step r (r\<lparr>proc := Ended\<rparr>)"
| kill_nothing: "killer r \<Longrightarrow> \<not> connected r \<Longrightarrow> proc r \<in> {NotStarted, StartFailed} \<Longrightarrow>
    method_step r (r\<lparr>crashed := True\<rparr>)"

inductive method_reachable :: "run \<Rightarrow> run \<Rightarrow> bool" for r0 where
  start: "method_reachable r0 r0"
| step: "method_reachable r0 r \<Longrightarrow> method_step r r' \<Longrightarrow> method_reachable r0 r'"

lemma method_path: "method_step\<^sup>*\<^sup>* r r' \<Longrightarrow> method_reachable r0 r \<Longrightarrow> method_reachable r0 r'"
  by (induction rule: rtranclp_induct) (auto intro: method_reachable.step)

section \<open>Runs as schedules\<close>

text \<open>
  The steps as events: the next action of the method succeeds, or fails, and what the
  copying goroutine, the process and the connection do.
\<close>

datatype method_event =
    Next | NextFails | Produces | ProcessEnds | Relays | RelayFails | OutputEnds | Disconnects | Kills

fun next_act :: "action \<Rightarrow> run \<Rightarrow> run option" where
  "next_act OpenPty r = Some (r\<lparr>copier := CopyingOut\<rparr>)"
| "next_act CopyInput r = Some r"
| "next_act CopyOutput r = Some (r\<lparr>copier := CopyingOut\<rparr>)"
| "next_act (StartCmd m) r = Some (r\<lparr>proc := Running\<rparr>)"
| "next_act AwaitOutput r = (if copier r = CopyEnded then Some r else None)"
| "next_act ArmKiller r = Some (r\<lparr>killer := True\<rparr>)"
| "next_act WaitCmd r =
     (if proc r \<in> {Ended, StartFailed} then Some (if on_pty r then r else drop_output r) else None)"
| "next_act SendExit r = Some (r\<lparr>exit_sent := True\<rparr>)"
| "next_act ClosePty r = Some (drop_output r)"

fun method_act :: "method_event \<Rightarrow> run \<Rightarrow> run option" where
  "method_act Next r =
     (case plan r of
        [] \<Rightarrow> None
      | a # as \<Rightarrow> next_act a (r\<lparr>plan := as\<rparr>))"
| "method_act NextFails r =
     (case plan r of
        OpenPty # as \<Rightarrow> Some (r\<lparr>plan := as\<rparr>)
      | StartCmd m # as \<Rightarrow>
          Some (r\<lparr>plan := (if m then dropWhile (\<lambda>a. a \<noteq> ClosePty) as else as), proc := StartFailed\<rparr>)
      | _ \<Rightarrow> None)"
| "method_act Produces r =
     (if proc r = Running then Some (r\<lparr>pending := pending r + 1\<rparr>) else None)"
| "method_act ProcessEnds r = (if proc r = Running then Some (r\<lparr>proc := Ended\<rparr>) else None)"
| "method_act Relays r =
     (if copier r = CopyingOut \<and> pending r > 0 \<and> connected r
      then Some (r\<lparr>pending := pending r - 1, delivered := delivered r + 1\<rparr>) else None)"
| "method_act RelayFails r =
     (if copier r = CopyingOut \<and> pending r > 0 \<and> \<not> connected r then Some (drop_output r) else None)"
| "method_act OutputEnds r =
     (if copier r = CopyingOut \<and> pending r = 0 \<and> \<not> on_pty r \<and> proc r \<in> {Ended, StartFailed}
      then Some (r\<lparr>copier := CopyEnded\<rparr>) else None)"
| "method_act Disconnects r = (if connected r then Some (r\<lparr>connected := False\<rparr>) else None)"
| "method_act Kills r =
     (if \<not> killer r \<or> connected r \<or> proc r = Ended then None
      else Some (if proc r = Running then r\<lparr>proc := Ended\<rparr> else r\<lparr>crashed := True\<rparr>))"

lemma drop_output_plan: "drop_output (r\<lparr>plan := as\<rparr>) = (drop_output r)\<lparr>plan := as\<rparr>"
  by (simp add: drop_output_def)

lemma method_act_step: "method_act e r = Some r' \<Longrightarrow> method_step r r'"
proof (cases e)
  case Next
  assume "method_act e r = Some r'"
  with Next obtain a as where p: "plan r = a # as" "next_act a (r\<lparr>plan := as\<rparr>) = Some r'"
    by (auto split: list.splits)
  show ?thesis
  proof (cases a)
    case WaitCmd
    then show ?thesis
      using p wait_cmd [of r as] by (auto simp: drop_output_plan split: if_splits)
  next
    case ClosePty
    then show ?thesis using p close_pty [of r as] by (simp add: drop_output_plan)
  qed (use p in \<open>auto intro: method_step.intros split: if_splits\<close>)
next
  case Kills
  assume "method_act e r = Some r'"
  with Kills show ?thesis
    by (cases "proc r") (auto intro: method_step.intros split: if_splits)
next
  case NextFails
  assume "method_act e r = Some r'"
  with NextFails show ?thesis
    using start_fails [of r] by (auto intro: open_pty_fails split: list.splits action.splits)
next
  case Produces
  assume "method_act e r = Some r'"
  with Produces show ?thesis using produce [of r] by (auto split: if_splits)
next
  case Relays
  assume "method_act e r = Some r'"
  with Relays show ?thesis using relay [of r] by (auto split: if_splits)
qed (auto intro: method_step.intros split: if_splits)

lemma method_step_act: "method_step r r' \<Longrightarrow> \<exists>e. method_act e r = Some r'"
proof (induction rule: method_step.induct)
  case (open_pty_fails r as)
  then show ?case by (intro exI [of _ NextFails]) simp
next
  case (start_fails r m as)
  then show ?case by (intro exI [of _ NextFails]) simp
next
  case (produce r)
  then show ?case by (intro exI [of _ Produces]) simp
next
  case (proc_ends r)
  then show ?case by (intro exI [of _ ProcessEnds]) simp
next
  case (relay r)
  then show ?case by (intro exI [of _ Relays]) simp
next
  case (relay_fails r)
  then show ?case by (intro exI [of _ RelayFails]) simp
next
  case (output_ends r)
  then show ?case by (intro exI [of _ OutputEnds]) simp
next
  case (disconnect r)
  then show ?case by (intro exI [of _ Disconnects]) simp
next
  case (kill r)
  then show ?case by (intro exI [of _ Kills]) simp
next
  case (kill_nothing r)
  then show ?case by (intro exI [of _ Kills]) auto
qed (intro exI [of _ Next], simp add: drop_output_plan)+

interpretation meth: schedules method_act method_step
  by unfold_locales (use method_act_step method_step_act in blast)

lemma method_scheduled:
  "run_schedule method_act es r0 = Some r \<Longrightarrow> method_reachable r0 r"
  using meth.run_steps method_path method_reachable.start by blast

section \<open>Exec without a terminal\<close>

text \<open>
  How far the method is decides what has happened: before the start no process, up to
  waiting for the output no killer and no exit status, and past it no output is left to
  copy. While the connection holds, nothing is lost.
\<close>

definition exec_stages :: "action list set" where
  "exec_stages =
     {[CopyInput, CopyOutput, StartCmd True, AwaitOutput, ArmKiller, WaitCmd, SendExit],
      [CopyOutput, StartCmd True, AwaitOutput, ArmKiller, WaitCmd, SendExit],
      [StartCmd True, AwaitOutput, ArmKiller, WaitCmd, SendExit],
      [AwaitOutput, ArmKiller, WaitCmd, SendExit], [ArmKiller, WaitCmd, SendExit],
      [WaitCmd, SendExit], [SendExit], []}"

definition exec_inv :: "run \<Rightarrow> bool" where
  "exec_inv r \<longleftrightarrow> plan r \<in> exec_stages \<and> \<not> on_pty r \<and>
     (StartCmd True \<in> set (plan r) \<longrightarrow> proc r = NotStarted \<and> copier r \<noteq> CopyEnded \<and> pending r = 0) \<and>
     (plan r \<noteq> [] \<and> StartCmd True \<notin> set (plan r) \<longrightarrow> proc r \<in> {Running, Ended}) \<and>
     (plan r \<noteq> [] \<and> AwaitOutput \<notin> set (plan r) \<longrightarrow> copier r = CopyEnded) \<and>
     (AwaitOutput \<in> set (plan r) \<longrightarrow> \<not> killer r \<and> \<not> exit_sent r) \<and>
     (killer r \<or> exit_sent r \<longrightarrow> copier r = CopyEnded \<and> proc r \<in> {Running, Ended}) \<and>
     (connected r \<longrightarrow> lost r = 0 \<and>
        (copier r = CopyEnded \<longrightarrow> pending r = 0 \<and> proc r \<in> {Ended, StartFailed})) \<and>
     \<not> crashed r"

lemma exec_inv_step: "method_step r r' \<Longrightarrow> exec_inv r \<Longrightarrow> exec_inv r'"
proof -
  assume step: "method_step r r'" and inv: "exec_inv r"
  have "plan r \<in> exec_stages" using inv by (simp add: exec_inv_def)
  then show "exec_inv r'"
    unfolding exec_stages_def insert_iff empty_iff simp_thms
    by (elim disjE; use step in cases; use inv in \<open>auto simp: exec_inv_def exec_stages_def drop_output_def\<close>)
qed

lemma exec_inv_reachable:
  assumes "method_reachable (start_method False (Exec_plan (c # cs) False True)) r"
  shows "exec_inv r"
  using assms
proof (induction rule: method_reachable.induct)
  case start
  show ?case
    unfolding exec_inv_def exec_stages_def by (simp add: start_method_def Exec_plan_def)
next
  case (step r r')
  then show ?case using exec_inv_step by blast
qed

text \<open>
  A command without a terminal never reports its exit status before its output: while
  the client's connection holds, once the status has been sent every piece of output the
  process produced has been delivered. And such a session never brings the agent down.
\<close>

theorem exec_output_before_status:
  assumes "method_reachable (start_method False (Exec_plan (c # cs) False True)) r"
  shows "\<not> crashed r \<and> (exit_sent r \<and> connected r \<longrightarrow> pending r = 0 \<and> lost r = 0 \<and> proc r = Ended)"
  using exec_inv_reachable [OF assms] by (auto simp: exec_inv_def)

text \<open>The run of a command that prints once and ends.\<close>

definition demo_exec :: run where
  "demo_exec = start_method False (Exec_plan [''ls''] False True)"

lemma demo_exec_run:
  "\<exists>r. method_reachable demo_exec r \<and> exit_sent r \<and> connected r \<and> delivered r = 1"
proof -
  let ?es = "[Next, Next, Next, Produces, Relays, ProcessEnds, OutputEnds, Next, Next, Next, Next]"
  obtain r where "run_schedule method_act ?es demo_exec = Some r" "exit_sent r" "connected r"
    "delivered r = 1"
    by (simp add: demo_exec_def start_method_def Exec_plan_def drop_output_def)
  then show ?thesis using method_scheduled by blast
qed

theorem exec_output_before_status_witness:
  "\<exists>r. method_reachable demo_exec r \<and> exit_sent r \<and> pending r = 0 \<and> lost r = 0"
proof -
  obtain r where r: "method_reachable demo_exec r" "exit_sent r" "connected r"
    using demo_exec_run by blast
  then show ?thesis
    using exec_output_before_status [of "''ls''" "[]" r] unfolding demo_exec_def by blast
qed

text \<open>
  C21. Interrupting the connection does not stop a command that runs without a terminal: as
  long as its output has not ended, the goroutine that would kill it has not even been
  started, because it is started only after the output has been copied. After the
  connection is gone, a process that prints nothing keeps the method waiting, and only the
  process's own steps remain possible.
\<close>

theorem exec_interruption_ignored:
  assumes "method_reachable (start_method False (Exec_plan (c # cs) False True)) r"
    and "copier r = CopyingOut" "proc r = Running"
  shows "\<not> killer r \<and>
    (\<not> connected r \<and> pending r = 0 \<longrightarrow>
       (\<forall>r'. method_step r r' \<longrightarrow> r' = r\<lparr>pending := 1\<rparr> \<or> r' = r\<lparr>proc := Ended\<rparr>))"
proof -
  have inv: "exec_inv r" by (rule exec_inv_reachable [OF assms(1)])
  then have k: "\<not> killer r" using assms(2) by (auto simp: exec_inv_def)
  have "hd (plan r) = AwaitOutput \<and> plan r \<noteq> [] \<or> plan r = []"
    using inv assms(2,3) unfolding exec_inv_def exec_stages_def by auto
  then show ?thesis
    using k assms(2,3) by (auto elim!: method_step.cases)
qed

theorem exec_interruption_ignored_witness:
  "\<exists>r. method_reachable demo_exec r \<and> \<not> connected r \<and> proc r = Running \<and> \<not> killer r"
proof -
  obtain r where run: "run_schedule method_act [Next, Next, Next, Disconnects] demo_exec = Some r"
    and r: "copier r = CopyingOut" "proc r = Running" "\<not> connected r"
    by (simp add: demo_exec_def start_method_def Exec_plan_def)
  then have reach: "method_reachable demo_exec r" by (intro method_scheduled)
  then have "\<not> killer r"
    using exec_interruption_ignored [of "''ls''" "[]" r] r unfolding demo_exec_def by blast
  with reach r show ?thesis by blast
qed

text \<open>
  On a terminal, \<^verbatim>\<open>Exec\<close> waits for nothing but the process: the deferred calls close the
  terminal while the end of the output may still be in it.
\<close>

lemma exec_pty_output_lost:
  "\<exists>r. method_reachable (start_method True (Exec_plan (c # cs) True True)) r \<and>
     plan r = [] \<and> exit_sent r \<and> connected r \<and> lost r > 0"
proof -
  let ?es = "[Next, Next, Produces, ProcessEnds, Next, Next, Next, Next]"
  obtain r where "run_schedule method_act ?es (start_method True (Exec_plan (c # cs) True True)) = Some r"
    "plan r = []" "exit_sent r" "connected r" "lost r > 0"
    by (simp add: start_method_def Exec_plan_def drop_output_def)
  then show ?thesis using method_scheduled by blast
qed

section \<open>Heredoc\<close>

text \<open>
  C23. A heredoc session gives neither guarantee. It can report its exit status with a part
  of the output lost although the client is still connected, since it waits for the process
  without waiting for the output; and when its command cannot be started, the end of the
  connection makes the goroutine that should kill it use a missing process, which brings
  the agent down, as does a shell whose terminal cannot be started.
\<close>

theorem heredoc_unsafe:
  "(\<exists>r. method_reachable (start_method False (Heredoc_plan True)) r \<and>
      connected r \<and> exit_sent r \<and> lost r > 0) \<and>
   (\<exists>r. method_reachable (start_method False (Heredoc_plan True)) r \<and> crashed r) \<and>
   Sessioner_Shell (Inl e) sid srv = Panic"
proof -
  let ?r0 = "start_method False (Heredoc_plan True)"
  obtain r where "run_schedule method_act [Next, Next, Next, Next, Produces, ProcessEnds, Next, Next] ?r0 =
      Some r" "connected r" "exit_sent r" "lost r > 0"
    by (simp add: start_method_def Heredoc_plan_def drop_output_def)
  moreover obtain r' where "run_schedule method_act [Next, NextFails, Disconnects, Kills] ?r0 = Some r'"
    "crashed r'"
    by (simp add: start_method_def Heredoc_plan_def)
  ultimately show ?thesis using method_scheduled by (fastforce simp: Sessioner_Shell_def)
qed

section \<open>SFTP\<close>

text \<open>
  SFTP waits for its process without waiting for the goroutine that copies the output either:
  its last answers can be lost while the client is still connected. It has no goroutine that
  kills, so it never uses a missing process, and a process that could not be started ends it.
\<close>

lemma sftp_output_lost:
  "\<exists>r. method_reachable (start_method False SFTP_plan) r \<and> plan r = [] \<and> connected r \<and> lost r > 0"
proof -
  obtain r where "run_schedule method_act [Next, Next, Next, Produces, ProcessEnds, Next]
      (start_method False SFTP_plan) = Some r" "plan r = []" "connected r" "lost r > 0"
    by (simp add: start_method_def SFTP_plan_def drop_output_def)
  then show ?thesis using method_scheduled by blast
qed

definition sftp_inv :: "run \<Rightarrow> bool" where
  "sftp_inv r \<longleftrightarrow>
     ArmKiller \<notin> set (plan r) \<and> SendExit \<notin> set (plan r) \<and> \<not> killer r \<and> \<not> crashed r \<and> \<not> exit_sent r"

lemma sftp_inv_step: "method_step r r' \<Longrightarrow> sftp_inv r \<Longrightarrow> sftp_inv r'"
  by (induction rule: method_step.induct)
     (auto simp: sftp_inv_def drop_output_def dest: set_dropWhileD)

lemma sftp_never_crashes:
  assumes "method_reachable (start_method False SFTP_plan) r"
  shows "\<not> crashed r \<and> \<not> exit_sent r"
proof -
  have "sftp_inv r"
    using assms
  proof (induction rule: method_reachable.induct)
    case start
    show ?case by (simp add: sftp_inv_def start_method_def SFTP_plan_def)
  next
    case (step r r')
    then show ?case using sftp_inv_step by blast
  qed
  then show ?thesis by (simp add: sftp_inv_def)
qed

end
