(* ===== verification/Exec_End_To_End.thy ===== *)
theory Exec_End_To_End
  imports Host_Session Channel_End
begin

text \<open>
  A command from the agent's process to the client. What the agent's method \<^verbatim>\<open>Exec\<close>
  (\<^verbatim>\<open>modes/host/sessioner.go\<close>) puts into its session, and the SSH library closes when the
  method has returned, is what the server's session channel carries to the client
  (\<^verbatim>\<open>ssh/server/channels\<close>). Both sides run with all their interleavings.
\<close>

section \<open>What a run of the method sends\<close>

text \<open>
  \<open>piece k\<close> is the \<open>k\<close>-th piece of output that the command produces; the copying goroutine
  delivers them in that order.
\<close>

definition emits :: "(nat \<Rightarrow> bytes) \<Rightarrow> method_event \<Rightarrow> run \<Rightarrow> agent_sent list" where
  "emits piece e r =
     (if e = Relays then [Output (piece (delivered r))]
      else if e = Next \<and> plan r \<noteq> [] \<and> hd (plan r) = SendExit then [AgentRequest exit_request]
      else [])"

fun session_trace :: "(nat \<Rightarrow> bytes) \<Rightarrow> method_event list \<Rightarrow> run \<Rightarrow> agent_sent list" where
  "session_trace piece [] r = []"
| "session_trace piece (e # es) r =
     (case method_act e r of
        None \<Rightarrow> []
      | Some r' \<Rightarrow> emits piece e r @ session_trace piece es r')"

lemma trace_open: "AgentCloses \<notin> set (session_trace piece es r)"
  by (induction es arbitrary: r) (auto simp: emits_def split: option.split)

text \<open>Every piece produced is waiting, delivered or lost.\<close>

definition pieces :: "run \<Rightarrow> nat" where
  "pieces r = pending r + delivered r + lost r"

lemma next_act_pieces:
  "next_act a r = Some r' \<Longrightarrow>
   pieces r' = pieces r \<and> delivered r' = delivered r \<and> (exit_sent r' \<longleftrightarrow> exit_sent r \<or> a = SendExit) \<and>
   plan r' = plan r"
  by (cases a) (auto simp: pieces_def drop_output_def split: if_splits)

lemma method_act_pieces:
  "method_act e r = Some r' \<Longrightarrow>
   pieces r' = pieces r + (if e = Produces then 1 else 0) \<and>
   delivered r' = delivered r + (if e = Relays then 1 else 0) \<and>
   (exit_sent r' \<longleftrightarrow> exit_sent r \<or> emits piece e r = [AgentRequest exit_request]) \<and>
   count_list (plan r') SendExit +
     length (sent_requests (emits piece e r)) \<le> count_list (plan r) SendExit"
proof (cases e)
  case Next
  assume "method_act e r = Some r'"
  with Next obtain a as where p: "plan r = a # as" "next_act a (r\<lparr>plan := as\<rparr>) = Some r'"
    by (auto split: list.splits)
  from next_act_pieces [OF p(2)] p(1) Next show ?thesis
    by (auto simp: emits_def pieces_def)
next
  case NextFails
  have drop: "count_list (dropWhile P xs) a \<le> count_list xs a" for P and xs :: "action list" and a
    by (induction xs) auto
  assume "method_act e r = Some r'"
  with NextFails drop show ?thesis
    by (auto simp: emits_def pieces_def le_SucI split: list.splits action.splits)
qed (auto simp: emits_def pieces_def drop_output_def split: if_splits)

lemma trace_sent:
  assumes "run_schedule method_act es r = Some r'"
  shows "pieces r' = pieces r + count_list es Produces \<and>
    delivered r \<le> delivered r' \<and>
    outputs (session_trace piece es r) = map piece [delivered r..<delivered r'] \<and>
    set (sent_requests (session_trace piece es r)) \<subseteq> {exit_request} \<and>
    (exit_sent r' \<longrightarrow> exit_sent r \<or> sent_requests (session_trace piece es r) \<noteq> []) \<and>
    count_list (plan r') SendExit + length (sent_requests (session_trace piece es r))
      \<le> count_list (plan r) SendExit"
  using assms
proof (induction es arbitrary: r)
  case (Cons e es)
  then obtain u where u: "method_act e r = Some u" "run_schedule method_act es u = Some r'"
    by (auto split: option.splits)
  have o: "outputs (emits piece e r) = (if e = Relays then [piece (delivered r)] else [])"
    "set (sent_requests (emits piece e r)) \<subseteq> {exit_request}"
    by (simp_all add: emits_def)
  from Cons.IH [OF u(2)] method_act_pieces [OF u(1), of piece] o u(1) show ?case
    by (auto simp: upt_conv_Cons split: if_splits)
qed simp

section \<open>The command at the client\<close>

abbreviation start_exec :: "string \<Rightarrow> string list \<Rightarrow> run" where
  "start_exec c cs \<equiv> start_method False (Exec_plan (c # cs) False True)"

lemma exec_trace:
  assumes run: "run_schedule method_act es (start_exec c cs) = Some r"
    and sent: "exit_sent r" "connected r"
  shows "outputs (session_trace piece es (start_exec c cs)) = map piece [0..<count_list es Produces]"
    "sent_requests (session_trace piece es (start_exec c cs)) = [exit_request]"
proof -
  let ?qs = "sent_requests (session_trace piece es (start_exec c cs))"
  note t = trace_sent [OF run, of piece]
  have start: "pieces (start_exec c cs) = 0" "delivered (start_exec c cs) = 0"
    "\<not> exit_sent (start_exec c cs)" "count_list (plan (start_exec c cs)) SendExit = 1"
    by (simp_all add: start_method_def pieces_def Exec_plan_def)
  have "exec_inv r" by (rule exec_inv_reachable [OF method_scheduled [OF run]])
  then have "pending r = 0" "lost r = 0" using sent by (auto simp: exec_inv_def)
  then have "delivered r = count_list es Produces" using t start by (simp add: pieces_def)
  then show "outputs (session_trace piece es (start_exec c cs)) = map piece [0..<count_list es Produces]"
    using t start by simp
  have "?qs \<noteq> []" "set ?qs \<subseteq> {exit_request}" "length ?qs \<le> 1" using t start sent by auto
  then show "?qs = [exit_request]" by (cases ?qs) auto
qed


text \<open>A command that prints twice.\<close>

definition demo_schedule :: "method_event list" where
  "demo_schedule =
     [Next, Next, Next, Produces, Relays, Produces, ProcessEnds, Relays, OutputEnds,
      Next, Next, Next, Next]"

definition demo_bridge :: "bridge_event list" where
  "demo_bridge =
     [Arrives, CopyOutput, Arrives, Arrives, ForwardRequest, CopyOutput, Arrives, LoopEnds,
      CopyEnds, MeetDone, CloseWrite, CloseClient]"


end
