(* ===== verification/Pipe.thy ===== *)
theory Pipe
  imports Session_Channel
begin

text \<open>
  \<^verbatim>\<open>ssh/server/channels/utils.go\<close>: the data pipe between a client's and an agent's channel,
  its recorder, and \<^verbatim>\<open>hose\<close>, the same without recording, which the forwarding of an SSH
  agent uses. What a channel yields is the sequence of chunks its reads return and how it
  ends: at end of file (\<open>None\<close>) or with an error.
\<close>

type_synonym source = "bytes list \<times> go_error option"

datatype pipe_effect =
    ToClientData bytes
  | ToAgentData bytes
  | Record bytes
  | DoneSent
  | ClientCloseWrite
  | AgentCloseWrite
  | AgentClose

definition ErrShortWrite :: go_error where "ErrShortWrite = Sentinel ''ErrShortWrite''"

section \<open>The readers and writers of the package io\<close>

text \<open>\<open>MultiReader\<close> reads its second source only when the first has come to its end.\<close>

definition MultiReader :: "source \<Rightarrow> source \<Rightarrow> source" where
  "MultiReader a b = (if snd a = None then (fst a @ fst b, snd b) else a)"

text \<open>
  \<open>Copy\<close> writes every non-empty chunk, the \<open>k\<close>-th with \<open>write k\<close>, until the source ends
  or a write fails.
\<close>

fun copy_loop ::
  "(nat \<Rightarrow> bytes \<Rightarrow> 'e list \<times> go_error option) \<Rightarrow> nat \<Rightarrow> bytes list \<Rightarrow> 'e list \<times> go_error option"
  where
  "copy_loop write k [] = ([], None)"
| "copy_loop write k (c # cs) =
     (if c = [] then copy_loop write (k + 1) cs
      else (case write k c of
              (es, Some err) \<Rightarrow> (es, Some err)
            | (es, None) \<Rightarrow> (let (es', r) = copy_loop write (k + 1) cs in (es @ es', r))))"

definition Copy ::
  "(nat \<Rightarrow> bytes \<Rightarrow> 'e list \<times> go_error option) \<Rightarrow> source \<Rightarrow> 'e list \<times> go_error option" where
  "Copy write src =
     (let (es, r) = copy_loop write 0 (fst src) in (es, if r = None then snd src else r))"

text \<open>
  A channel's write: \<open>raw k c\<close> is the number of bytes taken of the \<open>k\<close>-th chunk and the
  error; taking fewer without an error is a short write.
\<close>

type_synonym raw_write = "nat \<Rightarrow> bytes \<Rightarrow> nat \<times> go_error option"

definition write_chunk ::
  "(bytes \<Rightarrow> 'e) \<Rightarrow> raw_write \<Rightarrow> nat \<Rightarrow> bytes \<Rightarrow> 'e list \<times> go_error option" where
  "write_chunk eff raw k c =
     (case raw k c of
        (n, Some err) \<Rightarrow> ([eff (take n c)], Some err)
      | (n, None) \<Rightarrow>
          if n \<noteq> length c then ([eff (take n c)], Some ErrShortWrite) else ([eff c], None))"

section \<open>Recording\<close>

text \<open>The recorder takes every chunk, and never fails.\<close>

definition Recorder_Write :: "bytes \<Rightarrow> pipe_effect list \<times> nat \<times> go_error option" where
  "Recorder_Write output = ([Record output], length output, None)"

definition records :: "bool \<Rightarrow> bool \<Rightarrow> Session \<Rightarrow> seat \<Rightarrow> bool" where
  "records enterprise cloud s i \<longleftrightarrow> (enterprise \<or> cloud) \<and> Recorded s i = None"

text \<open>\<^verbatim>\<open>io.MultiWriter\<close> over the client and, when there is one, the recorder.\<close>

definition multi_write ::
  "bool \<Rightarrow> raw_write \<Rightarrow> nat \<Rightarrow> bytes \<Rightarrow> pipe_effect list \<times> go_error option" where
  "multi_write recording raw k c =
     (case write_chunk ToClientData raw k c of
        (es, Some err) \<Rightarrow> (es, Some err)
      | (es, None) \<Rightarrow>
          if recording then
            (case Recorder_Write c of
               (es', n, Some err) \<Rightarrow> (es @ es', Some err)
             | (es', n, None) \<Rightarrow> (es @ es', if n \<noteq> length c then Some ErrShortWrite else None))
          else (es, None))"

section \<open>The two directions of the pipe\<close>

text \<open>
  From the agent to the client: whatever the copy ends with, \<^verbatim>\<open>done\<close> is sent and then the
  client's write side is closed.
\<close>

definition pipe_to_client ::
  "bool \<Rightarrow> bool \<Rightarrow> Session \<Rightarrow> seat \<Rightarrow> raw_write \<Rightarrow> source \<Rightarrow> source \<Rightarrow> pipe_effect list" where
  "pipe_to_client enterprise cloud s i raw out err =
     fst (Copy (multi_write (records enterprise cloud s i) raw) (MultiReader out err)) @
     [DoneSent, ClientCloseWrite]"

text \<open>
  From the client to the agent. \<open>parse_version\<close> and \<open>older\<close> are the version package's;
  the code panics when its own constant does not parse.
\<close>

definition agent_close ::
  "(string \<Rightarrow> 'v option) \<Rightarrow> ('v \<Rightarrow> 'v \<Rightarrow> bool) \<Rightarrow> Session \<Rightarrow> pipe_effect go" where
  "agent_close parse_version older s =
     (case parse_version (Device_Version (Device_of s)) of
        None \<Rightarrow> Val AgentCloseWrite
      | Some ver \<Rightarrow>
          (case parse_version ''v0.9.3'' of
             None \<Rightarrow> Panic
           | Some limit \<Rightarrow>
               Val (if older ver limit \<and> Type s = ExecRequestType
                    then AgentClose else AgentCloseWrite)))"

definition pipe_to_agent ::
  "(string \<Rightarrow> 'v option) \<Rightarrow> ('v \<Rightarrow> 'v \<Rightarrow> bool) \<Rightarrow> Session \<Rightarrow> raw_write \<Rightarrow> source \<Rightarrow> source \<Rightarrow>
   pipe_effect list go" where
  "pipe_to_agent parse_version older s raw out err =
     go_bind (agent_close parse_version older s) (\<lambda>close.
       Val (fst (Copy (write_chunk ToAgentData raw) (MultiReader out err)) @ [close]))"

definition hose_to_agent :: "raw_write \<Rightarrow> source \<Rightarrow> source \<Rightarrow> pipe_effect list" where
  "hose_to_agent raw out err =
     fst (Copy (write_chunk ToAgentData raw) (MultiReader out err)) @ [AgentCloseWrite]"

definition hose_to_client :: "raw_write \<Rightarrow> source \<Rightarrow> source \<Rightarrow> pipe_effect list" where
  "hose_to_client raw out err =
     fst (Copy (write_chunk ToClientData raw) (MultiReader out err)) @ [ClientCloseWrite]"

section \<open>What a copy delivers\<close>

text \<open>
  The interface of a copy to what it writes to: \<open>data\<close> reads the bytes delivered off the
  effects; a write delivers a prefix of its chunk, the whole chunk when it succeeds.
\<close>

locale sink =
  fixes put :: "nat \<Rightarrow> bytes \<Rightarrow> 'e list \<times> go_error option"
    and data :: "'e list \<Rightarrow> bytes"
  assumes data_Nil: "data [] = []"
    and data_append: "data (xs @ ys) = data xs @ data ys"
    and write_prefix: "put k c = (es, r) \<Longrightarrow> prefix (data es) c"
    and write_all: "put k c = (es, None) \<Longrightarrow> data es = c"
begin

lemma copy_loop_data:
  "copy_loop put k cs = (es, r) \<Longrightarrow>
   prefix (data es) (concat cs) \<and> (r = None \<longrightarrow> data es = concat cs)"
proof (induction cs arbitrary: k es r)
  case Nil
  then show ?case by (simp add: data_Nil)
next
  case (Cons c cs)
  obtain w1 r1 where w: "put k c = (w1, r1)" by (cases "put k c")
  obtain es2 r2 where l: "copy_loop put (k + 1) cs = (es2, r2)"
    by (cases "copy_loop put (k + 1) cs")
  show ?case
  proof (cases "c = []")
    case True
    with Cons.prems have "copy_loop put (k + 1) cs = (es, r)" by simp
    from Cons.IH [OF this] True show ?thesis by simp
  next
    case False
    show ?thesis
    proof (cases r1)
      case None
      with Cons.prems w l False have es: "es = w1 @ es2" "r = r2" by auto
      moreover have "data w1 = c" using write_all w None by blast
      ultimately show ?thesis using Cons.IH [OF l] by (auto simp: data_append)
    next
      case (Some e)
      with Cons.prems w False have "es = w1" "r = Some e" by auto
      then show ?thesis using write_prefix [OF w] by (auto intro: prefix_prefix)
    qed
  qed
qed

lemma copy_data:
  assumes "Copy put (MultiReader out err) = (es, r)"
  shows "prefix (data es) (concat (fst out) @ concat (fst err)) \<and>
    (r = None \<longrightarrow> snd out = None \<and> snd err = None \<and> data es = concat (fst out) @ concat (fst err))"
proof -
  let ?src = "MultiReader out err"
  obtain r' where l: "copy_loop put 0 (fst ?src) = (es, r')"
    and r: "r = (if r' = None then snd ?src else r')"
    using assms by (auto simp: Copy_def split: prod.splits)
  have "prefix (concat (fst ?src)) (concat (fst out) @ concat (fst err))"
    by (simp add: MultiReader_def)
  with copy_loop_data [OF l] r show ?thesis
    by (auto simp: MultiReader_def split: if_splits intro: prefix_order.trans)
qed

end

fun client_data :: "pipe_effect list \<Rightarrow> bytes" where
  "client_data [] = []"
| "client_data (ToClientData c # es) = c @ client_data es"
| "client_data (_ # es) = client_data es"

fun agent_data :: "pipe_effect list \<Rightarrow> bytes" where
  "agent_data [] = []"
| "agent_data (ToAgentData c # es) = c @ agent_data es"
| "agent_data (_ # es) = agent_data es"

fun recorded :: "pipe_effect list \<Rightarrow> bytes" where
  "recorded [] = []"
| "recorded (Record c # es) = c @ recorded es"
| "recorded (_ # es) = recorded es"

lemma client_data_append [simp]: "client_data (xs @ ys) = client_data xs @ client_data ys"
  by (induction xs rule: client_data.induct) auto

lemma agent_data_append [simp]: "agent_data (xs @ ys) = agent_data xs @ agent_data ys"
  by (induction xs rule: agent_data.induct) auto

lemma recorded_append [simp]: "recorded (xs @ ys) = recorded xs @ recorded ys"
  by (induction xs rule: recorded.induct) auto

lemma write_chunk_cases:
  assumes "write_chunk eff raw k c = (es, r)"
  obtains n where "es = [eff (take n c)]" "r = None \<Longrightarrow> take n c = c"
  using assms by (auto simp: write_chunk_def split: prod.splits option.splits if_splits)

lemma multi_write_cases:
  assumes "multi_write recording raw k c = (es, r)"
  obtains (written) "r = None" "es = ToClientData c # (if recording then [Record c] else [])"
  | (failed) n where "r \<noteq> None" "es = [ToClientData (take n c)]"
proof (cases "write_chunk ToClientData raw k c")
  case (Pair es1 r1)
  show thesis
  proof (cases r1)
    case None
    then have "es1 = [ToClientData c]" using write_chunk_cases [OF Pair] by metis
    then show thesis using assms Pair None written
      by (auto simp: multi_write_def Recorder_Write_def split: if_splits)
  next
    case (Some e)
    then show thesis using assms Pair failed write_chunk_cases [OF Pair]
      by (auto simp: multi_write_def)
  qed
qed

interpretation to_client: sink "multi_write recording raw" client_data for recording raw
  by unfold_locales (auto elim!: multi_write_cases simp: take_is_prefix)

interpretation to_client_unrecorded: sink "write_chunk ToClientData raw" client_data for raw
  by unfold_locales (auto elim!: write_chunk_cases simp: take_is_prefix)

interpretation to_agent: sink "write_chunk ToAgentData raw" agent_data for raw
  by unfold_locales (auto elim!: write_chunk_cases simp: take_is_prefix)

text \<open>What has been recorded has been delivered; when no write failed, they are the same.\<close>

lemma copy_loop_recorded:
  "copy_loop (multi_write recording raw) k cs = (es, r) \<Longrightarrow>
   (\<not> recording \<longrightarrow> recorded es = []) \<and>
   (recording \<longrightarrow> prefix (recorded es) (client_data es) \<and>
      (r = None \<longrightarrow> recorded es = client_data es)) \<and>
   DoneSent \<notin> set es \<and> ClientCloseWrite \<notin> set es"
proof (induction cs arbitrary: k es r)
  case (Cons c cs)
  obtain w1 r1 where w: "multi_write recording raw k c = (w1, r1)"
    by (cases "multi_write recording raw k c")
  obtain es2 r2 where l: "copy_loop (multi_write recording raw) (k + 1) cs = (es2, r2)"
    by (cases "copy_loop (multi_write recording raw) (k + 1) cs")
  show ?case
  proof (cases "c = []")
    case True
    then show ?thesis using Cons by auto
  next
    case False
    from w show ?thesis
    proof (cases rule: multi_write_cases)
      case written
      with Cons.prems w l False have "es = w1 @ es2" "r = r2" by auto
      with Cons.IH [OF l] written show ?thesis by auto
    next
      case (failed n)
      with Cons.prems w False show ?thesis by auto
    qed
  qed
qed simp

section \<open>Properties\<close>

text \<open>
  C18. From the agent to the client, the pipe delivers the agent's output and then its
  errors, in order: always a prefix of it, and all of it when nothing fails; and however it
  ends, it tells the handler once that it is done and closes the client's write side.
\<close>

theorem pipe_delivers_output:
  "\<exists>es r. pipe_to_client enterprise cloud s i raw out err = es @ [DoneSent, ClientCloseWrite] \<and>
     Copy (multi_write (records enterprise cloud s i) raw) (MultiReader out err) = (es, r) \<and>
     prefix (client_data es) (concat (fst out) @ concat (fst err)) \<and>
     (r = None \<longrightarrow> client_data es = concat (fst out) @ concat (fst err)) \<and>
     DoneSent \<notin> set es \<and> ClientCloseWrite \<notin> set es"
proof -
  let ?w = "multi_write (records enterprise cloud s i) raw"
  obtain es r where c: "Copy ?w (MultiReader out err) = (es, r)"
    by (cases "Copy ?w (MultiReader out err)")
  obtain r' where "copy_loop ?w 0 (fst (MultiReader out err)) = (es, r')"
    using c by (auto simp: Copy_def split: prod.splits)
  from copy_loop_recorded [OF this] to_client.copy_data [OF c] c show ?thesis
    by (auto simp: pipe_to_client_def)
qed

theorem pipe_delivers_output_witness:
  "\<exists>es. pipe_to_client True False demo_session 0 (\<lambda>_ c. (length c, None)) ([''out''], None)
       ([''err''], None) = es @ [DoneSent, ClientCloseWrite] \<and> client_data es = ''outerr''"
proof -
  let ?raw = "\<lambda>_ c. (length c, None)"
  have "snd (Copy (multi_write (records True False demo_session 0) ?raw)
      (MultiReader ([''out''], None) ([''err''], None))) = None"
    by (simp add: Copy_def MultiReader_def multi_write_def write_chunk_def Recorder_Write_def)
  then show ?thesis
    using pipe_delivers_output [of True False demo_session 0 ?raw "([''out''], None)"
        "([''err''], None)"] by fastforce
qed

text \<open>
  A session is recorded exactly in the enterprise and cloud editions, and its record
  never holds a byte that did not reach the client: it is a prefix of what was delivered,
  and equal to it unless a write to the client failed.
\<close>

theorem recording_faithful:
  "\<exists>es r. pipe_to_client enterprise cloud s i raw out err = es @ [DoneSent, ClientCloseWrite] \<and>
     copy_loop (multi_write (records enterprise cloud s i) raw) 0 (fst (MultiReader out err)) =
       (es, r) \<and>
     (if enterprise \<or> cloud
      then prefix (recorded es) (client_data es) \<and> (r = None \<longrightarrow> recorded es = client_data es)
      else recorded es = [])"
proof -
  let ?w = "multi_write (records enterprise cloud s i) raw"
  obtain es r where l: "copy_loop ?w 0 (fst (MultiReader out err)) = (es, r)"
    by (cases "copy_loop ?w 0 (fst (MultiReader out err))")
  have "fst (Copy ?w (MultiReader out err)) = es" using l by (simp add: Copy_def)
  with l copy_loop_recorded [OF l] show ?thesis
    by (auto simp: pipe_to_client_def records_def Recorded_def)
qed

theorem recording_faithful_witness:
  "\<exists>es. pipe_to_client True False demo_session 0 (\<lambda>_ c. (length c, None)) ([''out''], None)
       ([''err''], None) = es @ [DoneSent, ClientCloseWrite] \<and> recorded es = client_data es"
proof -
  let ?raw = "\<lambda>_ c. (length c, None)"
  have "snd (copy_loop (multi_write (records True False demo_session 0) ?raw) 0
      (fst (MultiReader ([''out''], None) ([''err''], None)))) = None"
    by (simp add: MultiReader_def multi_write_def write_chunk_def Recorder_Write_def)
  then show ?thesis
    using recording_faithful [of True False demo_session 0 ?raw "([''out''], None)"
        "([''err''], None)"] by fastforce
qed

text \<open>
  Every session of the minimal build carries the version v0.9.3, which is not older
  than itself: when the client's data ends, the agent's channel is always half-closed, so
  its output still arrives; the workaround that closes it at once is never taken.
\<close>

theorem agent_only_half_closed:
  assumes "context_inv ctx" "store ctx a = Some s"
    and parse: "parse_version ''v0.9.3'' = Some v" and irrefl: "\<not> older v v"
  shows "\<exists>es. pipe_to_agent parse_version older s raw out err = Val (es @ [AgentCloseWrite]) \<and>
    AgentClose \<notin> set es \<and> prefix (agent_data es) (concat (fst out) @ concat (fst err))"
proof -
  have "Device_Version (Device_of s) = ''v0.9.3''" using assms(1,2) by (auto simp: inv_defs)
  then have close: "agent_close parse_version older s = Val AgentCloseWrite"
    using parse irrefl by (simp add: agent_close_def)
  obtain es r where c: "Copy (write_chunk ToAgentData raw) (MultiReader out err) = (es, r)"
    by (cases "Copy (write_chunk ToAgentData raw) (MultiReader out err)")
  have "AgentClose \<notin> set es'" if "copy_loop (write_chunk ToAgentData raw) k cs = (es', r')" for k cs es' r'
    using that
    by (induction cs arbitrary: k es' r')
       (auto elim!: write_chunk_cases split: prod.splits option.splits if_splits)
  then have "AgentClose \<notin> set es" using c by (auto simp: Copy_def split: prod.splits)
  with close c to_agent.copy_data [OF c] show ?thesis
    by (simp add: pipe_to_agent_def)
qed

theorem agent_only_half_closed_witness:
  "\<exists>es. pipe_to_agent (\<lambda>v. Some (length v)) (<) demo_session (\<lambda>_ c. (length c, None))
     ([''ls''], None) ([], None) = Val (es @ [AgentCloseWrite])"
proof -
  have "context_inv demo_context"
    by (simp add: inv_defs demo_context_def demo_session_def new_context_def NewTarget_def
        SplitN2_def)
  moreover have "store demo_context 0 = Some demo_session" by (simp add: demo_context_def)
  ultimately show ?thesis
    using agent_only_half_closed [of demo_context 0 demo_session "\<lambda>v. Some (length v)" 6 "(<)"
        "\<lambda>_ c. (length c, None)" "([''ls''], None)" "([], None)"] by auto
qed

end
