(* ===== verification/Agent_Forwarding.thy ===== *)
theory Agent_Forwarding
  imports Pipe
begin

text \<open>
  The goroutine of \<^verbatim>\<open>ssh/server/channels/session.go\<close> that forwards the client's SSH agent:
  for every channel the device's agent opens, it opens one on the client's connection and
  pipes the two with \<^verbatim>\<open>hose\<close>, which returns when both directions have ended. The closing
  of each channel is deferred to the end of the whole goroutine.
\<close>

datatype forward_input =
    NoMoreChannels
  | AcceptFails
  | OpenFails handle
  | BothOpen handle handle

datatype forward_effect =
    ForwardReject string
  | Hose handle handle
  | CloseChannel handle

text \<open>\<open>defers\<close> holds the channels whose closing is deferred, the last one first.\<close>

fun forward_loop :: "handle list \<Rightarrow> forward_input list \<Rightarrow> forward_effect list \<times> bool" where
  "forward_loop defers [] = ([], False)"
| "forward_loop defers (NoMoreChannels # _) =
     (ForwardReject ''channel for agent forwarding done'' # map CloseChannel defers, True)"
| "forward_loop defers (AcceptFails # _) =
     (ForwardReject ''failed to accept the chanel request from agent on auth request'' #
      map CloseChannel defers, True)"
| "forward_loop defers (OpenFails agent # _) =
     (ForwardReject ''failed to open the auth request channel from agent to client'' #
      map CloseChannel (agent # defers), True)"
| "forward_loop defers (BothOpen agent client # ins) =
     (let (es, fin) = forward_loop (client # agent # defers) ins in (Hose agent client # es, fin))"

text \<open>The channels opened, in the order of their opening, and the pairs piped.\<close>

fun opened_channels :: "forward_input list \<Rightarrow> handle list" where
  "opened_channels [] = []"
| "opened_channels (NoMoreChannels # _) = []"
| "opened_channels (AcceptFails # _) = []"
| "opened_channels (OpenFails a # _) = [a]"
| "opened_channels (BothOpen a c # ins) = a # c # opened_channels ins"

fun piped_pairs :: "forward_input list \<Rightarrow> (handle \<times> handle) list" where
  "piped_pairs (BothOpen a c # ins) = (a, c) # piped_pairs ins"
| "piped_pairs _ = []"

fun closes :: "forward_effect list \<Rightarrow> handle list" where
  "closes [] = []"
| "closes (CloseChannel h # es) = h # closes es"
| "closes (_ # es) = closes es"

fun hoses :: "forward_effect list \<Rightarrow> (handle \<times> handle) list" where
  "hoses [] = []"
| "hoses (Hose a c # es) = (a, c) # hoses es"
| "hoses (_ # es) = hoses es"

lemma closes_map [simp]: "closes (map CloseChannel hs) = hs"
  by (induction hs) auto

lemma hoses_map [simp]: "hoses (map CloseChannel hs) = []"
  by (induction hs) auto

lemma forward_loop_effects:
  "closes (fst (forward_loop defers ins)) =
     (if snd (forward_loop defers ins) then rev (opened_channels ins) @ defers else []) \<and>
   hoses (fst (forward_loop defers ins)) = piped_pairs ins"
  by (induction defers ins rule: forward_loop.induct) (auto split: prod.splits)

text \<open>
  Forwarding the client's SSH agent pipes every pair of channels that could be opened,
  in order. When the goroutine ends, for whatever reason, it has closed exactly the
  channels it opened, the last one first; and before it ends it closes none of them, also
  those whose pipe has long finished.
\<close>

theorem forwarding_closes_all:
  "closes (fst (forward_loop [] ins)) =
     (if snd (forward_loop [] ins) then rev (opened_channels ins) else []) \<and>
   hoses (fst (forward_loop [] ins)) = piped_pairs ins"
  using forward_loop_effects [of "[]" ins] by simp

end
