(* ===== verification/Direct_TCPIP.thy ===== *)
theory Direct_TCPIP
  imports Pipe
begin

text \<open>
  \<^verbatim>\<open>ssh/server/channels/tcpip.go\<close>: the handler of a client's direct-tcpip channel, used for
  local and dynamic port forwarding. It dials the wanted address through the SSH client on
  the agent and copies both directions until both have ended.
\<close>

record channelData =
  DestAddr :: string
  DestPort :: "32 word"
  OriginAddr :: string
  OriginPort :: "32 word"

datatype reject_reason = Prohibited | ConnectionFailed

text \<open>A rejection's message ends with the text of the error, when there is one.\<close>

datatype tcpip_effect =
    RejectOpen reject_reason string "go_error option"
  | DialAgent string
  | AcceptClient
  | CopiedToClient "pipe_effect list"
  | CopiedToAgent "pipe_effect list"
  | CloseClientChannel
  | CloseAgentConn

text \<open>
  \<open>unmarshal\<close> and \<open>dial\<close> are the SSH library's: \<open>dial\<close> gets the client on the agent, which
  the handler does not check. \<open>client_io\<close> and \<open>agent_io\<close> are the writes and the data of the
  two ends. The closings are deferred calls.
\<close>

definition tcpip_pipe :: "raw_write \<times> source \<Rightarrow> raw_write \<times> source \<Rightarrow> tcpip_effect list" where
  "tcpip_pipe client_io agent_io =
     [CopiedToClient (fst (Copy (write_chunk ToClientData (fst client_io)) (snd agent_io))),
      CopiedToAgent (fst (Copy (write_chunk ToAgentData (fst agent_io)) (snd client_io)))]"

definition DefaultDirectTCPIPHandler ::
  "(bytes \<Rightarrow> go_error + channelData) \<Rightarrow> (Context \<Rightarrow> string \<Rightarrow> 32 word \<Rightarrow> bool) option \<Rightarrow>
   (handle option \<Rightarrow> string \<Rightarrow> (go_error + handle) go) \<Rightarrow> go_error + handle \<Rightarrow>
   raw_write \<times> source \<Rightarrow> raw_write \<times> source \<Rightarrow> Context \<Rightarrow> bytes \<Rightarrow>
   (Context \<times> tcpip_effect list) go" where
  "DefaultDirectTCPIPHandler unmarshal callback dial accepted client_io agent_io ctx0 extra =
     (let (ctx, (sess, _)) = ObtainSession ctx0
      in go_bind (deref ctx sess) (\<lambda>s.
        case unmarshal extra of
          Inl err \<Rightarrow>
            Val (ctx, [RejectOpen ConnectionFailed ''failed to parse forward data: '' (Some err)])
        | Inr data \<Rightarrow>
            if (case callback of None \<Rightarrow> True | Some f \<Rightarrow> \<not> f ctx (DestAddr data) (DestPort data))
            then Val (ctx, [RejectOpen Prohibited ''port forwarding is disabled'' None])
            else
              let dest = JoinHostPort (DestAddr data) (FormatInt (uint (DestPort data)))
              in go_bind (dial (Client (Agent_of s)) dest) (\<lambda>agent.
                case agent of
                  Inl err \<Rightarrow>
                    Val (ctx, [DialAgent dest, RejectOpen ConnectionFailed
                      ''failed dialing the agent to host and port: '' (Some err)])
                | Inr a \<Rightarrow>
                    (case accepted of
                       Inl err \<Rightarrow>
                         Val (ctx, [DialAgent dest, RejectOpen ConnectionFailed
                           ''failed accepting the channel: '' (Some err), CloseAgentConn])
                     | Inr c \<Rightarrow>
                         Val (ctx, [DialAgent dest, AcceptClient] @ tcpip_pipe client_io agent_io @
                           [CloseClientChannel, CloseAgentConn])))))"

lemma direct_tcpip_session:
  assumes "snap ctx = Some \<lparr>snap_session = Some a, snap_state = st\<rparr>" "store ctx a = Some s"
    and "unmarshal extra = Inr d"
  shows "DefaultDirectTCPIPHandler unmarshal (Some LocalPortForwardingCallback) dial accepted client_io agent_io ctx extra =
    (let dest = JoinHostPort (DestAddr d) (FormatInt (uint (DestPort d)))
     in go_bind (dial (Client (Agent_of s)) dest) (\<lambda>agent.
       Val (ctx, DialAgent dest #
         (case agent of
            Inl err \<Rightarrow> [RejectOpen ConnectionFailed
              ''failed dialing the agent to host and port: '' (Some err)]
          | Inr ag \<Rightarrow>
              (case accepted of
                 Inl err \<Rightarrow> [RejectOpen ConnectionFailed ''failed accepting the channel: ''
                   (Some err), CloseAgentConn]
               | Inr c \<Rightarrow> AcceptClient # tcpip_pipe client_io agent_io @
                   [CloseClientChannel, CloseAgentConn])))))"
  using assms
  by (simp add: DefaultDirectTCPIPHandler_def ObtainSession_def getSnapshot_def retrieve_def
      deref_def LocalPortForwardingCallback_def Let_def)
     (rule arg_cong [where f = "go_bind _"], rule ext, simp split: sum.split)

text \<open>The address dialled names the wanted host and port and nothing else.\<close>

lemma dest_roundtrip:
  assumes "plain_host h"
  shows "\<exists>p. SplitHostPort (JoinHostPort h (FormatInt (uint (port :: 32 word)))) = Inr (h, p) \<and>
    Atoi p = Inr (uint port)"
proof -
  have "FormatInt (uint port) = format_nat (unat port)" by (simp add: FormatInt_def)
  then have "SplitHostPort (JoinHostPort h (FormatInt (uint port))) =
      Inr (h, FormatInt (uint port))"
    using assms by (simp add: SplitHostPort_Join plain_port_format_nat)
  moreover have "Atoi (FormatInt (uint port)) = Inr (uint port)"
    using uint_bounded [of port] uint_nonnegative [of port]
    by (intro Atoi_FormatInt) (simp_all add: order.trans [of _ 0])
  ultimately show ?thesis by blast
qed



text \<open>
  C20. A public key is accepted also when the agent refuses the login it makes; the session
  then has no SSH client on the agent, and the direct-tcpip handler, which does not look,
  panics as soon as it dials: the session channel's handler only rejects there. The library
  is relied on for one thing: dialling through a missing client panics.
\<close>

theorem direct_tcpip_without_client_panics:
  assumes sn: "snap ctx = Some \<lparr>snap_session = Some a, snap_state = StateEvaluated\<rparr>"
    and s: "store ctx a = Some s" "Conn (Agent_of s) = Some c" "Client (Agent_of s) = None"
    and refused: "hs c \<lparr>cfg_User = Username (Target_of s), cfg_Auth = [''any'']\<rparr> = Inl e"
    and d: "unmarshal extra = Inr d"
    and nil: "\<And>dest. dial None dest = Panic"
  shows "\<exists>ctx'. PublicKeyHandler tdial hs ctx = Val (ctx', True) \<and>
     DefaultDirectTCPIPHandler unmarshal (Some LocalPortForwardingCallback) dial accepted
       client_io agent_io ctx' extra = Panic \<and>
     returns (open_session_channels accepted open_channel ctx')"
proof -
  let ?s' = "s\<lparr>Agent_of := (Agent_of s)\<lparr>Conn := None\<rparr>\<rparr>"
  let ?ctx' = "upd_session a (\<lambda>s. s\<lparr>Agent_of := (Agent_of s)\<lparr>Conn := None\<rparr>\<rparr>) ctx"
  have sn': "snap ?ctx' = Some \<lparr>snap_session = Some a, snap_state = StateEvaluated\<rparr>"
    and s': "store ?ctx' a = Some ?s'" and c': "Client (Agent_of ?s') = None"
    using sn s by simp_all
  have "Session_Auth tdial hs ctx (AuthPassword ''any'') = Val (?ctx', Some e)"
    using sn s refused by (simp add: Session_Auth_evaluated AuthPassword_def auth_connect_simps)
  then have "PublicKeyHandler tdial hs ctx = Val (?ctx', True)"
    using sn by (simp add: PublicKeyHandler_def ObtainSession_def getSnapshot_def retrieve_def
        less_State_def)
  moreover have "DefaultDirectTCPIPHandler unmarshal (Some LocalPortForwardingCallback) dial accepted
       client_io agent_io ?ctx' extra = Panic"
    using direct_tcpip_session [where unmarshal = unmarshal and extra = extra and dial = dial and accepted = accepted and client_io = client_io and agent_io = agent_io, OF sn' s' d] nil c'
    by (simp add: Let_def)
  moreover obtain s1 i where n: "NewSeat ?s' = (s1, i)" by (cases "NewSeat ?s'")
  have "returns (open_session_channels accepted open_channel ?ctx')"
    unfolding open_session_channels_session [OF sn' s' n]
    by (simp split: prod.split sum.split)
  ultimately show ?thesis by blast
qed

theorem direct_tcpip_without_client_panics_witness:
  "\<exists>ctx'. PublicKeyHandler demo_dial (\<lambda>_ _. Inl (External ''refused'')) demo_context =
       Val (ctx', True) \<and>
     DefaultDirectTCPIPHandler
       (\<lambda>_. Inr \<lparr>DestAddr = ''localhost'', DestPort = 80, OriginAddr = ''127.0.0.1'', OriginPort = 4000\<rparr>)
       (Some LocalPortForwardingCallback)
       (\<lambda>cl _. case cl of None \<Rightarrow> Panic | Some h \<Rightarrow> Val (Inr h)) (Inr 4)
       (\<lambda>_ c. (length c, None), ([], None)) (\<lambda>_ c. (length c, None), ([], None)) ctx' [] = Panic"
proof -
  let ?c = "\<lparr>stream = 7, conn_target = ''default:dev''\<rparr>"
  have sn: "snap demo_context = Some \<lparr>snap_session = Some 0, snap_state = StateEvaluated\<rparr>"
    and s: "store demo_context 0 = Some demo_session"
    and c: "Conn (Agent_of demo_session) = Some ?c" "Client (Agent_of demo_session) = None"
    by (simp_all add: demo_context_def demo_session_def)
  show ?thesis
    using direct_tcpip_without_client_panics [OF sn s c, of "\<lambda>_ _. Inl (External ''refused'')"
        "External ''refused''"
        "\<lambda>_. Inr \<lparr>DestAddr = ''localhost'', DestPort = 80, OriginAddr = ''127.0.0.1'', OriginPort = 4000\<rparr>"
        "[]" _ "\<lambda>cl _. case cl of None \<Rightarrow> Panic | Some h \<Rightarrow> Val (Inr h)" demo_dial "Inr 4"]
    by fastforce
qed

section \<open>How a forwarded connection ends\<close>

text \<open>
  The two copies of the handler and what ends them. A copy ends when its source does, and
  tells nobody: the other end is closed only by the deferred calls, after both copies. An
  end that waits, as a client does that reads an answer until it is complete, sends nothing
  and ends its own data only once it is closed. A copy whose write fails is left out: it
  needs data of an end that is still sending, and an end that waits sends none.
\<close>

record forwarding =
  client_ended :: bool
  agent_ended :: bool
  copied_to_agent :: bool
  copied_to_client :: bool
  ends_closed :: bool

definition start_forwarding :: forwarding where
  "start_forwarding =
     \<lparr>client_ended = False, agent_ended = False, copied_to_agent = False,
      copied_to_client = False, ends_closed = False\<rparr>"

inductive forwarding_step :: "bool \<Rightarrow> bool \<Rightarrow> forwarding \<Rightarrow> forwarding \<Rightarrow> bool"
  for client_waits agent_waits where
  client_ends: "\<not> client_ended f \<Longrightarrow> client_waits \<longrightarrow> ends_closed f \<Longrightarrow>
    forwarding_step client_waits agent_waits f (f\<lparr>client_ended := True\<rparr>)"
| agent_ends: "\<not> agent_ended f \<Longrightarrow> agent_waits \<longrightarrow> ends_closed f \<Longrightarrow>
    forwarding_step client_waits agent_waits f (f\<lparr>agent_ended := True\<rparr>)"
| to_agent_done: "client_ended f \<Longrightarrow>
    forwarding_step client_waits agent_waits f (f\<lparr>copied_to_agent := True\<rparr>)"
| to_client_done: "agent_ended f \<Longrightarrow>
    forwarding_step client_waits agent_waits f (f\<lparr>copied_to_client := True\<rparr>)"
| close_ends: "copied_to_agent f \<Longrightarrow> copied_to_client f \<Longrightarrow>
    forwarding_step client_waits agent_waits f (f\<lparr>ends_closed := True\<rparr>)"

text \<open>Nothing happens to an end that waits before both have been closed.\<close>

definition forwarding_inv :: "bool \<Rightarrow> bool \<Rightarrow> forwarding \<Rightarrow> bool" where
  "forwarding_inv cw aw f \<longleftrightarrow>
     (cw \<longrightarrow> \<not> client_ended f) \<and> (aw \<longrightarrow> \<not> agent_ended f) \<and>
     (copied_to_agent f \<longrightarrow> client_ended f) \<and> (copied_to_client f \<longrightarrow> agent_ended f) \<and>
     (ends_closed f \<longrightarrow> copied_to_agent f \<and> copied_to_client f)"

lemma forwarding_inv_step:
  "forwarding_step cw aw f g \<Longrightarrow> forwarding_inv cw aw f \<Longrightarrow> forwarding_inv cw aw g"
  by (induction rule: forwarding_step.induct) (auto simp: forwarding_inv_def)

lemma forwarding_inv_run:
  "(forwarding_step cw aw)\<^sup>*\<^sup>* start_forwarding f \<Longrightarrow> forwarding_inv cw aw f"
  by (induction rule: rtranclp_induct)
     (auto simp: forwarding_inv_def start_forwarding_def dest: forwarding_inv_step)

lemma forwarding_can_close: "\<exists>g. (forwarding_step False False)\<^sup>*\<^sup>* f g \<and> ends_closed g"
proof -
  let ?step = "forwarding_step False False"
  have c: "?step\<^sup>*\<^sup>* f (f\<lparr>client_ended := True\<rparr>)" for f
    using client_ends [of f False False] by (cases f; cases "client_ended f") auto
  have a: "?step\<^sup>*\<^sup>* f (f\<lparr>agent_ended := True\<rparr>)" for f
    using agent_ends [of f False False] by (cases f; cases "agent_ended f") auto
  let ?g = "f\<lparr>client_ended := True, agent_ended := True\<rparr>"
  have g: "?step\<^sup>*\<^sup>* f ?g"
    using rtranclp_trans [OF c [of f] a] by simp
  let ?h = "?g\<lparr>copied_to_agent := True\<rparr>"
  let ?k = "?h\<lparr>copied_to_client := True\<rparr>"
  have "?step ?g ?h" by (intro to_agent_done) simp
  moreover have "?step ?h ?k" by (intro to_client_done) simp
  moreover have "?step ?k (?k\<lparr>ends_closed := True\<rparr>)" by (intro close_ends) simp_all
  ultimately have "?step\<^sup>*\<^sup>* f (?k\<lparr>ends_closed := True\<rparr>)"
    using g by (meson rtranclp.rtrancl_into_rtrancl)
  then show ?thesis by force
qed

text \<open>
  C34. The end of a forwarded connection is not passed on. When one of the two ends waits for
  the other to finish, the handler never closes either, even after the other has ended: the
  one that waits never learns of it. Only when both ends finish by themselves does the
  handler come to its end, and then it always can.
\<close>

theorem forwarded_end_not_relayed:
  assumes "(forwarding_step client_waits agent_waits)\<^sup>*\<^sup>* start_forwarding f"
  shows "(client_waits \<or> agent_waits \<longrightarrow> \<not> ends_closed f) \<and>
    (\<not> client_waits \<and> \<not> agent_waits \<longrightarrow>
       (\<exists>g. (forwarding_step client_waits agent_waits)\<^sup>*\<^sup>* f g \<and> ends_closed g))"
  using forwarding_inv_run [OF assms] forwarding_can_close [of f]
  by (auto simp: forwarding_inv_def)

theorem forwarded_end_not_relayed_witness:
  "\<exists>f. (forwarding_step True False)\<^sup>*\<^sup>* start_forwarding f \<and> copied_to_client f \<and> \<not> ends_closed f"
proof -
  let ?f = "start_forwarding\<lparr>agent_ended := True\<rparr>"
  let ?g = "?f\<lparr>copied_to_client := True\<rparr>"
  have "forwarding_step True False start_forwarding ?f"
    by (rule agent_ends) (simp_all add: start_forwarding_def)
  moreover have "forwarding_step True False ?f ?g" by (rule to_client_done) simp
  ultimately have run: "(forwarding_step True False)\<^sup>*\<^sup>* start_forwarding ?g"
    by (meson converse_rtranclp_into_rtranclp rtranclp.rtrancl_refl)
  then have "\<not> ends_closed ?g" using forwarded_end_not_relayed by blast
  with run show ?thesis by force
qed

end
