(* ===== verification/Device_Handler.thy ===== *)
theory Device_Handler
  imports Device_Manager
begin

text \<open>
  \<^verbatim>\<open>handleDeviceConnection\<close> of \<^verbatim>\<open>ssh/main.go\<close> as a step relation. Request \<open>i\<close> is served by
  its own handler; the yamux session it creates is session \<open>i\<close>. A handler's phase says what
  it has still to do, its deferred calls included, which run in the reverse order of their
  registration: remove the device, close the session, close the connection. The steps of
  different handlers interleave in any order.
\<close>

record conn_request =
  X_Device_ID :: string
  X_Device_UID :: string

definition request_device_id :: "conn_request \<Rightarrow> string" where
  "request_device_id r = (if X_Device_ID r = [] then X_Device_UID r else X_Device_ID r)"

datatype phase =
    Arrived | Upgraded | Opened | Waiting | Woken | Unregistered | SessionClosed | Finished

datatype response = NoResponse | BadRequest string | HandlerError go_error | HandlerNil

record handler =
  request :: conn_request
  phase :: phase
  conn_open :: bool
  response :: response

record server_state =
  manager :: DeviceManager
  handlers :: "handle \<Rightarrow> handler"

definition upd_handler ::
  "handle \<Rightarrow> (handler \<Rightarrow> handler) \<Rightarrow> server_state \<Rightarrow> server_state" where
  "upd_handler i f s = s\<lparr>handlers := (handlers s)(i := f (handlers s i))\<rparr>"

abbreviation device_of :: "server_state \<Rightarrow> handle \<Rightarrow> string" where
  "device_of s i \<equiv> request_device_id (request (handlers s i))"

abbreviation phase_of :: "server_state \<Rightarrow> handle \<Rightarrow> phase" where
  "phase_of s i \<equiv> phase (handlers s i)"

text \<open>
  One rule per step of the handler, and one for the environment: the peer of an
  established session may go away at any moment, which closes its channel.
\<close>

inductive handler_step :: "server_state \<Rightarrow> server_state \<Rightarrow> bool" where
  missing_id:
    "phase_of s i = Arrived \<Longrightarrow> device_of s i = [] \<Longrightarrow>
     handler_step s (upd_handler i (\<lambda>h. h\<lparr>phase := Finished,
       response := BadRequest ''missing X-Device-ID header''\<rparr>) s)"
| upgrade_fails:
    "phase_of s i = Arrived \<Longrightarrow> device_of s i \<noteq> [] \<Longrightarrow>
     handler_step s (upd_handler i (\<lambda>h. h\<lparr>phase := Finished, response := HandlerError e\<rparr>) s)"
| upgrade:
    "phase_of s i = Arrived \<Longrightarrow> device_of s i \<noteq> [] \<Longrightarrow>
     handler_step s (upd_handler i (\<lambda>h. h\<lparr>phase := Upgraded, conn_open := True\<rparr>) s)"
| yamux_fails:
    "phase_of s i = Upgraded \<Longrightarrow>
     handler_step s (upd_handler i (\<lambda>h. h\<lparr>phase := SessionClosed, response := HandlerError e\<rparr>) s)"
| yamux_server:
    "phase_of s i = Upgraded \<Longrightarrow>
     handler_step s (upd_handler i (\<lambda>h. h\<lparr>phase := Opened\<rparr>) s)"
| register:
    "phase_of s i = Opened \<Longrightarrow>
     handler_step s (upd_handler i (\<lambda>h. h\<lparr>phase := Waiting\<rparr>)
       (s\<lparr>manager := AddDevice (manager s) (device_of s i) i\<rparr>))"
| wake:
    "phase_of s i = Waiting \<Longrightarrow> i \<in> closed (manager s) \<Longrightarrow>
     handler_step s (upd_handler i (\<lambda>h. h\<lparr>phase := Woken, response := HandlerNil\<rparr>) s)"
| unregister:
    "phase_of s i = Woken \<Longrightarrow>
     handler_step s (upd_handler i (\<lambda>h. h\<lparr>phase := Unregistered\<rparr>)
       (s\<lparr>manager := RemoveDevice (manager s) (device_of s i)\<rparr>))"
| close_session:
    "phase_of s i = Unregistered \<Longrightarrow>
     handler_step s (upd_handler i (\<lambda>h. h\<lparr>phase := SessionClosed\<rparr>)
       (s\<lparr>manager := session_Close i (manager s)\<rparr>))"
| close_conn:
    "phase_of s i = SessionClosed \<Longrightarrow>
     handler_step s (upd_handler i (\<lambda>h. h\<lparr>phase := Finished, conn_open := False\<rparr>) s)"
| peer_gone:
    "phase_of s i \<in> {Opened, Waiting, Woken, Unregistered} \<Longrightarrow>
     handler_step s (s\<lparr>manager := session_Close i (manager s)\<rparr>)"

definition init_server :: "(handle \<Rightarrow> conn_request) \<Rightarrow> server_state" where
  "init_server reqs =
     \<lparr>manager = NewDeviceManager,
      handlers = (\<lambda>i. \<lparr>request = reqs i, phase = Arrived, conn_open = False,
                        response = NoResponse\<rparr>)\<rparr>"

inductive server_reachable :: "(handle \<Rightarrow> conn_request) \<Rightarrow> server_state \<Rightarrow> bool"
  for reqs where
  init: "server_reachable reqs (init_server reqs)"
| step: "server_reachable reqs s \<Longrightarrow> handler_step s t \<Longrightarrow> server_reachable reqs t"

inductive_cases handler_stepE: "handler_step s t"

lemmas handler_defs = upd_handler_def

section \<open>The registry invariant\<close>

text \<open>
  What the map and the handlers agree on: a registered session belongs to a handler of
  that device that has not yet cleaned up; a registered handler whose session is still
  open is the one the map names; a handler holds its connection open exactly between the
  upgrade and its last deferred call.
\<close>

definition map_agrees :: "server_state \<Rightarrow> bool" where
  "map_agrees s \<longleftrightarrow>
     (\<forall>d i. sessions (manager s) d = Some i \<longrightarrow>
        phase_of s i \<in> {Waiting, Woken} \<and> device_of s i = d)"

definition open_registered :: "server_state \<Rightarrow> bool" where
  "open_registered s \<longleftrightarrow>
     (\<forall>i. phase_of s i \<in> {Waiting, Woken} \<longrightarrow> i \<notin> closed (manager s) \<longrightarrow>
        sessions (manager s) (device_of s i) = Some i)"

definition identified :: "server_state \<Rightarrow> bool" where
  "identified s \<longleftrightarrow>
     (\<forall>i. phase_of s i \<notin> {Arrived, Finished} \<longrightarrow> device_of s i \<noteq> [])"

definition conn_tracked :: "server_state \<Rightarrow> bool" where
  "conn_tracked s \<longleftrightarrow>
     (\<forall>i. conn_open (handlers s i) \<longleftrightarrow> phase_of s i \<notin> {Arrived, Finished})"

definition registry_inv :: "server_state \<Rightarrow> bool" where
  "registry_inv s \<longleftrightarrow>
     map_agrees s \<and> open_registered s \<and> identified s \<and> conn_tracked s"

lemma map_agreesD:
  "map_agrees s \<Longrightarrow> sessions (manager s) d = Some i \<Longrightarrow>
   (phase_of s i = Waiting \<or> phase_of s i = Woken) \<and> device_of s i = d"
  by (simp add: map_agrees_def)

lemma registry_inv_init: "registry_inv (init_server reqs)"
  by (simp add: registry_inv_def map_agrees_def open_registered_def identified_def
      conn_tracked_def init_server_def NewDeviceManager_def)

lemma map_agrees_step: "handler_step s t \<Longrightarrow> map_agrees s \<Longrightarrow> map_agrees t"
  by (induction rule: handler_step.induct)
     (simp_all add: map_agrees_def handler_defs, fastforce+)

lemma open_registered_step: "handler_step s t \<Longrightarrow> open_registered s \<Longrightarrow> open_registered t"
  by (induction rule: handler_step.induct)
     (simp_all add: open_registered_def handler_defs, fastforce+)

lemma identified_step: "handler_step s t \<Longrightarrow> identified s \<Longrightarrow> identified t"
  by (induction rule: handler_step.induct)
     (simp_all add: identified_def handler_defs)

lemma conn_tracked_step: "handler_step s t \<Longrightarrow> conn_tracked s \<Longrightarrow> conn_tracked t"
  by (induction rule: handler_step.induct)
     (simp_all add: conn_tracked_def handler_defs)

lemma registry_inv_step: "handler_step s t \<Longrightarrow> registry_inv s \<Longrightarrow> registry_inv t"
  by (simp add: registry_inv_def map_agrees_step open_registered_step identified_step
      conn_tracked_step)

lemma reachable_registry_inv: "server_reachable reqs s \<Longrightarrow> registry_inv s"
  by (induction rule: server_reachable.induct)
     (auto intro: registry_inv_init registry_inv_step)

lemma request_unchanged: "handler_step s t \<Longrightarrow> request (handlers t i) = request (handlers s i)"
  by (induction rule: handler_step.induct) (auto simp: handler_defs)

lemma reachable_request: "server_reachable reqs s \<Longrightarrow> request (handlers s i) = reqs i"
  by (induction rule: server_reachable.induct)
     (auto simp: init_server_def request_unchanged)

section \<open>Runs of one handler\<close>

text \<open>The state after handler \<open>i\<close> has taken its steps up to waiting for its session.\<close>

definition connect :: "handle \<Rightarrow> server_state \<Rightarrow> server_state" where
  "connect i s = upd_handler i (\<lambda>h. h\<lparr>conn_open := True, phase := Waiting\<rparr>)
     (s\<lparr>manager := AddDevice (manager s) (device_of s i) i\<rparr>)"

lemma connect_run:
  assumes "phase_of s i = Arrived" "device_of s i \<noteq> []"
  shows "handler_step\<^sup>*\<^sup>* s (connect i s)"
proof -
  let ?s1 = "upd_handler i (\<lambda>h. h\<lparr>phase := Upgraded, conn_open := True\<rparr>) s"
  let ?s2 = "upd_handler i (\<lambda>h. h\<lparr>phase := Opened\<rparr>) ?s1"
  let ?s3 = "upd_handler i (\<lambda>h. h\<lparr>phase := Waiting\<rparr>)
     (?s2\<lparr>manager := AddDevice (manager ?s2) (device_of ?s2 i) i\<rparr>)"
  have "handler_step s ?s1" using assms by (rule upgrade)
  moreover have "handler_step ?s1 ?s2" by (rule yamux_server) (simp add: handler_defs)
  moreover have "handler_step ?s2 ?s3" by (rule register) (simp add: handler_defs)
  moreover have "?s3 = connect i s" by (simp add: connect_def handler_defs)
  ultimately show ?thesis by (metis rtranclp.rtrancl_into_rtrancl rtranclp.rtrancl_refl)
qed

text \<open>The two steps of a woken handler that end with its device removed.\<close>

definition disconnect :: "handle \<Rightarrow> server_state \<Rightarrow> server_state" where
  "disconnect i s = upd_handler i (\<lambda>h. h\<lparr>response := HandlerNil, phase := Unregistered\<rparr>)
     (s\<lparr>manager := RemoveDevice (manager s) (device_of s i)\<rparr>)"

lemma disconnect_run:
  assumes "phase_of s i = Waiting" "i \<in> closed (manager s)"
  shows "handler_step\<^sup>*\<^sup>* s (disconnect i s)"
proof -
  let ?s1 = "upd_handler i (\<lambda>h. h\<lparr>phase := Woken, response := HandlerNil\<rparr>) s"
  let ?s2 = "upd_handler i (\<lambda>h. h\<lparr>phase := Unregistered\<rparr>)
     (?s1\<lparr>manager := RemoveDevice (manager ?s1) (device_of ?s1 i)\<rparr>)"
  have "handler_step s ?s1" using assms by (rule wake)
  moreover have "handler_step ?s1 ?s2" by (rule unregister) (simp add: handler_defs)
  moreover have "?s2 = disconnect i s" by (simp add: disconnect_def handler_defs)
  ultimately show ?thesis by (metis rtranclp.rtrancl_into_rtrancl rtranclp.rtrancl_refl)
qed

lemma reachable_run:
  "handler_step\<^sup>*\<^sup>* s t \<Longrightarrow> server_reachable reqs s \<Longrightarrow> server_reachable reqs t"
  by (induction rule: rtranclp_induct) (auto intro: server_reachable.step)

lemma reachable_connect:
  "server_reachable reqs s \<Longrightarrow> phase_of s i = Arrived \<Longrightarrow> device_of s i \<noteq> [] \<Longrightarrow>
   server_reachable reqs (connect i s)"
  by (blast intro: reachable_run connect_run)

lemma connect_simps:
  "sessions (manager (connect i s)) = (sessions (manager s))(device_of s i \<mapsto> i)"
  "closed (manager (connect i s)) =
     set_option (sessions (manager s) (device_of s i)) \<union> closed (manager s)"
  "phase_of (connect i s) j = (if j = i then Waiting else phase_of s j)"
  "device_of (connect i s) j = device_of s j"
  by (simp_all add: connect_def handler_defs)

lemma disconnect_simps:
  "sessions (manager (disconnect i s)) = (sessions (manager s))(device_of s i := None)"
  "closed (manager (disconnect i s)) =
     set_option (sessions (manager s) (device_of s i)) \<union> closed (manager s)"
  by (simp_all add: disconnect_def handler_defs)

lemma init_server_simps:
  "sessions (manager (init_server reqs)) = Map.empty"
  "closed (manager (init_server reqs)) = {}"
  "phase_of (init_server reqs) i = Arrived"
  "device_of (init_server reqs) i = request_device_id (reqs i)"
  by (simp_all add: init_server_def NewDeviceManager_def)

text \<open>Every request carrying the same device identifier.\<close>

definition same_device :: "handle \<Rightarrow> conn_request" where
  "same_device = (\<lambda>_. \<lparr>X_Device_ID = ''default:DEVICE123'', X_Device_UID = []\<rparr>)"

lemma device_same_device: "request_device_id (same_device i) = ''default:DEVICE123''"
  by (simp add: same_device_def request_device_id_def)

definition connected_once :: server_state where
  "connected_once = connect 0 (init_server same_device)"

definition connected_twice :: server_state where
  "connected_twice = connect 1 connected_once"

lemma reachable_connected_once: "server_reachable same_device connected_once"
  unfolding connected_once_def
  by (rule reachable_connect)
     (simp_all add: init_server_simps device_same_device server_reachable.init)

lemma reachable_connected_twice: "server_reachable same_device connected_twice"
  unfolding connected_twice_def
  by (rule reachable_connect [OF reachable_connected_once])
     (simp_all add: connected_once_def connect_simps init_server_simps device_same_device)

lemmas connected_simps = connected_once_def connected_twice_def connect_simps
  init_server_simps device_same_device

section \<open>Properties\<close>

lemma registry_exact_aux:
  assumes "server_reachable reqs s"
  shows "sessions (manager s) d = Some i \<and> i \<notin> closed (manager s) \<longleftrightarrow>
     phase_of s i \<in> {Waiting, Woken} \<and> request_device_id (reqs i) = d \<and>
     i \<notin> closed (manager s)"
  using reachable_registry_inv [OF assms] reachable_request [OF assms]
  by (auto simp: registry_inv_def map_agrees_def open_registered_def)

lemma unregister_manager:
  "handler_step s t \<Longrightarrow> phase_of s i = Woken \<Longrightarrow> phase_of t i = Unregistered \<Longrightarrow>
   manager t = RemoveDevice (manager s) (device_of s i)"
  by (induction rule: handler_step.induct) (auto simp: handler_defs split: if_splits)

text \<open>
  C1. At every moment, whatever the handlers of all requests have done, the sessions of
  the registry that are still open are exactly those of the registered handlers: a device
  resolves to the open session of its handler, and to nothing else.
\<close>

theorem registry_exact:
  assumes "server_reachable reqs s"
  shows "sessions (manager s) d = Some i \<and> i \<notin> closed (manager s) \<longleftrightarrow>
     phase_of s i \<in> {Waiting, Woken} \<and> request_device_id (reqs i) = d \<and>
     i \<notin> closed (manager s)"
  by (rule registry_exact_aux [OF assms])

theorem registry_exact_witness:
  "sessions (manager connected_once) ''default:DEVICE123'' = Some 0 \<and>
   0 \<notin> closed (manager connected_once)"
  by (subst registry_exact [OF reachable_connected_once]) (simp add: connected_simps)

text \<open>
  Two handlers registered for one device never both have an open session: the older
  one's session is closed when the newer registers.
\<close>

theorem one_open_session:
  assumes "server_reachable reqs s"
    and "phase_of s i \<in> {Waiting, Woken}" "phase_of s j \<in> {Waiting, Woken}"
    and "request_device_id (reqs i) = request_device_id (reqs j)" "i \<noteq> j"
  shows "i \<in> closed (manager s) \<or> j \<in> closed (manager s)"
proof (rule ccontr)
  let ?d = "request_device_id (reqs i)"
  assume opened: "\<not> ?thesis"
  then have "sessions (manager s) ?d = Some i"
    using registry_exact_aux [OF assms(1)] assms(2) by blast
  moreover have "sessions (manager s) ?d = Some j"
    using registry_exact_aux [OF assms(1)] assms(3,4) opened by metis
  ultimately show False using assms(5) by simp
qed

theorem one_open_session_witness:
  "0 \<in> closed (manager connected_twice) \<or> 1 \<in> closed (manager connected_twice)"
  by (rule one_open_session [OF reachable_connected_twice])
     (simp_all add: connected_simps)

text \<open>
  A finished handler leaves nothing behind: no entry of the registry names its
  session, and its connection is closed. When no handler is active the registry is empty.
\<close>

theorem no_stale_entries:
  assumes "server_reachable reqs s" "phase_of s i \<in> {Arrived, Finished}"
  shows "sessions (manager s) d \<noteq> Some i \<and> \<not> conn_open (handlers s i)"
  using reachable_registry_inv [OF assms(1)] assms(2)
  by (auto simp: registry_inv_def conn_tracked_def dest: map_agreesD)

theorem no_stale_entries_witness:
  "sessions (manager connected_twice) ''default:DEVICE123'' \<noteq> Some 7 \<and>
   \<not> conn_open (handlers connected_twice 7)"
  by (rule no_stale_entries [OF reachable_connected_twice]) (simp add: connected_simps)

text \<open>
  C15. A reconnecting device loses its new connection. When a device registers again while
  its earlier handler is still registered, the earlier session is closed, and when the
  earlier handler then cleans up it removes the device and closes the new session: the
  removal is by device identifier and does not ask whose session it removes. The clean-up
  is possible as soon as that handler waits, and no other outcome of it is possible.
\<close>

theorem reconnect_drops_new_session:
  assumes reach: "server_reachable reqs s"
    and old: "phase_of s i \<in> {Waiting, Woken}" "request_device_id (reqs i) = d"
    and new: "sessions (manager s) d = Some j" "i \<noteq> j"
  shows "i \<in> closed (manager s) \<and>
    (\<forall>t. phase_of s i = Woken \<and> handler_step s t \<and> phase_of t i = Unregistered \<longrightarrow>
       sessions (manager t) d = None \<and> j \<in> closed (manager t)) \<and>
    (phase_of s i = Waiting \<longrightarrow>
       (\<exists>t. handler_step\<^sup>*\<^sup>* s t \<and> sessions (manager t) d = None \<and> j \<in> closed (manager t)))"
proof (intro conjI allI impI)
  have dev: "device_of s i = d" using reachable_request [OF reach] old(2) by simp
  show closed: "i \<in> closed (manager s)"
    using registry_exact_aux [OF reach, of d i] old new by auto
  show "\<exists>t. handler_step\<^sup>*\<^sup>* s t \<and> sessions (manager t) d = None \<and> j \<in> closed (manager t)"
    if "phase_of s i = Waiting"
    using disconnect_run [OF that closed] dev new(1)
    by (intro exI [of _ "disconnect i s"]) (simp add: disconnect_simps)
  fix t assume t: "phase_of s i = Woken \<and> handler_step s t \<and> phase_of t i = Unregistered"
  then have "manager t = RemoveDevice (manager s) (device_of s i)"
    by (blast intro: unregister_manager)
  then show "sessions (manager t) d = None" "j \<in> closed (manager t)"
    using dev new(1) by simp_all
qed

theorem reconnect_drops_new_session_witness:
  "0 \<in> closed (manager connected_twice) \<and>
   (\<exists>t. handler_step\<^sup>*\<^sup>* connected_twice t \<and>
      sessions (manager t) ''default:DEVICE123'' = None \<and> 1 \<in> closed (manager t))"
proof -
  have "phase_of connected_twice 0 = Waiting"
    "sessions (manager connected_twice) ''default:DEVICE123'' = Some 1"
    by (simp_all add: connected_simps)
  then show ?thesis
    using reconnect_drops_new_session
      [OF reachable_connected_twice, of 0 "''default:DEVICE123''" 1]
    by (simp add: device_same_device)
qed

end
