(* ===== verification/Server_Main.thy ===== *)
theory Server_Main
  imports SSH_Server Device_Handler
begin

text \<open>
  \<^verbatim>\<open>ssh/main.go\<close>, and the constructor and the listener of \<^verbatim>\<open>ssh/server/server.go\<close>: how the
  server's process is put together, what it listens on, and when it ends. Keys, sockets and
  the HTTP router are libraries'; their results are arguments.
\<close>

section \<open>The SSH server\<close>

record Options =
  ConnectTimeout :: int
  AllowPublickeyAccessBelow060 :: bool

text \<open>
  The server's address, options, tunnel and host key. Its callbacks are the definitions of
  the theory \<open>SSH_Server\<close>, applied to its tunnel.
\<close>

record ssh_server =
  Addr :: string
  opts :: Options
  server_tunnel :: "string \<Rightarrow> go_error + streamConn"
  host_signer :: handle

text \<open>
  Every server generates its own key; failing to do so is fatal, and \<open>Inl\<close> is the message
  with which the process ends.
\<close>

definition NewSSHServer ::
  "go_error + handle \<Rightarrow> (handle \<Rightarrow> go_error + handle) \<Rightarrow> Options \<Rightarrow>
   (string \<Rightarrow> go_error + streamConn) \<Rightarrow> string + ssh_server" where
  "NewSSHServer generated new_signer options dial =
     (case generated of
        Inl _ \<Rightarrow> Inl ''failed to generate private key''
      | Inr privateKey \<Rightarrow>
          (case new_signer privateKey of
             Inl _ \<Rightarrow> Inl ''failed to create signer from private key''
           | Inr signer \<Rightarrow>
               Inr \<lparr>Addr = '':2222'', opts = options, server_tunnel = dial,
                    host_signer = signer\<rparr>))"

datatype listen_effect = Listen string string | ServeProxy handle | CloseProxy handle

definition ListenAndServe ::
  "(string \<Rightarrow> go_error + handle) \<Rightarrow> (handle \<Rightarrow> go_error option) \<Rightarrow> ssh_server \<Rightarrow>
   listen_effect list \<times> go_error option" where
  "ListenAndServe listen serve s =
     (case listen (Addr s) of
        Inl err \<Rightarrow> ([Listen ''tcp'' (Addr s)], Some err)
      | Inr proxy \<Rightarrow>
          ([Listen ''tcp'' (Addr s), ServeProxy proxy, CloseProxy proxy], serve proxy))"

section \<open>The process\<close>

definition ListenAddress :: string where "ListenAddress = '':8080''"

text \<open>The one route of the HTTP server; its handler is \<open>handler_step\<close>.\<close>

definition connection_route :: string where "connection_route = ''/ssh/connection''"

definition main_options :: Options where
  "main_options = \<lparr>ConnectTimeout = 0, AllowPublickeyAccessBelow060 = False\<rparr>"

datatype exit = ExitFatal string | ExitNormal

text \<open>
  The goroutine of the SSH server over the process's registry: it ends the process itself,
  or sends the listener's result to \<^verbatim>\<open>main\<close>. The tunnel looks at the registry each time it
  dials; \<open>m\<close> is its content then.
\<close>

definition ssh_goroutine ::
  "go_error + handle \<Rightarrow> (handle \<Rightarrow> go_error + handle) \<Rightarrow> (string \<Rightarrow> go_error + handle) \<Rightarrow>
   (handle \<Rightarrow> go_error option) \<Rightarrow> (sess \<Rightarrow> go_error + handle) \<Rightarrow> DeviceManager \<Rightarrow>
   exit + go_error option" where
  "ssh_goroutine generated new_signer listen serve yopen m =
     (case NewSSHServer generated new_signer main_options (registry_dial yopen m) of
        Inl msg \<Rightarrow> Inl (ExitFatal msg)
      | Inr s \<Rightarrow> Inr (snd (ListenAndServe listen serve s)))"

text \<open>
  \<^verbatim>\<open>main\<close> waits for the first of the goroutines to end: the argument is what they do, in the
  order of time. It ends the process then, whatever the other one is serving.
\<close>

fun server_main :: "(exit + go_error option) list \<Rightarrow> exit option" where
  "server_main [] = None"
| "server_main (Inl e # _) = Some e"
| "server_main (Inr (Some err) # _) = Some (ExitFatal ''fatal error from HTTP or SSH server'')"
| "server_main (Inr None # _) = Some ExitNormal"

text \<open>
  The process of a server that cannot make its key or listen on its port ends with a fatal
  message, and no event after the first one is ever looked at.
\<close>

lemma server_main_first: "es \<noteq> [] \<Longrightarrow> server_main (es @ fs) = server_main es \<and> server_main es \<noteq> None"
  by (cases es rule: server_main.cases) auto

lemma ssh_server_fails:
  assumes "isl generated \<or> (\<exists>k. generated = Inr k \<and> isl (new_signer k)) \<or> isl (listen '':2222'')"
  shows "\<exists>msg. server_main (ssh_goroutine generated new_signer listen serve yopen m # es) =
    Some (ExitFatal msg)"
  using assms
  by (auto simp: ssh_goroutine_def NewSSHServer_def ListenAndServe_def main_options_def
      split: sum.splits)

end
