(* ===== verification/Directory.thy ===== *)
theory Directory
  imports Refinement Device_Handler
begin

text \<open>
  What the device registry promises: a directory of the devices that are online. It is a
  map from identifiers to open sessions in which no session appears twice; a device comes
  online under a session that is not in it yet, replacing what was there, and goes offline.
  Entries whose session is closed are not in the directory: nothing can be opened on them.
\<close>

type_synonym directory = "string \<rightharpoonup> sess"

inductive directory_step :: "directory \<Rightarrow> directory \<Rightarrow> bool" where
  comes_online: "i \<notin> ran m \<Longrightarrow> directory_step m (m(d \<mapsto> i))"
| goes_offline: "m d = Some i \<Longrightarrow> directory_step m (m(d := None))"

definition directory :: "server_state \<Rightarrow> directory" where
  "directory s d =
     (case sessions (manager s) d of
        None \<Rightarrow> None
      | Some i \<Rightarrow> if i \<in> closed (manager s) then None else Some i)"

definition no_session_twice :: "directory \<Rightarrow> bool" where
  "no_session_twice m \<longleftrightarrow> inj_on m (dom m)"

lemma directory_Some_iff:
  "directory s d = Some i \<longleftrightarrow> sessions (manager s) d = Some i \<and> i \<notin> closed (manager s)"
  by (auto simp: directory_def split: option.splits if_splits)

lemma directory_cong:
  "manager t = manager s \<Longrightarrow> directory t = directory s"
  by (rule ext) (simp add: directory_def cong: option.case_cong)

text \<open>Closing a session takes its device offline, when it is registered.\<close>

lemma directory_close:
  assumes inv: "registry_inv s" and m: "manager t = session_Close i (manager s)"
  shows "directory t = directory s \<or> directory_step (directory s) (directory t)"
proof (cases "directory s (device_of s i) = Some i")
  case True
  have "directory t = (directory s)(device_of s i := None)"
  proof
    fix d
    show "directory t d = ((directory s)(device_of s i := None)) d"
      using inv True m
      by (auto simp: directory_def registry_inv_def split: option.splits dest: map_agreesD)
  qed
  with True show ?thesis by (auto intro: goes_offline)
next
  case False
  have "directory t d = directory s d" for d
    using inv False m
    by (auto simp: directory_def registry_inv_def split: option.splits dest: map_agreesD)
  then show ?thesis by auto
qed

lemma offline_or_same: "directory_step m (m(d := None)) \<or> m(d := None) = m"
  by (cases "m d") (auto intro: goes_offline)

lemma directory_simulates:
  assumes "handler_step s t" "registry_inv s"
  shows "directory t = directory s \<or> directory_step (directory s) (directory t)"
  using assms
proof (induction rule: handler_step.induct)
  case (register s i)
  let ?d = "device_of s i"
  let ?t = "upd_handler i (\<lambda>h. h\<lparr>phase := Waiting\<rparr>)
       (s\<lparr>manager := AddDevice (manager s) ?d i\<rparr>)"
  have agrees: "map_agrees s" using register.prems by (simp add: registry_inv_def)
  then have new: "sessions (manager s) d \<noteq> Some i" for d
    using register.hyps by (auto dest: map_agreesD)
  then have fresh: "i \<notin> ran (directory s)" by (auto simp: ran_def directory_Some_iff)
  have other: "sessions (manager s) d = Some j \<Longrightarrow> d \<noteq> ?d \<Longrightarrow> sessions (manager s) ?d \<noteq> Some j" for d j
    using map_agreesD [OF agrees] by metis
  have eq: "directory ?t = (directory s)(?d := if i \<in> closed (manager s) then None else Some i)"
  proof
    fix d
    show "directory ?t d =
        ((directory s)(?d := if i \<in> closed (manager s) then None else Some i)) d"
      using new other by (auto simp: directory_def handler_defs split: option.splits)
  qed
  show ?case
  proof (cases "i \<in> closed (manager s)")
    case True
    with eq have "directory ?t = (directory s)(?d := None)" by (simp only: if_True)
    with offline_or_same [of "directory s" ?d] show ?thesis by argo
  next
    case False
    with eq have "directory ?t = (directory s)(?d \<mapsto> i)" by (simp only: if_False)
    with comes_online [OF fresh, of ?d] show ?thesis by argo
  qed
next
  case (unregister s i)
  let ?d = "device_of s i"
  let ?t = "upd_handler i (\<lambda>h. h\<lparr>phase := Unregistered\<rparr>)
       (s\<lparr>manager := RemoveDevice (manager s) ?d\<rparr>)"
  have other: "sessions (manager s) d = Some j \<Longrightarrow> d \<noteq> ?d \<Longrightarrow> sessions (manager s) ?d \<noteq> Some j" for d j
    using unregister.prems map_agreesD [of s] unfolding registry_inv_def by metis
  have "directory ?t = (directory s)(?d := None)"
  proof
    fix d
    show "directory ?t d = ((directory s)(?d := None)) d"
      using other by (auto simp: directory_def handler_defs split: option.splits)
  qed
  with offline_or_same [of "directory s" ?d] show ?case by argo
next
  case (close_session s i)
  then show ?case by (intro directory_close [of s _ i]) (simp_all add: handler_defs)
next
  case (peer_gone s i)
  then show ?case by (intro directory_close [of s _ i]) simp_all
qed (rule disjI1, rule directory_cong, simp add: handler_defs)+

interpretation reg: implements handler_step directory_step registry_inv directory
  by unfold_locales (fact registry_inv_step, fact directory_simulates)

lemma directory_step_keeps: "directory_step m m' \<Longrightarrow> no_session_twice m \<Longrightarrow> no_session_twice m'"
  by (induction rule: directory_step.induct)
     (auto simp: no_session_twice_def inj_on_def ran_def split: if_splits)

lemma reachable_steps: "server_reachable reqs s \<Longrightarrow> handler_step\<^sup>*\<^sup>* (init_server reqs) s"
  by (induction rule: server_reachable.induct) auto

lemma directory_init: "directory (init_server reqs) = Map.empty"
  by (simp add: fun_eq_iff directory_def init_server_simps)



end
