(* ===== verification/Login_Protocol.thy ===== *)
theory Login_Protocol
  imports Refinement SSH_Server
begin

text \<open>
  The login of a client as the server means it: a client's connection has no session, or
  one whose device could not be reached, or one connected to its device, or one whose
  connection to the device was dropped by a refused login, or it is logged in on the
  device. The callbacks of the server, in any order, refine this protocol.
\<close>

datatype login =
    Anonymous | Unreached | Connected streamConn | Dropped | LoggedIn streamConn

text \<open>
  The steps for a user name: connecting and redialling always go to the device the name
  asks for, and a login succeeds only over such a connection.
\<close>

inductive login_step :: "string \<Rightarrow> login \<Rightarrow> login \<Rightarrow> bool" for user where
  unreached: "NewTarget user = Inr t \<Longrightarrow> login_step user l Unreached"
| connects: "NewTarget user = Inr t \<Longrightarrow> conn_target c = dial_id (Data t) \<Longrightarrow>
    login_step user l (Connected c)"
| refused: "login_step user (Connected c) Dropped"
| logs_in: "login_step user (Connected c) (LoggedIn c)"
| redials: "NewTarget user = Inr t \<Longrightarrow> conn_target c = dial_id (Data t) \<Longrightarrow>
    login_step user Dropped (LoggedIn c)"

text \<open>What a context says about the login.\<close>

definition connection :: "Context \<Rightarrow> addr \<Rightarrow> streamConn option" where
  "connection ctx a = Option.bind (store ctx a) (\<lambda>s. Conn (Agent_of s))"

definition login_of :: "Context \<Rightarrow> login" where
  "login_of ctx =
     (case snap ctx of
        None \<Rightarrow> Anonymous
      | Some sn \<Rightarrow>
          (case snap_session sn of
             None \<Rightarrow> Anonymous
           | Some a \<Rightarrow>
               (case (snap_state sn, connection ctx a) of
                  (StateFinished, Some c) \<Rightarrow> LoggedIn c
                | (StateEvaluated, Some c) \<Rightarrow> Connected c
                | (StateEvaluated, None) \<Rightarrow> Dropped
                | _ \<Rightarrow> Unreached)))"

text \<open>One callback of the server, with any answers of a tunnel and of the handshake.\<close>

inductive client_step :: "Context \<Rightarrow> Context \<Rightarrow> bool" where
  connected: "client_step ctx (fst (ConnCallback ctx c))"
| banner: "tunnel dial \<Longrightarrow> BannerHandler dial ctx = Val (ctx', msg) \<Longrightarrow> client_step ctx ctx'"
| password: "tunnel dial \<Longrightarrow> PasswordHandler dial hs ctx pwd = Val (ctx', ok) \<Longrightarrow>
    client_step ctx ctx'"
| public_key: "tunnel dial \<Longrightarrow> PublicKeyHandler dial hs ctx = Val (ctx', ok) \<Longrightarrow>
    client_step ctx ctx'"

text \<open>The invariant: the context is consistent and belongs to the user.\<close>

definition client_inv :: "string \<Rightarrow> Context \<Rightarrow> bool" where
  "client_inv user ctx \<longleftrightarrow> context_inv ctx \<and> User ctx = user"

lemma login_of_getSnapshot: "getSnapshot ctx = (ctx', sn) \<Longrightarrow> login_of ctx' = login_of ctx"
  by (auto simp: getSnapshot_def login_of_def connection_def Let_def split: option.splits)

lemma login_of_snap:
  "snap ctx = Some \<lparr>snap_session = Some a, snap_state = st\<rparr> \<Longrightarrow> connection ctx a = x \<Longrightarrow>
   login_of ctx =
     (case (st, x) of
        (StateFinished, Some c) \<Rightarrow> LoggedIn c
      | (StateEvaluated, Some c) \<Rightarrow> Connected c
      | (StateEvaluated, None) \<Rightarrow> Dropped
      | _ \<Rightarrow> Unreached)"
  by (simp add: login_of_def)

text \<open>A banner callback leaves the context alone, or makes a session for the user.\<close>

lemma BannerHandler_login:
  assumes dial: "tunnel dial" and inv: "context_inv ctx"
    and run: "BannerHandler dial ctx = Val (ctx', msg)"
  shows "User ctx' = User ctx \<and>
    (login_of ctx' = login_of ctx \<or> login_step (User ctx) (login_of ctx) (login_of ctx'))"
proof (cases "NewSession ctx")
  case (Pair ctx1 r)
  note new = NewSession_inv [OF inv Pair]
  show ?thesis
  proof (cases r)
    case (Inl e)
    then show ?thesis using Pair new run by (simp add: BannerHandler_error)
  next
    case (Inr a)
    then have created: "NewSession ctx = (ctx1, Inr a)" using Pair by simp
    obtain s where s: "store ctx1 a = Some s" "NewTarget (User ctx) = Inr (Target_of s)"
      "Device_UID (Device_of s) = Data (Target_of s)" "Conn (Agent_of s) = None"
      "User ctx1 = User ctx"
      by (rule NewSession_session [OF inv created])
    have sn: "snap ctx1 = Some \<lparr>snap_session = Some a, snap_state = StateCreated\<rparr>"
      using new Inr by simp
    show ?thesis
    proof (cases "dial (dial_id (Device_UID (Device_of s)))")
      case (Inl e)
      then have "ctx' = ctx1"
        using run created s(1) by (simp add: BannerHandler_def Session_Dial_simps)
      moreover have "login_of ctx1 = Unreached"
        by (simp add: login_of_snap [OF sn refl] split: option.split)
      ultimately show ?thesis using s unreached [OF s(2)] by simp
    next
      case (Inr c)
      then have target: "conn_target c = dial_id (Data (Target_of s))"
        using tunnel.dial_target [OF dial] s(3) by simp
      let ?ctx2 = "upd_session a (\<lambda>s. s\<lparr>Agent_of := (Agent_of s)\<lparr>Conn := Some c\<rparr>\<rparr>) ctx1"
      have "ctx' = save (Some a) StateEvaluated ?ctx2"
        using run created s(1) Inr sn
        by (simp add: BannerHandler_def Session_Dial_simps Session_Evaluate_def getSnapshot_def)
      then have "login_of ctx' = Connected c" "User ctx' = User ctx"
        using s(1,5) by (simp_all add: login_of_def connection_def)
      then show ?thesis using connects [OF s(2) target] by simp
    qed
  qed
qed

lemma auth_connect_login:
  assumes sn: "snap ctx = Some \<lparr>snap_session = Some a, snap_state = StateEvaluated\<rparr>"
    and s: "store ctx a = Some s" "Conn (Agent_of s) = Some c"
    and run: "auth_connect hs cfg ctx a = Val (ctx', e)"
  shows "User ctx' = User ctx \<and> login_of ctx' = (if e = None then LoggedIn c else Dropped)"
proof (cases "hs c cfg")
  case (Inl err)
  then have "ctx' = upd_session a (\<lambda>s. s\<lparr>Agent_of := (Agent_of s)\<lparr>Conn := None\<rparr>\<rparr>) ctx"
    "e = Some err"
    using run s by (simp_all add: auth_connect_simps)
  then show ?thesis using sn s by (simp add: login_of_def connection_def)
next
  case (Inr p)
  obtain cl rq where p: "p = (cl, rq)" by (cases p)
  have "ctx' = save (Some a) StateFinished (upd_session a
       (\<lambda>s. s\<lparr>Agent_of := (Agent_of s)\<lparr>Client := Some cl, Requests := Some rq\<rparr>\<rparr>) ctx)"
    "e = None"
    using run s Inr p by (simp_all add: auth_connect_simps)
  then show ?thesis using s by (simp add: login_of_def connection_def)
qed

lemma Session_Auth_login:
  assumes dial: "tunnel dial" and inv: "context_inv ctx0"
    and run: "Session_Auth dial hs ctx0 (AuthPassword pwd) = Val (ctx', e)"
  shows "User ctx' = User ctx0 \<and>
    (login_of ctx' = login_of ctx0 \<or> login_step (User ctx0) (login_of ctx0) (login_of ctx'))"
proof -
  obtain ctx sn where g: "getSnapshot ctx0 = (ctx, sn)" by (cases "getSnapshot ctx0")
  note ctx = getSnapshot_inv [OF inv g] login_of_getSnapshot [OF g]
  show ?thesis
  proof (cases "snap_state sn = StateEvaluated")
    case False
    then have "snap_state sn \<noteq> StateRegistered"
      using ctx(1) by (auto elim: snapshot_cases)
    with False show ?thesis using Session_Auth_wrong_state [OF g] ctx run by simp
  next
    case True
    then obtain a s where sn: "snap ctx = Some \<lparr>snap_session = Some a, snap_state = StateEvaluated\<rparr>"
      and s: "store ctx a = Some s"
      using ctx by (auto elim: snapshot_cases)
    then have ctx0: "ctx0 = ctx"
      using g True by (auto simp: getSnapshot_def Let_def split: option.splits)
    have ok: "session_ok ctx s" using ctx(1) s by (auto simp: inv_defs)
    then have t: "NewTarget (User ctx) = Inr (Target_of s)"
      "Device_UID (Device_of s) = Data (Target_of s)" by (simp_all add: session_ok_def)
    have cfg: "auth_Auth (AuthPassword pwd) s \<lparr>cfg_User = Username (Target_of s), cfg_Auth = []\<rparr> =
        Inr \<lparr>cfg_User = Username (Target_of s), cfg_Auth = [pwd]\<rparr>"
      by (simp add: AuthPassword_def)
    note eq = Session_Auth_evaluated [OF sn s cfg, of dial hs]
    show ?thesis
    proof (cases "Conn (Agent_of s)")
      case (Some c)
      have l: "login_of ctx = Connected c" using sn s Some by (simp add: login_of_def connection_def)
      show ?thesis
        using auth_connect_login [OF sn s Some] run eq Some ctx0 l refused logs_in by auto
    next
      case None
      have l: "login_of ctx = Dropped" using sn s None by (simp add: login_of_def connection_def)
      show ?thesis
      proof (cases "dial (dial_id (Device_UID (Device_of s)))")
        case (Inl e)
        then show ?thesis using eq None ctx0 run by (simp add: Session_Dial_simps(1) [OF s])
      next
        case (Inr c)
        then have target: "conn_target c = dial_id (Data (Target_of s))"
          using tunnel.dial_target [OF dial] t(2) by simp
        let ?ctx1 = "upd_session a (\<lambda>s. s\<lparr>Agent_of := (Agent_of s)\<lparr>Conn := Some c\<rparr>\<rparr>) ctx"
        let ?s1 = "s\<lparr>Agent_of := (Agent_of s)\<lparr>Conn := Some c\<rparr>\<rparr>"
        have "snap ?ctx1 = Some \<lparr>snap_session = Some a, snap_state = StateEvaluated\<rparr>"
          "store ?ctx1 a = Some ?s1" "Conn (Agent_of ?s1) = Some c"
          using sn s by simp_all
        note conn = auth_connect_login [OF this]
        have "auth_connect hs \<lparr>cfg_User = Username (Target_of s), cfg_Auth = [pwd]\<rparr> ?ctx1 a =
            Val (ctx', e)"
          using eq None ctx0 s Inr run by (simp add: Session_Dial_simps)
        from conn [OF this] show ?thesis using l ctx0 redials [OF t(1) target] by auto
      qed
    qed
  qed
qed

lemma connection_simps [simp]:
  "connection (ctx\<lparr>conn := x\<rparr>) = connection ctx"
  "connection (ctx\<lparr>closed_conns := cs\<rparr>) = connection ctx"
  by (simp_all add: fun_eq_iff connection_def)

lemma login_of_simps [simp]:
  "login_of (ctx\<lparr>conn := x\<rparr>) = login_of ctx"
  "login_of (ctx\<lparr>closed_conns := cs\<rparr>) = login_of ctx"
  by (simp_all add: login_of_def cong: option.case_cong)

text \<open>The two authentication callbacks, which run \<open>Session_Auth\<close> on the same snapshot.\<close>

lemma PasswordHandler_login:
  assumes "tunnel dial" "context_inv ctx0" "PasswordHandler dial hs ctx0 pwd = Val (ctx', ok)"
  shows "User ctx' = User ctx0 \<and>
    (login_of ctx' = login_of ctx0 \<or> login_step (User ctx0) (login_of ctx0) (login_of ctx'))"
proof -
  obtain ctx sn where g: "getSnapshot ctx0 = (ctx, sn)" by (cases "getSnapshot ctx0")
  note ctx = getSnapshot_inv [OF assms(2) g] login_of_getSnapshot [OF g]
  show ?thesis
  proof (cases "snap_state sn < StateEvaluated")
    case True
    then show ?thesis
      using assms(3) ctx by (auto simp: PasswordHandler_def ObtainSession_eq [OF g] split: option.splits)
  next
    case False
    then obtain e where "Session_Auth dial hs ctx (AuthPassword pwd) = Val (ctx', e)"
      using assms(3) by (auto simp: PasswordHandler_def ObtainSession_eq [OF g] go_bind_Val_iff)
    from Session_Auth_login [OF assms(1) _ this] show ?thesis using ctx by simp
  qed
qed

lemma PublicKeyHandler_login:
  assumes "tunnel dial" "context_inv ctx0" "PublicKeyHandler dial hs ctx0 = Val (ctx', ok)"
  shows "User ctx' = User ctx0 \<and>
    (login_of ctx' = login_of ctx0 \<or> login_step (User ctx0) (login_of ctx0) (login_of ctx'))"
proof -
  obtain ctx sn where g: "getSnapshot ctx0 = (ctx, sn)" by (cases "getSnapshot ctx0")
  note ctx = getSnapshot_inv [OF assms(2) g] login_of_getSnapshot [OF g]
  show ?thesis
  proof (cases "snap_state sn < StateEvaluated")
    case True
    then show ?thesis using assms(3) ctx by (simp add: PublicKeyHandler_def ObtainSession_eq [OF g])
  next
    case False
    then obtain e where "Session_Auth dial hs ctx (AuthPassword ''any'') = Val (ctx', e)"
      using assms(3) by (auto simp: PublicKeyHandler_def ObtainSession_eq [OF g] go_bind_Val_iff)
    from Session_Auth_login [OF assms(1) _ this] show ?thesis using ctx by simp
  qed
qed

lemma client_inv_step: "client_step ctx ctx' \<Longrightarrow> client_inv user ctx \<Longrightarrow> client_inv user ctx'"
proof (induction rule: client_step.induct)
  case (connected ctx c)
  then show ?case by (simp add: client_inv_def ConnCallback_inv) (simp add: ConnCallback_def)
next
  case (banner dial ctx ctx' msg)
  then show ?case
    using banner_exact_aux [of ctx dial] BannerHandler_login [of dial ctx ctx' msg]
    by (auto simp: client_inv_def)
next
  case (password dial hs ctx pwd ctx' ok)
  then show ?case
    using PasswordHandler_inv [of ctx dial hs pwd] PasswordHandler_login [of dial ctx hs pwd ctx' ok]
    by (auto simp: client_inv_def)
next
  case (public_key dial hs ctx ctx' ok)
  then show ?case
    using PublicKeyHandler_inv [of ctx dial hs] PublicKeyHandler_login [of dial ctx hs ctx' ok]
    by (auto simp: client_inv_def)
qed

lemma client_simulates:
  "client_step ctx ctx' \<Longrightarrow> client_inv user ctx \<Longrightarrow>
   login_of ctx' = login_of ctx \<or> login_step user (login_of ctx) (login_of ctx')"
proof (induction rule: client_step.induct)
  case (connected ctx c)
  then show ?case by (simp add: ConnCallback_def)
qed (auto simp: client_inv_def dest: BannerHandler_login PasswordHandler_login PublicKeyHandler_login)

interpretation client: implements client_step "login_step user" "client_inv user" login_of
  for user
  by unfold_locales (fact client_inv_step, fact client_simulates)

section \<open>Properties\<close>

text \<open>Every connection of the protocol goes to the device the user name asks for.\<close>

fun goes_to :: "string \<Rightarrow> login \<Rightarrow> bool" where
  "goes_to user (Connected c) = (\<exists>t. NewTarget user = Inr t \<and> conn_target c = dial_id (Data t))"
| "goes_to user (LoggedIn c) = (\<exists>t. NewTarget user = Inr t \<and> conn_target c = dial_id (Data t))"
| "goes_to user Unreached = (\<exists>t. NewTarget user = Inr t)"
| "goes_to user l = True"

lemma goes_to_step: "login_step user l l' \<Longrightarrow> goes_to user l \<Longrightarrow> goes_to user l'"
  by (induction rule: login_step.induct) auto

text \<open>
  C4. The server's callbacks implement the login protocol. Whatever callbacks a client's
  connection drives, in whatever order and with whatever answers of the tunnels and the agents, its
  context moves only along the protocol's steps; so a client that is logged in is so over
  a connection to the device its user name asks for, and was connected to it, or had been
  refused, before.
\<close>

theorem server_implements_login:
  assumes "client_step\<^sup>*\<^sup>* (new_context user remote sid) ctx"
  shows "(login_step user)\<^sup>*\<^sup>* Anonymous (login_of ctx) \<and> goes_to user (login_of ctx) \<and>
    (\<forall>ctx' c. client_step ctx ctx' \<and> login_of ctx' = LoggedIn c \<longrightarrow>
       login_of ctx \<in> {LoggedIn c, Connected c, Dropped})"
proof (intro conjI allI impI)
  let ?c0 = "new_context user remote sid"
  have init: "client_inv user ?c0" using new_context_inv by (simp add: client_inv_def new_context_def)
  have anon: "login_of ?c0 = Anonymous" by (simp add: login_of_def new_context_def)
  show "(login_step user)\<^sup>*\<^sup>* Anonymous (login_of ctx)"
    using client.run_simulates [OF assms init] anon by simp
  show "goes_to user (login_of ctx)"
    by (rule client.abstract_invariant [OF assms init]) (simp_all add: anon goes_to_step)
  fix ctx' c assume s: "client_step ctx ctx' \<and> login_of ctx' = LoggedIn c"
  have "login_of ctx' = login_of ctx \<or> login_step user (login_of ctx) (login_of ctx')"
    using client.simulates client.run_inv [OF assms init] s by blast
  then show "login_of ctx \<in> {LoggedIn c, Connected c, Dropped}"
    using s by (auto elim: login_step.cases)
qed

theorem server_implements_login_witness:
  "\<exists>ctx. client_step\<^sup>*\<^sup>* (new_context ''root@dev'' ''10.0.0.1:5000'' ''s1'') ctx \<and>
     goes_to ''root@dev'' (login_of ctx)"
proof -
  let ?c0 = "new_context ''root@dev'' ''10.0.0.1:5000'' ''s1''"
  have "tunnel demo_dial" by unfold_locales (auto simp: demo_dial_def)
  moreover obtain ctx msg where "BannerHandler demo_dial ?c0 = Val (ctx, msg)"
    using banner_exact_aux [OF new_context_inv] by metis
  ultimately have "client_step\<^sup>*\<^sup>* ?c0 ctx" using client_step.banner by blast
  then show ?thesis using server_implements_login by blast
qed

text \<open>
  C27. Every session a client's callbacks ever make is well formed, and no pointer dangles: each
  stored session carries the client's user name and identifier, its target is what the name
  parses to, its device is the target's, and it has an address given out before; and when
  the snapshot names a session, that session is stored.
\<close>

theorem sessions_well_formed:
  assumes "client_step\<^sup>*\<^sup>* (new_context user remote sid) ctx" "store ctx a = Some s"
  shows "SSHID s = user \<and> UID s = SessionID ctx \<and> NewTarget user = Inr (Target_of s) \<and>
    Device_UID (Device_of s) = Data (Target_of s) \<and> a < next_addr ctx \<and>
    (\<forall>sn b. snap ctx = Some sn \<and> snap_session sn = Some b \<longrightarrow> store ctx b \<noteq> None)"
proof -
  have "client_inv user (new_context user remote sid)"
    using new_context_inv by (simp add: client_inv_def new_context_def)
  then have inv: "context_inv ctx" "User ctx = user"
    using client.run_inv [OF assms(1)] by (simp_all add: client_inv_def)
  then have "store_ok ctx" "snap_ok ctx" by (simp_all add: context_inv_def)
  then show ?thesis
    using assms(2) inv(2) by (fastforce simp: store_ok_def session_ok_def snap_ok_def)
qed

theorem sessions_well_formed_witness:
  "\<exists>ctx a s. client_step\<^sup>*\<^sup>* (new_context ''root@dev'' ''10.0.0.1:5000'' ''s1'') ctx \<and>
     store ctx a = Some s \<and> SSHID s = ''root@dev'' \<and> Device_UID (Device_of s) = ''dev''"
proof -
  let ?c0 = "new_context ''root@dev'' ''10.0.0.1:5000'' ''s1''"
  have "tunnel demo_dial" by unfold_locales (auto simp: demo_dial_def)
  moreover obtain ctx msg where b: "BannerHandler demo_dial ?c0 = Val (ctx, msg)"
    "msg = [] \<longleftrightarrow> banner_accepts demo_dial ?c0"
    "msg = [] \<Longrightarrow> \<exists>c. evaluated_with ctx c"
    using banner_exact_aux [OF new_context_inv] by metis
  ultimately have run: "client_step\<^sup>*\<^sup>* ?c0 ctx" using client_step.banner by blast
  have t: "NewTarget ''root@dev'' = Inr \<lparr>Username = ''root'', Data = ''dev''\<rparr>"
    using NewTarget_append [of "''root''" "''dev''"] by simp
  have "NewHost ''10.0.0.1:5000'' = Inr \<lparr>HostName = ''10.0.0.1''\<rparr>" by code_simp
  then have "banner_accepts demo_dial ?c0"
    using t by (simp add: banner_accepts_def new_context_def demo_dial_def)
  with b obtain c a s where "store ctx a = Some s" by (auto simp: evaluated_with_def)
  with sessions_well_formed [OF run this] run t show ?thesis by fastforce
qed

end
