(* ===== verification/Client_Isolation.thy ===== *)
theory Client_Isolation
  imports Login_Protocol
begin

text \<open>
  Many clients at one server (\<^verbatim>\<open>ssh/server/server.go\<close>). Each client's connection has a context
  of its own, and its callbacks work on that context; what the clients share is the tunnel,
  the registry of devices, which changes while they come and go, and the numbers yamux gives
  to the streams it opens. A callback is one step: it touches no other client's context, and
  its dial is the registry's atomic operation.
\<close>

section \<open>One callback over one tunnel\<close>

inductive callback :: "(string \<Rightarrow> go_error + streamConn) \<Rightarrow> Context \<Rightarrow> Context \<Rightarrow> bool" for dial where
  connected: "callback dial ctx (fst (ConnCallback ctx c))"
| banner: "BannerHandler dial ctx = Val (ctx', msg) \<Longrightarrow> callback dial ctx ctx'"
| password: "PasswordHandler dial hs ctx pwd = Val (ctx', ok) \<Longrightarrow> callback dial ctx ctx'"
| public_key: "PublicKeyHandler dial hs ctx = Val (ctx', ok) \<Longrightarrow> callback dial ctx ctx'"

lemma callback_client_step: "callback dial ctx ctx' \<Longrightarrow> tunnel dial \<Longrightarrow> client_step ctx ctx'"
  by (induction rule: callback.induct) (auto intro: client_step.intros)

text \<open>
  What a callback does to the connections of a client's sessions: it changes at most one, and
  leaves it, drops it or sets it to one that it has dialled to the client's device.
\<close>

definition rewires ::
  "(string \<Rightarrow> go_error + streamConn) \<Rightarrow> addr \<Rightarrow> Context \<Rightarrow> Context \<Rightarrow> bool" where
  "rewires dial a ctx ctx' \<longleftrightarrow> User ctx' = User ctx \<and>
     (\<forall>b. b \<noteq> a \<longrightarrow> connection ctx' b = connection ctx b) \<and>
     (connection ctx' a = connection ctx a \<or> connection ctx' a = None \<or>
        (\<exists>t c. NewTarget (User ctx) = Inr t \<and> dial (dial_id (Data t)) = Inr c \<and>
           connection ctx' a = Some c))"

lemma rewires_refl:
  "connection ctx' = connection ctx \<Longrightarrow> User ctx' = User ctx \<Longrightarrow> rewires dial a ctx ctx'"
  by (simp add: rewires_def)

lemma rewires_trans:
  "rewires dial a ctx ctx1 \<Longrightarrow> rewires dial a ctx1 ctx2 \<Longrightarrow> rewires dial a ctx ctx2"
  by (auto simp: rewires_def)

lemma connection_store: "store ctx' = store ctx \<Longrightarrow> connection ctx' = connection ctx"
  by (simp add: connection_def fun_eq_iff)

lemma rewires_upd:
  assumes "\<And>s. Conn (Agent_of (f s)) = Conn (Agent_of s) \<or> Conn (Agent_of (f s)) = None \<or>
    (\<exists>t c. NewTarget (User ctx) = Inr t \<and> dial (dial_id (Data t)) = Inr c \<and>
       Conn (Agent_of (f s)) = Some c)"
  shows "rewires dial a ctx (upd_session a f ctx)"
proof (cases "store ctx a")
  case (Some s)
  then show ?thesis
    using assms [of s] by (simp add: rewires_def connection_def)
qed (simp add: rewires_def connection_def)

lemma Session_Dial_rewires:
  assumes inv: "context_inv ctx" and run: "Session_Dial dial ctx a = Val (ctx', e)"
  shows "rewires dial a ctx ctx'"
proof -
  from run obtain s where s: "store ctx a = Some s"
    by (auto simp: Session_Dial_def go_bind_Val_iff deref_def split: option.splits)
  then have t: "NewTarget (User ctx) = Inr (Target_of s)"
    "Device_UID (Device_of s) = Data (Target_of s)"
    using inv by (auto simp: inv_defs)
  show ?thesis
  proof (cases "dial (dial_id (Device_UID (Device_of s)))")
    case (Inl err)
    then show ?thesis using run by (simp add: Session_Dial_simps(1) [OF s] rewires_refl)
  next
    case (Inr c)
    then have "ctx' = upd_session a (\<lambda>s. s\<lparr>Agent_of := (Agent_of s)\<lparr>Conn := Some c\<rparr>\<rparr>) ctx"
      using run s by (simp add: Session_Dial_simps)
    moreover have "rewires dial a ctx \<dots>" by (rule rewires_upd) (use Inr t in auto)
    ultimately show ?thesis by simp
  qed
qed

lemma auth_connect_rewires:
  assumes run: "auth_connect hs cfg ctx a = Val (ctx', e)"
  shows "rewires dial a ctx ctx'"
proof -
  from run obtain s c where s: "store ctx a = Some s" "Conn (Agent_of s) = Some c"
    by (auto simp: auth_connect_def go_bind_Val_iff deref_def split: option.splits)
  show ?thesis
  proof (cases "hs c cfg")
    case (Inl err)
    then have "ctx' = upd_session a (\<lambda>s. s\<lparr>Agent_of := (Agent_of s)\<lparr>Conn := None\<rparr>\<rparr>) ctx"
      using run s by (simp add: auth_connect_simps)
    moreover have "rewires dial a ctx \<dots>" by (rule rewires_upd) simp
    ultimately show ?thesis by simp
  next
    case (Inr p)
    obtain cl rq where "p = (cl, rq)" by (cases p)
    then have "ctx' = save (Some a) StateFinished (upd_session a
        (\<lambda>s. s\<lparr>Agent_of := (Agent_of s)\<lparr>Client := Some cl, Requests := Some rq\<rparr>\<rparr>) ctx)"
      using run s Inr by (simp add: auth_connect_simps)
    then show ?thesis using s by (intro rewires_refl) (auto simp: connection_def)
  qed
qed

lemma getSnapshot_rewires: "getSnapshot ctx = (ctx', sn) \<Longrightarrow> rewires dial a ctx ctx'"
  by (rule rewires_refl [OF connection_store])
     (auto simp: getSnapshot_def Let_def split: option.splits)

lemma Session_Auth_rewires:
  assumes inv0: "context_inv ctx0" and run: "Session_Auth dial hs ctx0 am = Val (ctx', e)"
  shows "\<exists>a. rewires dial a ctx0 ctx'"
proof -
  obtain ctx sn where g: "getSnapshot ctx0 = (ctx, sn)" by (cases "getSnapshot ctx0")
  note same = getSnapshot_rewires [OF g, of dial]
  have inv: "context_inv ctx" using getSnapshot_inv [OF inv0 g] by simp
  have own: ?thesis if "rewires dial a ctx ctx'" for a
    using rewires_trans [OF same that] by blast
  show ?thesis
  proof (cases "ctx' = ctx")
    case False
    then obtain s where s: "deref ctx (snap_session sn) = Val s"
      "(case auth_Auth am s \<lparr>cfg_User = Username (Target_of s), cfg_Auth = []\<rparr> of
          Inl err \<Rightarrow> Val (ctx, Some err)
        | Inr cfg \<Rightarrow>
            if Conn (Agent_of s) = None then
              go_bind (Session_Dial dial ctx (the (snap_session sn))) (\<lambda>(ctx', err).
                case err of
                  Some e \<Rightarrow> Val (ctx', Some e)
                | None \<Rightarrow> auth_connect hs cfg ctx' (the (snap_session sn)))
            else auth_connect hs cfg ctx (the (snap_session sn))) = Val (ctx', e)"
      using run
      by (simp add: Session_Auth_def g retrieve_def go_bind_Val_iff split: if_splits) blast
    then obtain cfg where cfg:
      "auth_Auth am s \<lparr>cfg_User = Username (Target_of s), cfg_Auth = []\<rparr> = Inr cfg"
      using False
      by (cases "auth_Auth am s \<lparr>cfg_User = Username (Target_of s), cfg_Auth = []\<rparr>") auto
    show ?thesis
    proof (cases "Conn (Agent_of s)")
      case (Some c)
      then have "auth_connect hs cfg ctx (the (snap_session sn)) = Val (ctx', e)"
        using s(2) cfg by simp
      then show ?thesis by (rule own [OF auth_connect_rewires])
    next
      case None
      then obtain ctx1 e1 where d: "Session_Dial dial ctx (the (snap_session sn)) = Val (ctx1, e1)"
        "(case e1 of Some e \<Rightarrow> Val (ctx1, Some e)
          | None \<Rightarrow> auth_connect hs cfg ctx1 (the (snap_session sn))) = Val (ctx', e)"
        using s(2) cfg by (auto simp: go_bind_Val_iff)
      have "rewires dial (the (snap_session sn)) ctx1 ctx'"
        using d(2) auth_connect_rewires [of hs cfg ctx1 _ ctx' e dial]
        by (cases e1) (auto intro: rewires_refl)
      then show ?thesis by (rule own [OF rewires_trans [OF Session_Dial_rewires [OF inv d(1)]]])
    qed
  qed (use same in blast)
qed

lemma NewSession_rewires:
  assumes "context_inv ctx" "NewSession ctx = (ctx', r)"
  shows "\<exists>a. rewires dial a ctx ctx' \<and> (\<forall>b. r = Inr b \<longrightarrow> b = a)"
  using assms(2)
  by (auto simp: NewSession_def Let_def getSnapshot_def rewires_def connection_def fresh_session_def
      intro!: exI [of _ "next_addr ctx"] split: sum.splits option.splits)

lemma BannerHandler_rewires:
  assumes inv: "context_inv ctx" and run: "BannerHandler dial ctx = Val (ctx', msg)"
  shows "\<exists>a. rewires dial a ctx ctx'"
proof (cases "NewSession ctx")
  case (Pair ctx1 r)
  obtain a where a: "rewires dial a ctx ctx1" "\<And>b. r = Inr b \<Longrightarrow> b = a"
    using NewSession_rewires [OF inv Pair] by blast
  show ?thesis
  proof (cases r)
    case (Inl e)
    then show ?thesis using a Pair run by (auto simp: BannerHandler_error)
  next
    case (Inr b)
    then have b: "b = a" using a(2) by simp
    obtain ctx2 e where d: "Session_Dial dial ctx1 a = Val (ctx2, e)"
      "ctx' = ctx2 \<or> ctx' = fst (Session_Evaluate ctx2 a)"
      using run Pair Inr b
      by (auto simp: BannerHandler_def go_bind_Val_iff split: if_splits prod.splits option.splits)
    have "store (fst (Session_Evaluate ctx2 a)) = store ctx2"
      "User (fst (Session_Evaluate ctx2 a)) = User ctx2"
      by (simp_all add: Session_Evaluate_def getSnapshot_def Let_def split: option.split)
    then have last: "rewires dial a ctx2 ctx'"
      using d(2) by (auto intro!: rewires_refl connection_store)
    have "context_inv ctx1" using NewSession_inv [OF inv Pair] by simp
    from rewires_trans [OF rewires_trans [OF a(1) Session_Dial_rewires [OF this d(1)]] last]
    show ?thesis by blast
  qed
qed

lemma callback_rewires:
  "callback dial ctx ctx' \<Longrightarrow> context_inv ctx \<Longrightarrow> \<exists>a. rewires dial a ctx ctx'"
proof (induction rule: callback.induct)
  case (connected ctx c)
  show ?case by (simp add: ConnCallback_def rewires_refl)
next
  case (banner ctx ctx' msg)
  then show ?case by (rule_tac BannerHandler_rewires)
next
  case (password hs ctx pwd ctx' ok)
  obtain ctx1 sn where g: "getSnapshot ctx = (ctx1, sn)" by (cases "getSnapshot ctx")
  have inv1: "context_inv ctx1" using getSnapshot_inv [OF _ g] password(2) by simp
  note same = getSnapshot_rewires [OF g, of dial]
  show ?case
  proof (cases "snap_state sn < StateEvaluated")
    case True
    then have "connection ctx' = connection ctx1 \<and> User ctx' = User ctx1"
      using password by (auto simp: PasswordHandler_def ObtainSession_eq [OF g] split: option.splits)
    then show ?thesis using rewires_trans [OF same rewires_refl] by blast
  next
    case False
    then obtain e where "Session_Auth dial hs ctx1 (AuthPassword pwd) = Val (ctx', e)"
      using password by (auto simp: PasswordHandler_def ObtainSession_eq [OF g] go_bind_Val_iff)
    then show ?thesis using Session_Auth_rewires [OF inv1] rewires_trans [OF same] by blast
  qed
next
  case (public_key hs ctx ctx' ok)
  obtain ctx1 sn where g: "getSnapshot ctx = (ctx1, sn)" by (cases "getSnapshot ctx")
  have inv1: "context_inv ctx1" using getSnapshot_inv [OF _ g] public_key(2) by simp
  note same = getSnapshot_rewires [OF g, of dial]
  show ?case
  proof (cases "snap_state sn < StateEvaluated")
    case True
    then show ?thesis
      using public_key same by (auto simp: PublicKeyHandler_def ObtainSession_eq [OF g])
  next
    case False
    then obtain e where "Session_Auth dial hs ctx1 (AuthPassword ''any'') = Val (ctx', e)"
      using public_key by (auto simp: PublicKeyHandler_def ObtainSession_eq [OF g] go_bind_Val_iff)
    then show ?thesis using Session_Auth_rewires [OF inv1] rewires_trans [OF same] by blast
  qed
qed

section \<open>All clients\<close>

text \<open>
  The server's clients, by number, and the streams opened so far. A session of yamux refuses
  to open a stream, or opens one that is new.
\<close>

record serving =
  client_ctx :: "nat \<Rightarrow> Context"
  streams_opened :: handle

definition yamux_open :: "(sess \<rightharpoonup> go_error) \<Rightarrow> handle \<Rightarrow> sess \<Rightarrow> go_error + handle" where
  "yamux_open refuses n s = (case refuses s of Some e \<Rightarrow> Inl e | None \<Rightarrow> Inr n)"

text \<open>At each callback the registry and what its sessions answer may be anything.\<close>

inductive serving_step :: "serving \<Rightarrow> serving \<Rightarrow> bool" where
  serve: "callback (registry_dial (yamux_open refuses (streams_opened w)) m) (client_ctx w i) ctx' \<Longrightarrow>
    serving_step w (w\<lparr>client_ctx := (client_ctx w)(i := ctx'), streams_opened := streams_opened w + 1\<rparr>)"

definition start_serving :: "(nat \<Rightarrow> string) \<Rightarrow> (nat \<Rightarrow> string) \<Rightarrow> (nat \<Rightarrow> string) \<Rightarrow> serving" where
  "start_serving user remote sid =
     \<lparr>client_ctx = (\<lambda>i. new_context (user i) (remote i) (sid i)), streams_opened = 0\<rparr>"

lemma yamux_dial_stream:
  "registry_dial (yamux_open refuses n) m d = Inr c \<Longrightarrow> stream c = n"
  by (auto simp: registry_dial_Inr yamux_open_def split: option.splits)

text \<open>
  The invariant: each client's context is one it could have reached alone, its sessions are
  connected to its device, and the sessions of all clients hold different streams, all of
  them opened before.
\<close>

definition holds :: "serving \<Rightarrow> nat \<times> addr \<Rightarrow> handle option" where
  "holds w p = map_option stream (connection (client_ctx w (fst p)) (snd p))"

definition serving_inv ::
  "(nat \<Rightarrow> string) \<Rightarrow> (nat \<Rightarrow> string) \<Rightarrow> (nat \<Rightarrow> string) \<Rightarrow> serving \<Rightarrow> bool" where
  "serving_inv user remote sid w \<longleftrightarrow>
     (\<forall>i. client_step\<^sup>*\<^sup>* (new_context (user i) (remote i) (sid i)) (client_ctx w i)) \<and>
     (\<forall>i a c. connection (client_ctx w i) a = Some c \<longrightarrow>
        (\<exists>t. NewTarget (user i) = Inr t \<and> conn_target c = dial_id (Data t))) \<and>
     (\<forall>n \<in> ran (holds w). n < streams_opened w) \<and> inj_on (holds w) (dom (holds w))"

text \<open>A map whose entries differ stays so when one entry gets a value that is not in it.\<close>

lemma inj_on_entry:
  assumes "inj_on m (dom m)" "m' = m(p := x)" "x = m p \<or> x \<notin> Some ` ran m"
  shows "inj_on m' (dom m')"
proof (cases "x = m p")
  case False
  then have "x \<noteq> m q" if "q \<in> dom m" for q using assms(3) that by (auto simp: ran_def)
  then show ?thesis
    using assms(1) unfolding assms(2) inj_on_def by (auto simp: domIff split: if_splits) metis+
qed (use assms in simp)

lemma serving_inv_start: "serving_inv user remote sid (start_serving user remote sid)"
proof -
  have "holds (start_serving user remote sid) = Map.empty"
    by (simp add: fun_eq_iff holds_def start_serving_def connection_def new_context_def)
  then show ?thesis
    by (simp add: serving_inv_def) (simp add: start_serving_def connection_def new_context_def)
qed

lemma client_run_inv:
  "client_step\<^sup>*\<^sup>* (new_context user remote sid) ctx \<Longrightarrow> context_inv ctx \<and> User ctx = user"
proof (induction rule: rtranclp_induct)
  case base
  show ?case using new_context_inv by (simp add: new_context_def)
next
  case (step ctx ctx')
  then show ?case using client_inv_step [of ctx ctx' user] by (simp add: client_inv_def)
qed

lemma serving_inv_step:
  assumes "serving_step w w'" and inv: "serving_inv user remote sid w"
  shows "serving_inv user remote sid w'"
  using assms(1)
proof (cases rule: serving_step.cases)
  case (serve refuses m i ctx')
  let ?dial = "registry_dial (yamux_open refuses (streams_opened w)) m"
  have runs: "client_step\<^sup>*\<^sup>* (new_context (user j) (remote j) (sid j)) (client_ctx w j)" for j
    using inv by (simp add: serving_inv_def)
  have dial: "tunnel ?dial" by unfold_locales (simp add: registry_dial_Inr)
  then have "client_step (client_ctx w i) ctx'" using serve(2) by (rule_tac callback_client_step)
  then have runs': "client_step\<^sup>*\<^sup>* (new_context (user j) (remote j) (sid j)) (client_ctx w' j)" for j
    using runs [of j] serve(1) by auto
  obtain a where a: "rewires ?dial a (client_ctx w i) ctx'"
    using callback_rewires [OF serve(2)] client_run_inv [OF runs] by blast
  let ?x = "map_option stream (connection ctx' a)"
  have new: "?x = holds w (i, a) \<or> ?x = None \<or> ?x = Some (streams_opened w)"
    using a yamux_dial_stream [of refuses "streams_opened w" m]
    by (auto simp: rewires_def holds_def)
  have upd: "holds w' = (holds w)((i, a) := ?x)"
    using a serve(1) by (auto simp: fun_eq_iff holds_def rewires_def)
  have "\<exists>t. NewTarget (user j) = Inr t \<and> conn_target c = dial_id (Data t)"
    if c: "connection (client_ctx w' j) b = Some c" for j b c
  proof (cases "connection (client_ctx w j) b = Some c")
    case True
    then show ?thesis using inv by (auto simp: serving_inv_def)
  next
    case False
    then have "j = i" "b = a" using a c serve(1) by (auto simp: rewires_def split: if_splits)
    with False show ?thesis
      using a c serve(1) client_run_inv [OF runs [of i]] tunnel.dial_target [OF dial]
      by (auto simp: rewires_def)
  qed
  moreover have "streams_opened w \<notin> ran (holds w)" using inv by (auto simp: serving_inv_def)
  then have "?x = holds w (i, a) \<or> ?x \<notin> Some ` ran (holds w)" using new by auto
  then have "inj_on (holds w') (dom (holds w'))"
    using inv upd by (intro inj_on_entry [OF _ upd]) (simp_all add: serving_inv_def)
  moreover have "n < streams_opened w'" if n: "n \<in> ran (holds w')" for n
  proof -
    obtain q where "holds w' q = Some n" using n by (auto simp: ran_def)
    then have "n \<in> ran (holds w) \<or> n = streams_opened w"
      using new by (cases "q = (i, a)") (auto simp: upd intro: ranI)
    then show ?thesis using inv serve(1) by (auto simp: serving_inv_def)
  qed
  ultimately show ?thesis using runs' by (simp add: serving_inv_def)
qed

lemma serving_inv_run:
  "serving_step\<^sup>*\<^sup>* (start_serving user remote sid) w \<Longrightarrow> serving_inv user remote sid w"
  by (induction rule: rtranclp_induct) (auto intro: serving_inv_start serving_inv_step)

lemma holds_unique: "serving_inv user remote sid w \<Longrightarrow> holds w p = Some n \<Longrightarrow> holds w q = Some n \<Longrightarrow> p = q"
  by (metis serving_inv_def domI inj_onD)

text \<open>
  C6. Clients do not disturb one another. In every interleaving of their callbacks, while
  devices come and go, what has become of a client could have become of it alone; and the
  connection of each of its sessions goes to the device its own user name asks for, over a
  stream that no other session holds, of this client or of another.
\<close>

theorem clients_isolated:
  assumes "serving_step\<^sup>*\<^sup>* (start_serving user remote sid) w"
    and "connection (client_ctx w i) a = Some c" "connection (client_ctx w j) b = Some c'"
  shows "client_step\<^sup>*\<^sup>* (new_context (user i) (remote i) (sid i)) (client_ctx w i) \<and>
    (\<exists>t. NewTarget (user i) = Inr t \<and> conn_target c = dial_id (Data t)) \<and>
    ((i, a) \<noteq> (j, b) \<longrightarrow> stream c \<noteq> stream c')"
proof -
  have inv: "serving_inv user remote sid w" by (rule serving_inv_run [OF assms(1)])
  have "(i, a) = (j, b)" if "stream c = stream c'"
    using holds_unique [OF inv, of "(i, a)" "stream c" "(j, b)"] assms(2,3) that
    by (simp add: holds_def)
  with inv assms(2) show ?thesis by (auto simp: serving_inv_def)
qed

text \<open>Two clients of one device, who are connected one after the other.\<close>

lemma demo_serves:
  assumes "client_ctx w i = new_context ''root@dev'' ''10.0.0.1:5000'' ''s1''"
  shows "\<exists>w' a c. serving_step w w' \<and> connection (client_ctx w' i) a = Some c \<and>
    (\<forall>j. j \<noteq> i \<longrightarrow> client_ctx w' j = client_ctx w j)"
proof -
  let ?ctx = "client_ctx w i" and ?m = "AddDevice NewDeviceManager ''default:dev'' 4"
  let ?dial = "registry_dial (yamux_open Map.empty (streams_opened w)) ?m"
  have "NewTarget ''root@dev'' = Inr \<lparr>Username = ''root'', Data = ''dev''\<rparr>"
    using NewTarget_append [of "''root''" "''dev''"] by simp
  moreover have "NewHost ''10.0.0.1:5000'' = Inr \<lparr>HostName = ''10.0.0.1''\<rparr>" by code_simp
  moreover have "dial_id ''dev'' = ''default:dev''" by code_simp
  moreover have "?dial ''default:dev'' =
      Inr \<lparr>stream = streams_opened w, conn_target = ''default:dev''\<rparr>"
    by (simp add: registry_dial_Inr yamux_open_def)
  ultimately have "banner_accepts ?dial ?ctx"
    by (simp add: banner_accepts_def assms) (simp add: new_context_def)
  then obtain ctx' msg where b: "BannerHandler ?dial ?ctx = Val (ctx', msg)"
    "\<exists>c. evaluated_with ctx' c"
    using banner_exact_aux [OF new_context_inv] unfolding assms by metis
  then obtain a s c where "store ctx' a = Some s" "Conn (Agent_of s) = Some c"
    by (auto simp: evaluated_with_def)
  then have c: "connection ctx' a = Some c" by (simp add: connection_def)
  show ?thesis
    by (rule exI, rule exI [of _ a], rule exI [of _ c], rule conjI, rule serve [OF banner [OF b(1)]])
       (simp add: c)
qed

theorem clients_isolated_witness:
  "\<exists>w a b c c'. serving_step\<^sup>*\<^sup>*
       (start_serving (\<lambda>_. ''root@dev'') (\<lambda>_. ''10.0.0.1:5000'') (\<lambda>_. ''s1'')) w \<and>
     connection (client_ctx w 0) a = Some c \<and> connection (client_ctx w 1) b = Some c' \<and>
     stream c \<noteq> stream c'"
proof -
  let ?w = "start_serving (\<lambda>_. ''root@dev'') (\<lambda>_. ''10.0.0.1:5000'') (\<lambda>_. ''s1'')"
  obtain w1 a c where w1: "serving_step ?w w1" "connection (client_ctx w1 0) a = Some c"
    "\<forall>j. j \<noteq> 0 \<longrightarrow> client_ctx w1 j = client_ctx ?w j"
    using demo_serves [of ?w 0] by (auto simp: start_serving_def)
  obtain w2 b c' where w2: "serving_step w1 w2" "connection (client_ctx w2 1) b = Some c'"
    "\<forall>j. j \<noteq> 1 \<longrightarrow> client_ctx w2 j = client_ctx w1 j"
    using demo_serves [of w1 1] w1(3) by (auto simp: start_serving_def)
  have run: "serving_step\<^sup>*\<^sup>* ?w w2" using w1(1) w2(1) by simp
  have c: "connection (client_ctx w2 0) a = Some c" using w1(2) w2(3) by simp
  have "stream c \<noteq> stream c'" using clients_isolated [OF run c w2(2)] by simp
  with run c w2(2) show ?thesis by blast
qed

end
