(* ===== verification/Relay_Chain.thy ===== *)
theory Relay_Chain
  imports Schedules
begin

text \<open>
  Data that passes through several copying goroutines in a row. Between two of them lies a
  link, with the pieces that the next one has not taken yet and whether the end of the data
  stands behind them. A copy takes the pieces one by one; at the end of its source it passes
  the end on only if the code closes what it writes to.
\<close>

type_synonym 'd link = "'d list \<times> bool"

definition start_chain :: "'d list \<Rightarrow> nat \<Rightarrow> 'd link list" where
  "start_chain ds n = (ds, True) # replicate n ([], False)"

text \<open>The \<open>i\<close>-th copy moves a piece, or passes the end on. \<open>hops\<close> says which copies do that.\<close>

fun move_piece :: "nat \<Rightarrow> 'd link list \<Rightarrow> 'd link list option" where
  "move_piece 0 ((d # ds, e) # (q, f) # ls) = Some ((ds, e) # (q @ [d], f) # ls)"
| "move_piece (Suc i) (l # ls) = map_option ((#) l) (move_piece i ls)"
| "move_piece _ _ = None"

fun pass_end :: "bool list \<Rightarrow> nat \<Rightarrow> 'd link list \<Rightarrow> 'd link list option" where
  "pass_end (True # hops) 0 (([], True) # (q, False) # ls) = Some (([], True) # (q, True) # ls)"
| "pass_end (h # hops) (Suc i) (l # ls) = map_option ((#) l) (pass_end hops i ls)"
| "pass_end _ _ _ = None"

datatype chain_event = Moves nat | PassesEnd nat

fun chain_act :: "bool list \<Rightarrow> chain_event \<Rightarrow> 'd link list \<Rightarrow> 'd link list option" where
  "chain_act hops (Moves i) ls = move_piece i ls"
| "chain_act hops (PassesEnd i) ls = pass_end hops i ls"

definition chain_step :: "bool list \<Rightarrow> 'd link list \<Rightarrow> 'd link list \<Rightarrow> bool" where
  "chain_step hops ls ls' \<longleftrightarrow> (\<exists>e. chain_act hops e ls = Some ls')"

interpretation chain: schedules "chain_act hops" "chain_step hops" for hops
  by unfold_locales (simp add: chain_step_def)

text \<open>What has arrived at the end of the chain.\<close>

definition arrived :: "'d link list \<Rightarrow> 'd list" where
  "arrived ls = fst (last ls)"

definition end_arrived :: "'d link list \<Rightarrow> bool" where
  "end_arrived ls \<longleftrightarrow> snd (last ls)"

section \<open>The invariant\<close>

text \<open>
  Nothing is lost, doubled or overtaken; and the end of a link's data has been passed on
  only by a copy that does so, after everything before it.
\<close>

definition in_order :: "'d link list \<Rightarrow> 'd list" where
  "in_order ls = concat (map fst (rev ls))"

fun chain_ok :: "bool list \<Rightarrow> 'd link list \<Rightarrow> bool" where
  "chain_ok [] [l] = True"
| "chain_ok (h # hops) (l # l' # ls) =
     ((snd l' \<longrightarrow> h \<and> snd l \<and> fst l = []) \<and> chain_ok hops (l' # ls))"
| "chain_ok _ _ = False"

lemma move_piece_order: "move_piece i ls = Some ls' \<Longrightarrow> in_order ls' = in_order ls"
  by (induction i ls arbitrary: ls' rule: move_piece.induct) (auto simp: in_order_def)

lemma pass_end_order: "pass_end hops i ls = Some ls' \<Longrightarrow> in_order ls' = in_order ls"
  by (induction hops i ls arbitrary: ls' rule: pass_end.induct) (auto simp: in_order_def)

text \<open>A piece moves only while its own link's data has not ended for the next copy.\<close>

lemma move_piece_ok:
  "move_piece i ls = Some ls' \<Longrightarrow> chain_ok hops ls \<Longrightarrow>
   chain_ok hops ls' \<and> map snd ls' = map snd ls \<and> (fst (hd ls) = [] \<longrightarrow> fst (hd ls') = [])"
proof (induction i ls arbitrary: hops ls' rule: move_piece.induct)
  case (1 d ds e q f ls)
  then obtain h hs where hops: "hops = h # hs" by (cases hops) auto
  show ?case using 1 hops by (cases hs; cases ls) auto
next
  case (2 i l ls)
  then obtain us where us: "move_piece i ls = Some us" "ls' = l # us" by auto
  obtain h hs l' ks where c: "hops = h # hs" "ls = l' # ks"
    using 2(3) us(1) by (cases hops; cases ls) auto
  then have "chain_ok hs ls" using 2(3) by simp
  with 2(1) us(1) have IH: "chain_ok hs us" "map snd us = map snd ls"
    "fst (hd ls) = [] \<longrightarrow> fst (hd us) = []" by auto
  then obtain u vs where "us = u # vs" "snd u = snd l'" using c by (cases us) auto
  then show ?case using 2(3) c us IH by auto
qed auto

lemma pass_end_ok:
  "pass_end hops i ls = Some ls' \<Longrightarrow> chain_ok hops ls \<Longrightarrow>
   chain_ok hops ls' \<and> map fst ls' = map fst ls \<and> snd (hd ls') = snd (hd ls)"
proof (induction hops i ls arbitrary: ls' rule: pass_end.induct)
  case (1 hops q ls)
  then show ?case by (cases hops; cases ls) auto
next
  case (2 h hops i l ls)
  then obtain us where us: "pass_end hops i ls = Some us" "ls' = l # us" by auto
  obtain l' ks where c: "ls = l' # ks" using 2(3) us(1) by (cases ls) auto
  then have "chain_ok hops ls" using 2(3) by simp
  with 2(1) us(1) have IH: "chain_ok hops us" "map fst us = map fst ls" "snd (hd us) = snd (hd ls)"
    by auto
  then obtain u vs where "us = u # vs" "snd u = snd l'" using c by (cases us) auto
  then show ?case using 2(3) c us IH by auto
qed auto

definition chain_inv :: "bool list \<Rightarrow> 'd list \<Rightarrow> 'd link list \<Rightarrow> bool" where
  "chain_inv hops ds ls \<longleftrightarrow> chain_ok hops ls \<and> in_order ls = ds \<and> snd (hd ls)"

lemma chain_ok_length: "chain_ok hops ls \<Longrightarrow> length ls = Suc (length hops)"
  by (induction hops ls rule: chain_ok.induct) auto

lemma chain_ok_start: "chain_ok hops ((ds, e) # replicate (length hops) ([], False))"
  by (induction hops arbitrary: ds e) auto

lemma chain_inv_start: "chain_inv hops ds (start_chain ds (length hops))"
proof -
  have "concat (replicate n []) = []" for n by (induction n) auto
  then show ?thesis
    by (simp add: chain_inv_def start_chain_def chain_ok_start in_order_def)
qed

lemma chain_inv_act: "chain_act hops e ls = Some ls' \<Longrightarrow> chain_inv hops ds ls \<Longrightarrow> chain_inv hops ds ls'"
proof (cases e)
  case (Moves i)
  assume "chain_act hops e ls = Some ls'" "chain_inv hops ds ls"
  with Moves have m: "move_piece i ls = Some ls'" and inv: "chain_ok hops ls" "in_order ls = ds" "snd (hd ls)"
    by (simp_all add: chain_inv_def)
  from move_piece_ok [OF m inv(1)] have "chain_ok hops ls'" "map snd ls' = map snd ls" by simp_all
  moreover from this(2) have "snd (hd ls') = snd (hd ls)" by (cases ls; cases ls') (use m in auto)
  ultimately show ?thesis using inv move_piece_order [OF m] by (simp add: chain_inv_def)
next
  case (PassesEnd i)
  assume "chain_act hops e ls = Some ls'" "chain_inv hops ds ls"
  with PassesEnd show ?thesis
    using pass_end_ok [of hops i ls ls'] pass_end_order [of hops i ls ls'] by (simp add: chain_inv_def)
qed

lemma chain_inv_run:
  "(chain_step hops)\<^sup>*\<^sup>* (start_chain ds (length hops)) ls \<Longrightarrow> chain_inv hops ds ls"
  by (erule chain.invariant) (auto intro: chain_inv_start chain_inv_act)

section \<open>Every run ends\<close>

text \<open>A piece has as many moves left as there are copies before it, and each copy passes one end on.\<close>

fun chain_left :: "'d link list \<Rightarrow> nat" where
  "chain_left [] = 0"
| "chain_left (l # ls) = length (fst l) * length ls + (if snd l then 0 else 1) + chain_left ls"

lemma move_piece_left: "move_piece i ls = Some ls' \<Longrightarrow> chain_left ls' < chain_left ls \<and> length ls' = length ls"
  by (induction i ls arbitrary: ls' rule: move_piece.induct) auto

lemma pass_end_left: "pass_end hops i ls = Some ls' \<Longrightarrow> chain_left ls' < chain_left ls \<and> length ls' = length ls"
  by (induction hops i ls arbitrary: ls' rule: pass_end.induct) auto

lemma chain_act_left: "chain_act hops e ls = Some ls' \<Longrightarrow> chain_left ls' < chain_left ls"
  by (cases e) (auto dest: move_piece_left pass_end_left)

lemma chain_left_start: "chain_left (start_chain ds n) = length ds * n + n"
proof -
  have "chain_left (replicate n ([], False)) = n" for n by (induction n) auto
  then show ?thesis by (simp add: start_chain_def)
qed

text \<open>
  Where nothing can go on, all data has arrived, and the end of the data too exactly if every
  copy passes it on.
\<close>

lemma no_moves_empty:
  "(\<And>i. move_piece i ls = None) \<Longrightarrow> \<forall>l \<in> set (butlast ls). fst l = []"
proof (induction ls)
  case (Cons l ls)
  show ?case
  proof (cases ls)
    case (Cons l' ks)
    have "move_piece i ls = None" for i using Cons.prems [of "Suc i"] by simp
    then have "\<forall>l \<in> set (butlast ls). fst l = []" by (rule Cons.IH)
    moreover have "fst l = []"
      using Cons.prems [of 0] \<open>ls = l' # ks\<close> by (cases l; cases l'; cases "fst l") auto
    ultimately show ?thesis using \<open>ls = l' # ks\<close> by simp
  qed simp
qed simp

lemma empty_in_order:
  assumes "\<forall>l \<in> set (butlast ls). fst l = []" "ls \<noteq> []"
  shows "in_order ls = arrived ls"
proof -
  have "ls = butlast ls @ [last ls]" using assms(2) by simp
  then have "in_order ls = fst (last ls) @ in_order (butlast ls)"
    by (metis (no_types, lifting) concat.simps(2) in_order_def list.simps(9) rev_append
        append_Cons append_Nil rev_singleton_conv)
  moreover have "in_order (butlast ls) = []" using assms(1) by (auto simp: in_order_def)
  ultimately show ?thesis by (simp add: arrived_def)
qed

lemma end_arrived_ok:
  "chain_ok hops ls \<Longrightarrow> end_arrived ls \<Longrightarrow>
   snd (hd ls) \<and> (\<forall>h \<in> set hops. h) \<and> (\<forall>l \<in> set (butlast ls). fst l = [])"
  by (induction hops ls rule: chain_ok.induct) (auto simp: end_arrived_def)

lemma no_pass_end:
  assumes "chain_ok hops ls" "snd (hd ls)" "\<forall>l \<in> set (butlast ls). fst l = []" "\<forall>h \<in> set hops. h"
    and "\<And>i. pass_end hops i ls = None"
  shows "end_arrived ls"
  using assms
proof (induction hops ls rule: chain_ok.induct)
  case (2 h hops l l' ls)
  have "pass_end hops i (l' # ls) = None" for i using 2(6) [of "Suc i"] by simp
  moreover have "snd l'" using 2(3-5) 2(6) [of 0] by (cases l; cases l'; cases "snd l'") auto
  ultimately show ?case using 2(1,2,4,5) by (cases ls) (auto simp: end_arrived_def)
qed (auto simp: end_arrived_def)

lemma chain_stuck:
  assumes inv: "chain_inv hops ds ls" and stuck: "\<nexists>ls'. chain_step hops ls ls'"
  shows "arrived ls = ds \<and> (end_arrived ls \<longleftrightarrow> (\<forall>h \<in> set hops. h))"
proof -
  have none: "chain_act hops e ls = None" for e
    using stuck chain.stuck_iff [of hops ls] by blast
  have "move_piece i ls = None" for i using none [of "Moves i"] by simp
  then have empty: "\<forall>l \<in> set (butlast ls). fst l = []" by (rule no_moves_empty)
  have "ls \<noteq> []" using inv chain_ok_length [of hops ls] by (auto simp: chain_inv_def)
  then have "arrived ls = ds" using empty_in_order [OF empty] inv by (simp add: chain_inv_def)
  moreover have "pass_end hops i ls = None" for i using none [of "PassesEnd i"] by simp
  ultimately show ?thesis
    using end_arrived_ok [of hops ls] no_pass_end [of hops ls] inv empty by (auto simp: chain_inv_def)
qed

lemma chain_end_complete:
  assumes "chain_inv hops ds ls" "end_arrived ls"
  shows "arrived ls = ds"
proof -
  have "ls \<noteq> []" using assms(1) chain_ok_length [of hops ls] by (auto simp: chain_inv_def)
  then show ?thesis
    using assms end_arrived_ok [of hops ls] empty_in_order [of ls] by (simp add: chain_inv_def)
qed

lemma chain_bound:
  assumes "(chain_step hops)\<^sup>*\<^sup>* (start_chain ds (length hops)) ls" "(chain_step hops ^^ n) ls ls'"
  shows "n \<le> (length ds + 1) * length hops"
proof -
  obtain k where k: "(chain_step hops ^^ k) (start_chain ds (length hops)) ls"
    using assms(1) by (auto simp: rtranclp_power)
  show ?thesis
    using chain.bounded [OF k, of chain_left] chain.bounded [OF assms(2), of chain_left]
      chain_act_left by (fastforce simp: chain_left_start)
qed

end
