(* ===== verification/Session_Input.thy ===== *)
theory Session_Input
  imports Relay_Chain Direct_TCPIP
begin

text \<open>
  What a client sends, on its way to the command: the server's pipe copies it to the agent's
  channel (\<^verbatim>\<open>ssh/server/channels/utils.go\<close>), and a goroutine of the agent's method copies it
  to the command's standard input or to its terminal (\<^verbatim>\<open>modes/host/sessioner.go\<close>,
  \<^verbatim>\<open>pty.go\<close>). Each copy passes the end of its data on or not, as its effects say. The SSH
  library carries an end of data that has been signalled on a channel, and writes succeed.
\<close>

section \<open>The copies\<close>

datatype stdin_effect = StdinData bytes | StdinClose

text \<open>
  Without a terminal, the method closes the command's input after the copy, whatever it ends
  with; with one, it copies to the terminal and closes nothing.
\<close>

definition command_stdin :: "bool \<Rightarrow> raw_write \<Rightarrow> source \<Rightarrow> stdin_effect list" where
  "command_stdin isPty raw src =
     fst (Copy (write_chunk StdinData raw) src) @ (if isPty then [] else [StdinClose])"

definition ends_agent :: "pipe_effect list \<Rightarrow> bool" where
  "ends_agent es \<longleftrightarrow> AgentCloseWrite \<in> set es \<or> AgentClose \<in> set es"

definition closes_stdin :: "stdin_effect list \<Rightarrow> bool" where
  "closes_stdin es \<longleftrightarrow> StdinClose \<in> set es"

lemma copy_effects:
  assumes "\<And>c. P (eff c)"
  shows "\<forall>e \<in> set (fst (Copy (write_chunk eff raw) src)). P e"
proof -
  have "\<forall>e \<in> set (fst (copy_loop (write_chunk eff raw) k cs)). P e" for k cs
    using assms
    by (induction "write_chunk eff raw" k cs rule: copy_loop.induct)
       (auto simp: write_chunk_def split: prod.splits option.splits if_splits)
  then show ?thesis by (auto simp: Copy_def split: prod.split) (metis fst_conv)
qed

lemma pipe_ends_agent: "pipe_to_agent pv older s raw out err = Val es \<Longrightarrow> ends_agent es"
  by (cases "agent_close pv older s")
     (auto simp: pipe_to_agent_def ends_agent_def agent_close_def split: option.splits if_splits)

lemma hose_ends_agent: "ends_agent (hose_to_agent raw out err)"
  by (simp add: hose_to_agent_def ends_agent_def)

lemma tcpip_keeps_end: "CopiedToAgent es \<in> set (tcpip_pipe client_io agent_io) \<Longrightarrow> \<not> ends_agent es"
  using copy_effects [of "\<lambda>e. e \<noteq> AgentCloseWrite \<and> e \<noteq> AgentClose" ToAgentData "fst agent_io"
      "snd client_io"]
  by (auto simp: tcpip_pipe_def ends_agent_def)

lemma command_closes_stdin: "closes_stdin (command_stdin isPty raw src) \<longleftrightarrow> \<not> isPty"
  using copy_effects [of "\<lambda>e. e \<noteq> StdinClose" StdinData raw src]
  by (auto simp: command_stdin_def closes_stdin_def)

section \<open>The end of the input\<close>


text \<open>A client that sends one piece to a command, and its whole way.\<close>

definition demo_input :: "chain_event list" where
  "demo_input = [Moves 0, PassesEnd 0, Moves 1, PassesEnd 1]"


text \<open>
  The same for the server's other copies towards the agent: the one that forwards an SSH
  agent passes the end on, and the one of a direct-tcpip channel does not, so there all data
  arrives and its end never does.
\<close>

lemma hose_input_ends:
  assumes "(chain_step [ends_agent (hose_to_agent raw out err)])\<^sup>*\<^sup>* (start_chain input 1) ls"
    and "\<nexists>ls'. chain_step [ends_agent (hose_to_agent raw out err)] ls ls'"
  shows "arrived ls = input \<and> end_arrived ls"
proof -
  have "chain_inv [ends_agent (hose_to_agent raw out err)] input ls"
    using assms(1) by (intro chain_inv_run) simp
  from chain_stuck [OF this assms(2)] show ?thesis by (simp add: hose_ends_agent)
qed

lemma forwarded_input_never_ends:
  assumes "CopiedToAgent es \<in> set (tcpip_pipe client_io agent_io)"
    and "(chain_step [ends_agent es])\<^sup>*\<^sup>* (start_chain input 1) ls" "\<nexists>ls'. chain_step [ends_agent es] ls ls'"
  shows "arrived ls = input \<and> \<not> end_arrived ls"
proof -
  have "chain_inv [ends_agent es] input ls" using assms(2) by (intro chain_inv_run) simp
  from chain_stuck [OF this assms(3)] show ?thesis using tcpip_keeps_end [OF assms(1)] by simp
qed

end
