(* ===== verification/Yamux_WS.thy ===== *)
theory Yamux_WS
  imports Prelude
begin

text \<open>
  The package \<^verbatim>\<open>pkg/yamuxws\<close>: the adapter that makes a byte stream, as yamux needs it, of a
  WebSocket connection. The WebSocket library is a parameter: \<open>'ws\<close> is the state of its
  connection, \<open>next_reader\<close> and \<open>read_reader\<close> its functions that open a reader on the next
  message and read from it. The two mutexes make each read and each write one step.
\<close>

definition EOF :: go_error where "EOF = Sentinel ''EOF''"
definition ErrReadLimit :: go_error where "ErrReadLimit = Sentinel ''ErrReadLimit''"

text \<open>The library's number of a binary message.\<close>

definition BinaryMessage :: nat where "BinaryMessage = 2"

type_synonym 'ws next_reader = "'ws \<Rightarrow> 'ws \<times> (go_error + nat \<times> handle)"
type_synonym 'ws read_reader = "'ws \<Rightarrow> handle \<Rightarrow> nat \<Rightarrow> 'ws \<times> bytes \<times> go_error option"

record wsAddr =
  addr :: "(string \<times> string) option"

record 'ws WSConn =
  ws_conn :: 'ws
  ws_reader :: "handle option"
  localAddr :: wsAddr
  remoteAddr :: wsAddr

definition NewWSConn ::
  "'ws \<Rightarrow> (string \<times> string) option \<Rightarrow> (string \<times> string) option \<Rightarrow> 'ws WSConn" where
  "NewWSConn w la ra =
     \<lparr>ws_conn = w, ws_reader = None, localAddr = \<lparr>addr = la\<rparr>, remoteAddr = \<lparr>addr = ra\<rparr>\<rparr>"

text \<open>The second half of \<open>Read\<close>: the end of a message is not an error, it only drops the reader.\<close>

definition read_message ::
  "'ws read_reader \<Rightarrow> 'ws WSConn \<Rightarrow> handle \<Rightarrow> nat \<Rightarrow> 'ws WSConn \<times> bytes \<times> go_error option" where
  "read_message read_reader c r n =
     (case read_reader (ws_conn c) r n of
        (w, bs, err) \<Rightarrow>
          if err = Some EOF then (c\<lparr>ws_conn := w, ws_reader := None\<rparr>, bs, None)
          else (c\<lparr>ws_conn := w, ws_reader := Some r\<rparr>, bs, err))"

definition WSConn_Read ::
  "'ws next_reader \<Rightarrow> 'ws read_reader \<Rightarrow> 'ws WSConn \<Rightarrow> nat \<Rightarrow>
   'ws WSConn \<times> bytes \<times> go_error option" where
  "WSConn_Read next_reader read_reader c n =
     (case ws_reader c of
        Some r \<Rightarrow> read_message read_reader c r n
      | None \<Rightarrow>
          (case next_reader (ws_conn c) of
             (w, Inl err) \<Rightarrow> (c\<lparr>ws_conn := w\<rparr>, [], Some err)
           | (w, Inr (messageType, r)) \<Rightarrow>
               if messageType \<noteq> BinaryMessage then (c\<lparr>ws_conn := w\<rparr>, [], Some ErrReadLimit)
               else read_message read_reader (c\<lparr>ws_conn := w\<rparr>) r n))"

text \<open>\<open>write_message\<close> is the library's.\<close>

definition WSConn_Write ::
  "('ws \<Rightarrow> nat \<Rightarrow> bytes \<Rightarrow> 'ws \<times> go_error option) \<Rightarrow> 'ws WSConn \<Rightarrow> bytes \<Rightarrow>
   'ws WSConn \<times> nat \<times> go_error option" where
  "WSConn_Write write_message c b =
     (case write_message (ws_conn c) BinaryMessage b of
        (w, Some err) \<Rightarrow> (c\<lparr>ws_conn := w\<rparr>, 0, Some err)
      | (w, None) \<Rightarrow> (c\<lparr>ws_conn := w\<rparr>, length b, None))"

definition WSConn_Close ::
  "('ws \<Rightarrow> 'ws \<times> go_error option) \<Rightarrow> 'ws WSConn \<Rightarrow> 'ws WSConn \<times> go_error option" where
  "WSConn_Close ws_close c = (case ws_close (ws_conn c) of (w, err) \<Rightarrow> (c\<lparr>ws_conn := w\<rparr>, err))"

definition WSConn_LocalAddr :: "'ws WSConn \<Rightarrow> wsAddr" where "WSConn_LocalAddr c = localAddr c"
definition WSConn_RemoteAddr :: "'ws WSConn \<Rightarrow> wsAddr" where "WSConn_RemoteAddr c = remoteAddr c"

type_synonym ('ws, 't) set_deadline = "'ws \<Rightarrow> 't \<Rightarrow> 'ws \<times> go_error option"

definition WSConn_SetReadDeadline ::
  "('ws, 't) set_deadline \<Rightarrow> 'ws WSConn \<Rightarrow> 't \<Rightarrow> 'ws WSConn \<times> go_error option" where
  "WSConn_SetReadDeadline set_read c t =
     (case set_read (ws_conn c) t of (w, err) \<Rightarrow> (c\<lparr>ws_conn := w\<rparr>, err))"

definition WSConn_SetWriteDeadline ::
  "('ws, 't) set_deadline \<Rightarrow> 'ws WSConn \<Rightarrow> 't \<Rightarrow> 'ws WSConn \<times> go_error option" where
  "WSConn_SetWriteDeadline set_write c t =
     (case set_write (ws_conn c) t of (w, err) \<Rightarrow> (c\<lparr>ws_conn := w\<rparr>, err))"

definition WSConn_SetDeadline ::
  "('ws, 't) set_deadline \<Rightarrow> ('ws, 't) set_deadline \<Rightarrow> 'ws WSConn \<Rightarrow> 't \<Rightarrow>
   'ws WSConn \<times> go_error option" where
  "WSConn_SetDeadline set_read set_write c t =
     (case WSConn_SetReadDeadline set_read c t of
        (c', Some err) \<Rightarrow> (c', Some err)
      | (c', None) \<Rightarrow> WSConn_SetWriteDeadline set_write c' t)"

text \<open>An address of the library is its network and its text.\<close>

definition wsAddr_Network :: "wsAddr \<Rightarrow> string" where
  "wsAddr_Network a = (case addr a of Some (net, _) \<Rightarrow> net | None \<Rightarrow> ''ws'')"

definition wsAddr_String :: "wsAddr \<Rightarrow> string" where
  "wsAddr_String a = (case addr a of Some (_, txt) \<Rightarrow> txt | None \<Rightarrow> ''websocket'')"

section \<open>What the WebSocket library is relied on for\<close>

text \<open>
  \<open>incoming w (Some r)\<close> are the bytes still to come when the rest of the message of reader
  \<open>r\<close> is read before the following messages, \<open>incoming w None\<close> those of the following
  messages only. A reader returns at most as many bytes as asked for, in order, and ends
  its message with \<open>EOF\<close>; opening a reader takes nothing away.
\<close>

definition reads_messages ::
  "('ws \<Rightarrow> handle option \<Rightarrow> bytes) \<Rightarrow> 'ws next_reader \<Rightarrow> 'ws read_reader \<Rightarrow> bool" where
  "reads_messages incoming next_reader read_reader \<longleftrightarrow>
     (\<forall>w w' r. next_reader w = (w', Inr (BinaryMessage, r)) \<longrightarrow>
        incoming w None = incoming w' (Some r)) \<and>
     (\<forall>w r n w' bs err. read_reader w r n = (w', bs, err) \<longrightarrow> length bs \<le> n) \<and>
     (\<forall>w r n w' bs. read_reader w r n = (w', bs, None) \<longrightarrow>
        incoming w (Some r) = bs @ incoming w' (Some r)) \<and>
     (\<forall>w r n w' bs. read_reader w r n = (w', bs, Some EOF) \<longrightarrow>
        incoming w (Some r) = bs @ incoming w' None)"

definition stream_of :: "('ws \<Rightarrow> handle option \<Rightarrow> bytes) \<Rightarrow> 'ws WSConn \<Rightarrow> bytes" where
  "stream_of incoming c = incoming (ws_conn c) (ws_reader c)"

lemma read_message_stream:
  assumes "reads_messages incoming nr rr" "read_message rr c r n = (c', bs, err)"
  shows "length bs \<le> n \<and> err \<noteq> Some EOF \<and>
    (err = None \<longrightarrow> incoming (ws_conn c) (Some r) = bs @ stream_of incoming c')"
proof -
  obtain w bs' e where r: "rr (ws_conn c) r n = (w, bs', e)" by (metis surj_pair)
  with assms have "length bs' \<le> n"
    "e = None \<Longrightarrow> incoming (ws_conn c) (Some r) = bs' @ incoming w (Some r)"
    "e = Some EOF \<Longrightarrow> incoming (ws_conn c) (Some r) = bs' @ incoming w None"
    unfolding reads_messages_def by blast+
  with assms(2) r show ?thesis
    by (auto simp: read_message_def stream_of_def split: if_splits)
qed

lemma WSConn_Read_stream:
  assumes "reads_messages incoming nr rr" "WSConn_Read nr rr c n = (c', bs, err)"
  shows "length bs \<le> n \<and> (err = None \<longrightarrow> stream_of incoming c = bs @ stream_of incoming c')"
proof (cases "ws_reader c")
  case (Some r)
  then show ?thesis
    using assms read_message_stream [OF assms(1), of c r n] by (simp add: WSConn_Read_def stream_of_def)
next
  case None
  obtain w x where nr: "nr (ws_conn c) = (w, x)" by (cases "nr (ws_conn c)")
  show ?thesis
  proof (cases x)
    case (Inl e)
    then show ?thesis using assms None nr by (auto simp: WSConn_Read_def)
  next
    case (Inr p)
    obtain mt r where p: "p = (mt, r)" by (cases p)
    show ?thesis
    proof (cases "mt = BinaryMessage")
      case True
      then have "incoming (ws_conn c) None = incoming w (Some r)"
        using assms(1) nr Inr p unfolding reads_messages_def by blast
      moreover have "read_message rr (c\<lparr>ws_conn := w\<rparr>) r n = (c', bs, err)"
        using assms(2) None nr Inr p True by (simp add: WSConn_Read_def)
      ultimately show ?thesis
        using read_message_stream [OF assms(1), of "c\<lparr>ws_conn := w\<rparr>" r n] None
        by (simp add: stream_of_def)
    next
      case False
      then show ?thesis using assms(2) None nr Inr p by (auto simp: WSConn_Read_def)
    qed
  qed
qed

text \<open>A run of reads with buffers of the given sizes, up to the first error.\<close>

fun read_run ::
  "'ws next_reader \<Rightarrow> 'ws read_reader \<Rightarrow> 'ws WSConn \<Rightarrow> nat list \<Rightarrow>
   'ws WSConn \<times> bytes list \<times> go_error option" where
  "read_run nr rr c [] = (c, [], None)"
| "read_run nr rr c (n # ns) =
     (case WSConn_Read nr rr c n of
        (c', bs, Some err) \<Rightarrow> (c', [bs], Some err)
      | (c', bs, None) \<Rightarrow>
          (case read_run nr rr c' ns of (c'', bss, err) \<Rightarrow> (c'', bs # bss, err)))"

lemma read_run_stream:
  assumes "reads_messages incoming nr rr"
  shows "read_run nr rr c ns = (c', bss, err) \<Longrightarrow>
    list_all2 (\<lambda>bs n. length bs \<le> n) bss (take (length bss) ns) \<and>
    (err = None \<longrightarrow> stream_of incoming c = concat bss @ stream_of incoming c')"
proof (induction ns arbitrary: c bss)
  case (Cons n ns)
  obtain c1 bs e where r: "WSConn_Read nr rr c n = (c1, bs, e)" by (metis surj_pair)
  obtain c2 bss2 e2 where l: "read_run nr rr c1 ns = (c2, bss2, e2)" by (metis surj_pair)
  note one = WSConn_Read_stream [OF assms r]
  show ?case
  proof (cases e)
    case None
    with Cons.prems r l have eq: "c2 = c'" "bss = bs # bss2" "err = e2" by auto
    with l have "read_run nr rr c1 ns = (c', bss2, err)" by simp
    from Cons.IH [OF this] one None eq show ?thesis by simp
  next
    case (Some x)
    with Cons.prems r one show ?thesis by auto
  qed
qed simp

text \<open>
  C24. The adapter is a byte stream: whatever the sizes of the buffers, reads without an
  error return exactly the bytes of the incoming binary messages, in order and with no
  trace of the messages' borders, and never more than asked for.
\<close>

theorem ws_reads_stream:
  assumes "reads_messages incoming next_reader read_reader"
    and "read_run next_reader read_reader c ns = (c', bss, err)"
  shows "list_all2 (\<lambda>bs n. length bs \<le> n) bss (take (length bss) ns) \<and>
    (err = None \<longrightarrow> stream_of incoming c = concat bss @ stream_of incoming c')"
  by (rule read_run_stream [OF assms])

text \<open>
  A library that meets these expectations: the connection holds the rest of the current
  message and the messages after it.
\<close>

definition queue_next :: "(bytes \<times> bytes list) next_reader" where
  "queue_next w =
     (case w of
        (cur, []) \<Rightarrow> (w, Inl (External ''closed''))
      | (cur, m # ms) \<Rightarrow> ((m, ms), Inr (BinaryMessage, 0)))"

definition queue_read :: "(bytes \<times> bytes list) read_reader" where
  "queue_read w r n =
     (case w of (cur, ms) \<Rightarrow>
        if cur = [] then (w, [], Some EOF) else ((drop n cur, ms), take n cur, None))"

definition queue_incoming :: "bytes \<times> bytes list \<Rightarrow> handle option \<Rightarrow> bytes" where
  "queue_incoming w r =
     (case w of (cur, ms) \<Rightarrow> (if r = None then concat ms else cur @ concat ms))"

lemma queue_reads_messages: "reads_messages queue_incoming queue_next queue_read"
  by (auto simp: reads_messages_def queue_next_def queue_read_def queue_incoming_def EOF_def
      split: prod.splits list.splits if_splits)

theorem ws_reads_stream_witness:
  "\<exists>c' bss. read_run queue_next queue_read (NewWSConn ([], [''abc'', ''de'']) None None) [2, 2, 2, 2] =
       (c', bss, None) \<and> concat bss @ stream_of queue_incoming c' = ''abcde''"
proof -
  let ?c = "NewWSConn ([], [''abc'', ''de'']) None None"
  obtain c' bss err where r: "read_run queue_next queue_read ?c [2, 2, 2, 2] = (c', bss, err)"
    by (metis surj_pair)
  moreover have "err = None"
    using r by (simp add: NewWSConn_def WSConn_Read_def read_message_def queue_next_def
        queue_read_def EOF_def)
  ultimately show ?thesis
    using ws_reads_stream [OF queue_reads_messages r]
    by (simp add: stream_of_def NewWSConn_def queue_incoming_def)
qed

text \<open>
  Whatever is written in one piece goes out as one binary message, and the end of a message
  never ends the stream.
\<close>

lemma WSConn_Write_message:
  "write_message (ws_conn c) BinaryMessage b = (w, None) \<Longrightarrow>
   WSConn_Write write_message c b = (c\<lparr>ws_conn := w\<rparr>, length b, None)"
  by (simp add: WSConn_Write_def)

lemma WSConn_Read_message_end:
  "ws_reader c = Some r \<Longrightarrow> read_reader (ws_conn c) r n = (w, bs, Some EOF) \<Longrightarrow>
   WSConn_Read next_reader read_reader c n = (c\<lparr>ws_conn := w, ws_reader := None\<rparr>, bs, None)"
  by (simp add: WSConn_Read_def read_message_def)

section \<open>From one end to the other\<close>

text \<open>
  Writes in a row, up to the first error: what each one reported. A library that sends
  messages adds each binary message written without an error to the messages sent.
\<close>

type_synonym 'ws write_message = "'ws \<Rightarrow> nat \<Rightarrow> bytes \<Rightarrow> 'ws \<times> go_error option"

fun write_run ::
  "'ws write_message \<Rightarrow> 'ws WSConn \<Rightarrow> bytes list \<Rightarrow> 'ws WSConn \<times> nat list \<times> go_error option" where
  "write_run wm c [] = (c, [], None)"
| "write_run wm c (b # bs) =
     (case WSConn_Write wm c b of
        (c', n, Some err) \<Rightarrow> (c', [n], Some err)
      | (c', n, None) \<Rightarrow> (case write_run wm c' bs of (c'', ns, err) \<Rightarrow> (c'', n # ns, err)))"

definition sends_messages :: "('ws \<Rightarrow> bytes list) \<Rightarrow> 'ws write_message \<Rightarrow> bool" where
  "sends_messages sent wm \<longleftrightarrow>
     (\<forall>w b w'. wm w BinaryMessage b = (w', None) \<longrightarrow> sent w' = sent w @ [b])"

lemma write_run_sent:
  assumes "sends_messages sent wm"
  shows "write_run wm c bs = (c', ns, None) \<Longrightarrow>
    ns = map length bs \<and> sent (ws_conn c') = sent (ws_conn c) @ bs"
proof (induction bs arbitrary: c ns)
  case (Cons b bs)
  obtain w e where w: "wm (ws_conn c) BinaryMessage b = (w, e)" by (metis surj_pair)
  with Cons.prems have e: "e = None" by (cases e) (auto simp: WSConn_Write_def)
  obtain c2 ns2 e2 where r: "write_run wm (c\<lparr>ws_conn := w\<rparr>) bs = (c2, ns2, e2)" by (metis surj_pair)
  have "sent w = sent (ws_conn c) @ [b]" using assms w e unfolding sends_messages_def by blast
  then show ?case using Cons w e r by (auto simp: WSConn_Write_def)
qed simp

text \<open>
  C25. What one end writes the other end reads. After writes without an error, each of
  which reports its full length, a peer to which the messages sent are still to come reads,
  as long as it meets no error, exactly the bytes written, in order, whatever the sizes of
  the pieces on either side; what it has not read yet is what is left of them.
\<close>

theorem ws_round_trip:
  assumes "sends_messages sent write_message" "reads_messages incoming next_reader read_reader"
    and "write_run write_message cw bs = (cw', ns, None)"
    and "sent (ws_conn cw) = []"
    and arrives: "stream_of incoming cr = concat (sent (ws_conn cw'))"
    and "read_run next_reader read_reader cr sizes = (cr', bss, None)"
  shows "ns = map length bs \<and> concat bs = concat bss @ stream_of incoming cr'"
  using write_run_sent [OF assms(1,3)] read_run_stream [OF assms(2,6)] assms(4) arrives by simp

text \<open>The library of the example above, seen from the writing end.\<close>

definition queue_write :: "(bytes \<times> bytes list) write_message" where
  "queue_write w ty b = (case w of (cur, ms) \<Rightarrow> ((cur, ms @ [b]), None))"

theorem ws_round_trip_witness:
  "\<exists>cr' bss. read_run queue_next queue_read (NewWSConn ([], [''hel'', ''lo'']) None None)
       [2, 2, 2, 8, 8] = (cr', bss, None) \<and>
     ''hello'' = concat bss @ stream_of queue_incoming cr'"
proof -
  let ?cr = "NewWSConn ([], [''hel'', ''lo'']) None None"
  let ?cw = "NewWSConn ([], []) None None"
  obtain cr' bss err where r: "read_run queue_next queue_read ?cr [2, 2, 2, 8, 8] = (cr', bss, err)"
    by (metis surj_pair)
  have e: "err = None"
    using r by (simp add: NewWSConn_def WSConn_Read_def read_message_def queue_next_def
        queue_read_def EOF_def)
  have s: "sends_messages snd queue_write" by (auto simp: sends_messages_def queue_write_def)
  have w: "write_run queue_write ?cw [''hel'', ''lo''] =
      (NewWSConn ([], [''hel'', ''lo'']) None None, [3, 2], None)"
    by (simp add: WSConn_Write_def queue_write_def NewWSConn_def)
  show ?thesis
    using ws_round_trip [OF s queue_reads_messages w _ _ r [unfolded e]] r e
    by (simp add: NewWSConn_def stream_of_def queue_incoming_def)
qed

end
