(* ===== verification/Agent_Requests.thy ===== *)
theory Agent_Requests
  imports Agent_Server
begin

text \<open>
  How the agent's server learns what a channel asked for: \<^verbatim>\<open>sessionRequestCallback\<close> stores the
  request's type in the context, and the channel's handler, started afterwards, reads it
  there with \<^verbatim>\<open>GetSessionType\<close>. The SSH library gives every channel of a connection the
  connection's own context, so the channels of one connection share the stored value, and
  their steps interleave.
\<close>

record channel_request =
  has_pty :: bool
  request_kind :: string

datatype channel_progress = Requested | Accepted | Handled "handler_effect list"

record conn_context =
  request_type :: "string option"
  keepalives_started :: nat
  channel_requests :: "nat \<Rightarrow> channel_request"
  progress :: "nat \<Rightarrow> channel_progress"

text \<open>The callback also starts a keepalive loop, and accepts every request.\<close>

definition sessionRequestCallback :: "string \<Rightarrow> conn_context \<Rightarrow> conn_context \<times> bool" where
  "sessionRequestCallback requestType c =
     (c\<lparr>request_type := Some requestType, keepalives_started := keepalives_started c + 1\<rparr>, True)"

inductive channel_step :: "conn_context \<Rightarrow> conn_context \<Rightarrow> bool" where
  accept:
    "progress c i = Requested \<Longrightarrow>
     sessionRequestCallback (request_kind (channel_requests c i)) c = (c', True) \<Longrightarrow>
     channel_step c (c'\<lparr>progress := (progress c')(i := Accepted)\<rparr>)"
| handle:
    "progress c i = Accepted \<Longrightarrow>
     channel_step c (c\<lparr>progress := (progress c)(i :=
       Handled (run_session (has_pty (channel_requests c i)) (request_type c)))\<rparr>)"

definition new_connection :: "(nat \<Rightarrow> channel_request) \<Rightarrow> conn_context" where
  "new_connection reqs =
     \<lparr>request_type = None, keepalives_started = 0, channel_requests = reqs,
      progress = (\<lambda>_. Requested)\<rparr>"

inductive connection_reachable :: "(nat \<Rightarrow> channel_request) \<Rightarrow> conn_context \<Rightarrow> bool" for reqs where
  start: "connection_reachable reqs (new_connection reqs)"
| step: "connection_reachable reqs c \<Longrightarrow> channel_step c c' \<Longrightarrow> connection_reachable reqs c'"

text \<open>
  The stored type is that of some channel already accepted, and it is what every handled
  channel ran with.
\<close>

definition types_inv :: "(nat \<Rightarrow> channel_request) \<Rightarrow> conn_context \<Rightarrow> bool" where
  "types_inv reqs c \<longleftrightarrow>
     channel_requests c = reqs \<and>
     (case request_type c of
        None \<Rightarrow> \<forall>i. progress c i = Requested
      | Some t \<Rightarrow> \<exists>j. progress c j \<noteq> Requested \<and> t = request_kind (reqs j)) \<and>
     (\<forall>i es. progress c i = Handled es \<longrightarrow>
        (\<exists>j. progress c j \<noteq> Requested \<and>
           es = run_session (has_pty (reqs i)) (Some (request_kind (reqs j)))))"

lemma types_inv_step: "channel_step c c' \<Longrightarrow> types_inv reqs c \<Longrightarrow> types_inv reqs c'"
proof (induction rule: channel_step.induct)
  case (accept c i c')
  have c': "c' = c\<lparr>request_type := Some (request_kind (channel_requests c i)),
      keepalives_started := keepalives_started c + 1\<rparr>"
    using accept(2) by (auto simp: sessionRequestCallback_def)
  show ?case
    using accept(1,3) unfolding c' types_inv_def
    by (auto simp: fun_upd_def split: option.splits) metis+
next
  case (handle c i)
  then obtain t where t: "request_type c = Some t"
    by (cases "request_type c") (auto simp: types_inv_def)
  with handle obtain j where j: "progress c j \<noteq> Requested" "t = request_kind (reqs j)"
    by (auto simp: types_inv_def)
  have keep: "progress c k \<noteq> Requested \<Longrightarrow>
      ((progress c)(i := Handled es)) k \<noteq> Requested" for k es by simp
  show ?case
    using handle t j keep [OF j(1)] unfolding types_inv_def
    by (auto split: option.splits) metis+
qed

lemma connection_reachable_inv: "connection_reachable reqs c \<Longrightarrow> types_inv reqs c"
proof (induction rule: connection_reachable.induct)
  case start
  then show ?case by (simp add: types_inv_def new_connection_def)
next
  case (step c c')
  then show ?case using types_inv_step by blast
qed

text \<open>Two channels accepted one after the other, and then the first one's handler.\<close>

lemma race_run:
  assumes "i \<noteq> j"
  shows "\<exists>c. connection_reachable reqs c \<and>
    progress c i = Handled (run_session (has_pty (reqs i)) (Some (request_kind (reqs j))))"
proof -
  let ?c0 = "new_connection reqs"
  let ?c1 = "?c0\<lparr>request_type := Some (request_kind (reqs i)), keepalives_started := 1,
    progress := (progress ?c0)(i := Accepted)\<rparr>"
  let ?c2 = "?c1\<lparr>request_type := Some (request_kind (reqs j)), keepalives_started := 2,
    progress := (progress ?c1)(j := Accepted)\<rparr>"
  let ?c3 = "?c2\<lparr>progress := (progress ?c2)(i :=
    Handled (run_session (has_pty (channel_requests ?c2 i)) (request_type ?c2)))\<rparr>"
  have "channel_step ?c0 ?c1"
    using accept [of ?c0 i] by (simp add: new_connection_def sessionRequestCallback_def)
  moreover have "channel_step ?c1 ?c2"
    using accept [of ?c1 j] assms
    by (simp add: new_connection_def sessionRequestCallback_def numeral_2_eq_2)
  moreover have "channel_step ?c2 ?c3"
    using assms by (intro handle) (simp add: new_connection_def)
  ultimately have "connection_reachable reqs ?c3" by (meson connection_reachable.intros)
  moreover have "progress ?c3 i =
      Handled (run_session (has_pty (reqs i)) (Some (request_kind (reqs j))))"
    by (simp add: new_connection_def)
  ultimately show ?thesis by blast
qed


definition demo_requests :: "nat \<Rightarrow> channel_request" where
  "demo_requests i =
     (if i = 0 then \<lparr>has_pty = True, request_kind = ''shell''\<rparr>
      else \<lparr>has_pty = False, request_kind = ''exec''\<rparr>)"


end
