(* ===== verification/Exec_Output.thy ===== *)
theory Exec_Output
  imports Schedules
begin

text \<open>
  The output of a command that runs without a terminal (\<^verbatim>\<open>Exec\<close> and \<^verbatim>\<open>Heredoc\<close> in
  \<^verbatim>\<open>modes/host/sessioner.go\<close>). The command writes pieces to two pipes of the operating
  system, each of which holds at most \<open>cap\<close> of them: a write to a full pipe waits. One
  goroutine copies both to the session through an \<^verbatim>\<open>io.MultiReader\<close>, which reads the error
  output only after the other output has ended, and it ends when the command does.
\<close>

datatype piece = Out | Err

record flow =
  to_write :: "piece list"
  out_pipe :: nat
  err_pipe :: nat
  exited :: bool
  reading_err :: bool
  copied :: "piece list"
  copy_done :: bool

definition start_flow :: "piece list \<Rightarrow> flow" where
  "start_flow w =
     \<lparr>to_write = w, out_pipe = 0, err_pipe = 0, exited = False, reading_err = False,
      copied = [], copy_done = False\<rparr>"

inductive flow_step :: "nat \<Rightarrow> flow \<Rightarrow> flow \<Rightarrow> bool" for cap where
  write_out: "to_write r = Out # w \<Longrightarrow> out_pipe r < cap \<Longrightarrow>
    flow_step cap r (r\<lparr>to_write := w, out_pipe := out_pipe r + 1\<rparr>)"
| write_err: "to_write r = Err # w \<Longrightarrow> err_pipe r < cap \<Longrightarrow>
    flow_step cap r (r\<lparr>to_write := w, err_pipe := err_pipe r + 1\<rparr>)"
| exits: "to_write r = [] \<Longrightarrow> \<not> exited r \<Longrightarrow> flow_step cap r (r\<lparr>exited := True\<rparr>)"
| copy_out: "\<not> reading_err r \<Longrightarrow> out_pipe r > 0 \<Longrightarrow>
    flow_step cap r (r\<lparr>out_pipe := out_pipe r - 1, copied := copied r @ [Out]\<rparr>)"
| out_ends: "\<not> reading_err r \<Longrightarrow> out_pipe r = 0 \<Longrightarrow> exited r \<Longrightarrow>
    flow_step cap r (r\<lparr>reading_err := True\<rparr>)"
| copy_err: "reading_err r \<Longrightarrow> err_pipe r > 0 \<Longrightarrow>
    flow_step cap r (r\<lparr>err_pipe := err_pipe r - 1, copied := copied r @ [Err]\<rparr>)"
| err_ends: "reading_err r \<Longrightarrow> err_pipe r = 0 \<Longrightarrow> exited r \<Longrightarrow> \<not> copy_done r \<Longrightarrow>
    flow_step cap r (r\<lparr>copy_done := True\<rparr>)"

section \<open>The invariant\<close>

text \<open>
  Nothing is lost on the way; the error output stays in its pipe until the command has
  exited; and what has been copied is first output and then errors.
\<close>

definition flow_inv :: "nat \<Rightarrow> piece list \<Rightarrow> flow \<Rightarrow> bool" where
  "flow_inv cap w r \<longleftrightarrow>
     count_list (copied r) Out + out_pipe r + count_list (to_write r) Out = count_list w Out \<and>
     count_list (copied r) Err + err_pipe r + count_list (to_write r) Err = count_list w Err \<and>
     copied r = replicate (count_list (copied r) Out) Out @ replicate (count_list (copied r) Err) Err \<and>
     (\<not> reading_err r \<longrightarrow> count_list (copied r) Err = 0) \<and>
     (reading_err r \<longrightarrow> exited r \<and> out_pipe r = 0) \<and>
     (exited r \<longrightarrow> to_write r = [] \<and> count_list w Err \<le> cap) \<and>
     (copy_done r \<longrightarrow> reading_err r \<and> err_pipe r = 0) \<and>
     err_pipe r \<le> cap"

lemma flow_inv_start: "flow_inv cap w (start_flow w)"
  by (simp add: flow_inv_def start_flow_def)

lemma flow_inv_step: "flow_step cap r r' \<Longrightarrow> flow_inv cap w r \<Longrightarrow> flow_inv cap w r'"
  by (induction rule: flow_step.induct)
     (auto simp: flow_inv_def replicate_append_same [symmetric])

lemma flow_inv_run: "(flow_step cap)\<^sup>*\<^sup>* (start_flow w) r \<Longrightarrow> flow_inv cap w r"
  by (induction rule: rtranclp_induct) (auto intro: flow_inv_start flow_inv_step)

section \<open>Termination and progress\<close>

definition flow_left :: "flow \<Rightarrow> nat" where
  "flow_left r = 2 * length (to_write r) + out_pipe r + err_pipe r + (if exited r then 0 else 1) +
     (if reading_err r then 0 else 1) + (if copy_done r then 0 else 1)"

lemma flow_left_step: "flow_step cap r r' \<Longrightarrow> flow_left r' < flow_left r"
  by (induction rule: flow_step.induct) (simp_all add: flow_left_def)

lemma flow_left_steps: "(flow_step cap ^^ n) r r' \<Longrightarrow> n + flow_left r' \<le> flow_left r"
  by (rule relpow_measure [where m = flow_left and step = "flow_step cap"]) (auto intro: flow_left_step)

lemma flow_progress:
  assumes inv: "flow_inv cap w r" and cap: "0 < cap" "count_list w Err \<le> cap"
    and go: "\<not> copy_done r"
  shows "\<exists>r'. flow_step cap r r'"
proof (cases "reading_err r")
  case True
  then show ?thesis
    using inv go by (cases "err_pipe r = 0") (auto simp: flow_inv_def intro: copy_err err_ends)
next
  case False
  show ?thesis
  proof (cases "out_pipe r = 0")
    case True
    show ?thesis
    proof (cases "to_write r")
      case Nil
      then show ?thesis
        using False True by (cases "exited r") (auto intro: exits out_ends)
    next
      case (Cons p ps)
      show ?thesis
      proof (cases p)
        case Out
        then show ?thesis using Cons True cap(1) write_out [of r ps cap] by auto
      next
        case Err
        then have "err_pipe r < cap" using inv False Cons cap(2) by (simp add: flow_inv_def)
        then show ?thesis using Cons Err write_err [of r ps cap] by auto
      qed
    qed
  qed (use False in \<open>auto intro: copy_out\<close>)
qed

section \<open>Properties\<close>

text \<open>
  C22. A command without a terminal finishes if and only if its error output fits into its pipe.
  Every run is finite. When all the pieces it writes to its error output fit into the pipe,
  a run that can go no further has copied everything, the output first and then the
  errors; when they do not, the command can never exit, because nobody reads its errors
  while it runs: the session hangs and reports no status.
\<close>

theorem exec_hangs_on_errors:
  assumes "0 < cap" "(flow_step cap)\<^sup>*\<^sup>* (start_flow w) r"
  shows "(\<forall>n r'. (flow_step cap ^^ n) r r' \<longrightarrow> n \<le> 2 * length w + 3) \<and>
    ((\<nexists>r'. flow_step cap r r') \<longrightarrow> (copy_done r \<longleftrightarrow> count_list w Err \<le> cap)) \<and>
    (copy_done r \<longrightarrow>
       copied r = replicate (count_list w Out) Out @ replicate (count_list w Err) Err) \<and>
    (cap < count_list w Err \<longrightarrow> \<not> exited r)"
proof (intro conjI allI impI)
  have inv: "flow_inv cap w r" by (rule flow_inv_run [OF assms(2)])
  obtain k where k: "(flow_step cap ^^ k) (start_flow w) r"
    using assms(2) by (auto simp: rtranclp_power)
  show "n \<le> 2 * length w + 3" if "(flow_step cap ^^ n) r r'" for n r'
    using flow_left_steps [OF k] flow_left_steps [OF that]
    by (simp add: flow_left_def start_flow_def)
  show "copy_done r \<longleftrightarrow> count_list w Err \<le> cap" if "\<nexists>r'. flow_step cap r r'"
    using flow_progress [OF inv assms(1)] that inv by (auto simp: flow_inv_def)
  show "copied r = replicate (count_list w Out) Out @ replicate (count_list w Err) Err"
    if "copy_done r"
    using inv that by (auto simp: flow_inv_def)
  show "\<not> exited r" if "cap < count_list w Err"
    using inv that by (auto simp: flow_inv_def)
qed

theorem exec_hangs_on_errors_witness:
  "\<exists>r. (flow_step 1)\<^sup>*\<^sup>* (start_flow [Err, Err]) r \<and> err_pipe r = 1 \<and> \<not> exited r"
proof -
  let ?r = "(start_flow [Err, Err])\<lparr>to_write := [Err], err_pipe := 1\<rparr>"
  have "flow_step 1 (start_flow [Err, Err]) ?r"
    using write_err [of "start_flow [Err, Err]" "[Err]" 1] by (simp add: start_flow_def)
  then have run: "(flow_step 1)\<^sup>*\<^sup>* (start_flow [Err, Err]) ?r" by blast
  have "\<not> exited ?r" using exec_hangs_on_errors [OF _ run] by simp
  with run show ?thesis by force
qed

end
