(* ===== verification/SFTP_Server.thy ===== *)
theory SFTP_Server
  imports Std_Net
begin

text \<open>
  \<^verbatim>\<open>agent/pkg/agent/sftp.go\<close>: the SFTP server process. It moves to the user's home, gives up
  its group and then its user, and serves its standard streams. \<open>lookup\<close> is the
  environment; the system calls and the SFTP library are given by their results.
\<close>

datatype sftp_server_effect =
    Stderr go_error
  | Chdir string
  | Setgid int
  | Setuid int
  | Serve
  | CloseServer
  | Exit int

record sftp_system =
  sys_chdir :: "string \<Rightarrow> go_error option"
  sys_setgid :: "int \<Rightarrow> go_error option"
  sys_setuid :: "int \<Rightarrow> go_error option"
  new_sftp_server :: "go_error option"
  serve_result :: go_error

definition sftp_EOF :: go_error where "sftp_EOF = Sentinel ''EOF''"

text \<open>Whether the variable is set is ignored: an unset one is the empty text.\<close>

definition toInt :: "string option \<Rightarrow> go_error + int" where
  "toInt v = Atoi (case v of None \<Rightarrow> [] | Some s \<Rightarrow> s)"

text \<open>Closing the served streams ends the process; the library does so when it closes.\<close>

definition pipe_Close :: "sftp_server_effect list" where
  "pipe_Close = [Exit 0]"

definition NewSFTPServer ::
  "(string \<Rightarrow> string option) \<Rightarrow> sftp_system \<Rightarrow> sftp_server_effect list" where
  "NewSFTPServer lookup sys =
     (case lookup ''HOME'' of
        None \<Rightarrow> [Stderr (Errorf ''HOME environment variable not set'')]
      | Some home \<Rightarrow>
          (case toInt (lookup ''GID'') of
             Inl _ \<Rightarrow> [Stderr (Errorf ''GID environment variable not set'')]
           | Inr gid \<Rightarrow>
               (case toInt (lookup ''UID'') of
                  Inl _ \<Rightarrow> [Stderr (Errorf ''UID environment variable not set'')]
                | Inr uid \<Rightarrow>
                    Chdir home #
                    (case sys_chdir sys home of
                       Some e \<Rightarrow> [Stderr e]
                     | None \<Rightarrow>
                         Setgid gid #
                         (case sys_setgid sys gid of
                            Some e \<Rightarrow> [Stderr e]
                          | None \<Rightarrow>
                              Setuid uid #
                              (case sys_setuid sys uid of
                                 Some e \<Rightarrow> [Stderr e]
                               | None \<Rightarrow>
                                   (case new_sftp_server sys of
                                      Some e \<Rightarrow> [Stderr e]
                                    | None \<Rightarrow>
                                        Serve #
                                        (if serve_result sys \<noteq> sftp_EOF
                                         then [Stderr (serve_result sys)] else []) @
                                        [CloseServer])))))))"

text \<open>
  C39. The SFTP server serves files only after it has entered the user's home and given up
  the group and then the user it was started with, all three with success and with the
  values of its environment; when any of that fails, it serves nothing.
\<close>

theorem sftp_drops_privileges:
  assumes "Serve \<in> set (NewSFTPServer lookup sys)"
  shows "\<exists>home g u gid uid rest. lookup ''HOME'' = Some home \<and>
     lookup ''GID'' = Some g \<and> Atoi g = Inr gid \<and> lookup ''UID'' = Some u \<and> Atoi u = Inr uid \<and>
     sys_chdir sys home = None \<and> sys_setgid sys gid = None \<and> sys_setuid sys uid = None \<and>
     NewSFTPServer lookup sys = [Chdir home, Setgid gid, Setuid uid, Serve] @ rest \<and>
     Serve \<notin> set rest"
proof -
  obtain home where h: "lookup ''HOME'' = Some home"
    using assms by (cases "lookup ''HOME''") (auto simp: NewSFTPServer_def)
  obtain gid where g: "toInt (lookup ''GID'') = Inr gid"
    using assms h by (cases "toInt (lookup ''GID'')") (auto simp: NewSFTPServer_def)
  obtain uid where u: "toInt (lookup ''UID'') = Inr uid"
    using assms h g by (cases "toInt (lookup ''UID'')") (auto simp: NewSFTPServer_def)
  have s: "sys_chdir sys home = None" "sys_setgid sys gid = None" "sys_setuid sys uid = None"
    "new_sftp_server sys = None"
    using assms h g u by (auto simp: NewSFTPServer_def split: option.splits)
  obtain gs where gs: "lookup ''GID'' = Some gs" "Atoi gs = Inr gid"
    using g by (cases "lookup ''GID''") (auto simp: toInt_def Atoi_empty)
  obtain us where us: "lookup ''UID'' = Some us" "Atoi us = Inr uid"
    using u by (cases "lookup ''UID''") (auto simp: toInt_def Atoi_empty)
  have "NewSFTPServer lookup sys = [Chdir home, Setgid gid, Setuid uid, Serve] @
      ((if serve_result sys \<noteq> sftp_EOF then [Stderr (serve_result sys)] else []) @ [CloseServer])"
    using h g u s by (simp add: NewSFTPServer_def)
  with h gs us s show ?thesis by fastforce
qed

definition demo_sftp_env :: "string \<Rightarrow> string option" where
  "demo_sftp_env v =
     (if v = ''HOME'' then Some ''/home/u'' else if v = ''GID'' then Some ''100''
      else if v = ''UID'' then Some ''1000'' else None)"

definition demo_sftp_system :: sftp_system where
  "demo_sftp_system =
     \<lparr>sys_chdir = (\<lambda>_. None), sys_setgid = (\<lambda>_. None), sys_setuid = (\<lambda>_. None),
      new_sftp_server = None, serve_result = sftp_EOF\<rparr>"

theorem sftp_drops_privileges_witness:
  "\<exists>home gid uid rest. NewSFTPServer demo_sftp_env demo_sftp_system =
     [Chdir home, Setgid gid, Setuid uid, Serve] @ rest \<and> Serve \<notin> set rest"
proof -
  have "Serve \<in> set (NewSFTPServer demo_sftp_env demo_sftp_system)"
    by (simp add: NewSFTPServer_def demo_sftp_env_def demo_sftp_system_def toInt_def Atoi_def
        is_digit_def parse_nat_def digit_val_def)
  from sftp_drops_privileges [OF this] show ?thesis by blast
qed

end
