(* ===== verification/Keygen.thy ===== *)
theory Keygen
  imports Std_Net
begin

text \<open>
  The package \<^verbatim>\<open>agent/pkg/agent/pkg/keygen\<close>: the device's private key on the file system. The
  file system is a map from paths to contents and a set of directories; every call on it
  may also fail for reasons of the operating system's own, which \<open>faults\<close> gives by the
  call's name and path. Paths are clean, in the sense of the package \<^verbatim>\<open>path/filepath\<close>.
  The RSA, X.509 and PEM packages are parameters.
\<close>

record fs =
  files :: "string \<rightharpoonup> bytes"
  dirs :: "string set"

type_synonym faults = "string \<Rightarrow> string \<Rightarrow> go_error option"

definition ErrNotExist :: go_error where "ErrNotExist = Sentinel ''ErrNotExist''"
definition ErrPemDecode :: go_error where "ErrPemDecode = Sentinel ''ErrPemDecode''"

definition IsNotExist :: "go_error option \<Rightarrow> bool" where
  "IsNotExist e \<longleftrightarrow> e = Some ErrNotExist"

definition Dir :: "string \<Rightarrow> string" where
  "Dir p = (case cut_last (CHR ''/'') p of None \<Rightarrow> ''.'' | Some (d, _) \<Rightarrow> if d = [] then ''/'' else d)"

definition Stat :: "faults \<Rightarrow> fs \<Rightarrow> string \<Rightarrow> go_error option" where
  "Stat flt s p =
     (case flt ''stat'' p of
        Some e \<Rightarrow> Some e
      | None \<Rightarrow> if p \<in> dom (files s) \<or> p \<in> dirs s then None else Some ErrNotExist)"

definition MkdirAll :: "faults \<Rightarrow> fs \<Rightarrow> string \<Rightarrow> fs \<times> go_error option" where
  "MkdirAll flt s p =
     (case flt ''mkdir'' p of
        Some e \<Rightarrow> (s, Some e)
      | None \<Rightarrow>
          (s\<lparr>dirs := dirs s \<union> {p} \<union>
             set (map (\<lambda>i. take i p) (filter (\<lambda>i. 0 < i \<and> p ! i = CHR ''/'') [0..<length p]))\<rparr>, None))"

text \<open>Creating a file truncates it.\<close>

definition Create :: "faults \<Rightarrow> fs \<Rightarrow> string \<Rightarrow> fs \<times> go_error option" where
  "Create flt s p =
     (case flt ''create'' p of
        Some e \<Rightarrow> (s, Some e)
      | None \<Rightarrow>
          if p \<in> dirs s then (s, Some (External ''is a directory''))
          else if Dir p \<notin> dirs s then (s, Some ErrNotExist)
          else (s\<lparr>files := (files s)(p \<mapsto> [])\<rparr>, None))"

text \<open>A write that fails may have written a part of the data, which \<open>flt\<close> does not say: none.\<close>

definition write_file :: "faults \<Rightarrow> fs \<Rightarrow> string \<Rightarrow> bytes \<Rightarrow> fs \<times> go_error option" where
  "write_file flt s p data =
     (case flt ''write'' p of
        Some e \<Rightarrow> (s, Some e)
      | None \<Rightarrow> (s\<lparr>files := (files s)(p \<mapsto> data)\<rparr>, None))"

definition ReadFile :: "faults \<Rightarrow> fs \<Rightarrow> string \<Rightarrow> go_error + bytes" where
  "ReadFile flt s p =
     (case flt ''read'' p of
        Some e \<Rightarrow> Inl e
      | None \<Rightarrow> (case files s p of None \<Rightarrow> Inl ErrNotExist | Some d \<Rightarrow> Inr d))"

section \<open>Generating and reading the key\<close>

text \<open>
  \<open>generated\<close> is the result of generating an RSA key, \<open>marshal\<close> and \<open>parse\<close> are the
  PKCS#1 functions and \<open>pem_encode\<close> and \<open>pem_decode\<close> the PEM functions, on a block's type
  and bytes.
\<close>

definition GeneratePrivateKey ::
  "go_error + 'k \<Rightarrow> ('k \<Rightarrow> bytes) \<Rightarrow> (string \<Rightarrow> bytes \<Rightarrow> bytes) \<Rightarrow> faults \<Rightarrow> fs \<Rightarrow> string \<Rightarrow>
   fs \<times> go_error option" where
  "GeneratePrivateKey generated marshal pem_encode flt s filename =
     (case generated of
        Inl err \<Rightarrow> (s, Some err)
      | Inr key \<Rightarrow>
          let err = Stat flt s (Dir filename);
              (s1, err1) = (if IsNotExist err then MkdirAll flt s (Dir filename) else (s, err))
          in (case err1 of
               Some e \<Rightarrow> (s1, Some e)
             | None \<Rightarrow>
                 (case Create flt s1 filename of
                    (s2, Some e) \<Rightarrow> (s2, Some e)
                  | (s2, None) \<Rightarrow>
                      (case write_file flt s2 filename (pem_encode ''RSA PRIVATE KEY'' (marshal key)) of
                         (s3, Some e) \<Rightarrow> (s3, Some e)
                       | (s3, None) \<Rightarrow> (s3, flt ''sync'' filename)))))"

definition ReadPublicKey ::
  "(bytes \<Rightarrow> (string \<times> bytes) option) \<Rightarrow> (bytes \<Rightarrow> go_error + 'k) \<Rightarrow> ('k \<Rightarrow> 'p) \<Rightarrow> faults \<Rightarrow> fs \<Rightarrow>
   string \<Rightarrow> go_error + 'p" where
  "ReadPublicKey pem_decode parse public flt s filename =
     (case ReadFile flt s filename of
        Inl err \<Rightarrow> Inl err
      | Inr data \<Rightarrow>
          (case pem_decode data of
             None \<Rightarrow> Inl ErrPemDecode
           | Some (_, block) \<Rightarrow>
               (case parse block of Inl err \<Rightarrow> Inl err | Inr key \<Rightarrow> Inr (public key))))"

definition EncodePublicKeyToPem ::
  "(string \<Rightarrow> bytes \<Rightarrow> bytes) \<Rightarrow> ('p \<Rightarrow> bytes) \<Rightarrow> 'p \<Rightarrow> bytes" where
  "EncodePublicKeyToPem pem_encode marshal_public key =
     pem_encode ''RSA PUBLIC KEY'' (marshal_public key)"

text \<open>
  What the encoding packages are relied on for: decoding gives back what was encoded, and
  an empty text holds no block.
\<close>

definition key_codec ::
  "('k \<Rightarrow> bytes) \<Rightarrow> (bytes \<Rightarrow> go_error + 'k) \<Rightarrow> (string \<Rightarrow> bytes \<Rightarrow> bytes) \<Rightarrow>
   (bytes \<Rightarrow> (string \<times> bytes) option) \<Rightarrow> bool" where
  "key_codec marshal parse pem_encode pem_decode \<longleftrightarrow>
     (\<forall>k. parse (marshal k) = Inr k) \<and> (\<forall>t b. \<exists>t'. pem_decode (pem_encode t b) = Some (t', b)) \<and>
     pem_decode [] = None"

text \<open>A key generated without an error is the file's contents.\<close>

lemma GeneratePrivateKey_file:
  assumes "GeneratePrivateKey (Inr key) marshal pem_encode flt s p = (s', None)"
  shows "files s' = (files s)(p \<mapsto> pem_encode ''RSA PRIVATE KEY'' (marshal key))"
  using assms
  by (auto simp: GeneratePrivateKey_def MkdirAll_def Create_def write_file_def Let_def
      split: prod.splits option.splits if_splits)

lemma GeneratePrivateKey_Inr:
  assumes "GeneratePrivateKey generated marshal pem_encode flt s p = (s', None)"
  obtains key where "generated = Inr key"
  using assms by (cases generated) (auto simp: GeneratePrivateKey_def)

lemma ReadPublicKey_file:
  assumes "key_codec marshal parse pem_encode pem_decode" "flt ''read'' p = None"
    and "files s p = Some (pem_encode t (marshal key))"
  shows "ReadPublicKey pem_decode parse public flt s p = Inr (public key)"
proof -
  obtain t' where "pem_decode (pem_encode t (marshal key)) = Some (t', marshal key)"
    using assms(1) unfolding key_codec_def by blast
  then show ?thesis using assms by (simp add: ReadPublicKey_def ReadFile_def key_codec_def)
qed

lemma GeneratePrivateKey_write_fails:
  assumes "flt ''write'' p = Some e" "\<And>c q. c \<noteq> ''write'' \<Longrightarrow> flt c q = None"
    and "Dir p \<in> dirs s" "p \<notin> dirs s"
  shows "GeneratePrivateKey (Inr key) marshal pem_encode flt s p =
    (s\<lparr>files := (files s)(p \<mapsto> [])\<rparr>, Some e)"
  using assms
  by (simp add: GeneratePrivateKey_def Stat_def IsNotExist_def Create_def write_file_def)

end
