(* ===== verification/Agent_Core.thy ===== *)
theory Agent_Core
  imports Agent_Server Keygen
begin

text \<open>
  \<^verbatim>\<open>agent/pkg/agent/agent.go\<close> and \<^verbatim>\<open>modes.go\<close>: the agent's configuration, its creation and
  its initialisation: identity, information, key, the server's information and the
  authorisation of the device. The HTTP client of the ShellHub API is given by its answers.
\<close>

section \<open>Configuration\<close>

text \<open>\<open>MaxRetryConnectionTimeout\<close> is a 64-bit Go \<^verbatim>\<open>int\<close>, of which only differences are taken.\<close>

record agent_config =
  ServerAddress :: string
  PrivateKey :: string
  TenantID :: string
  KeepAliveInterval :: "32 word"
  PreferredHostname :: string
  PreferredIdentity :: string
  SingleUserPassword :: string
  SimpleUserPassword :: string
  MaxRetryConnectionTimeout :: "64 word"

text \<open>
  The configuration read from the environment: \<open>parsed\<close> is the environment library's
  result and \<open>validated\<close> the validator's, which says whether the structure is valid and, if
  not, which fields are wrong. The result is the configuration, the fields and the error.
\<close>

definition LoadConfigFromEnv ::
  "go_error + agent_config \<Rightarrow> (agent_config \<Rightarrow> bool \<times> (string \<times> string) list \<times> go_error option) \<Rightarrow>
   agent_config option \<times> (string \<times> string) list option \<times> go_error option" where
  "LoadConfigFromEnv parsed validated =
     (case parsed of
        Inl err \<Rightarrow> (None, None, Some err)
      | Inr cfg \<Rightarrow>
          (case validated cfg of
             (ok, wrong, err) \<Rightarrow>
               if err \<noteq> None \<or> \<not> ok then (None, Some wrong, err) else (Some cfg, None, None)))"

section \<open>The agent\<close>

record DeviceInfo =
  info_ID :: string
  PrettyName :: string
  Version :: string
  Platform :: string
  Arch :: string

record DeviceAuthResponse =
  Token :: string
  Name :: string
  Namespace :: string

record ServerInfo =
  server_Version :: string
  Endpoints_SSH :: string

record DeviceAuthRequest =
  req_Info :: "DeviceInfo option"
  req_Hostname :: string
  req_Identity :: "string option"
  req_TenantID :: string
  req_PublicKey :: bytes

text \<open>
  The identity is a MAC address. A mode is the information it gives; serving is the same
  for the one mode the program has. \<open>'p\<close> is the type of public keys.
\<close>

record mode_info =
  mode_ID :: string
  mode_Name :: string

type_synonym Mode = "go_error + mode_info"

record 'p agent =
  config :: agent_config
  pubKey :: "'p option"
  Identity :: "string option"
  agent_Info :: "DeviceInfo option"
  authData :: "DeviceAuthResponse option"
  cli :: "handle option"
  serverInfo :: "ServerInfo option"
  agent_server :: "Server option"
  is_closed :: bool
  agent_mode :: Mode

definition ErrEmptyServerAddress :: go_error where
  "ErrEmptyServerAddress = Sentinel ''ErrNewAgentWithConfigEmptyServerAddress''"
definition ErrInvalidServerAddress :: go_error where
  "ErrInvalidServerAddress = Sentinel ''ErrNewAgentWithConfigInvalidServerAddress''"
definition ErrEmptyTenant :: go_error where
  "ErrEmptyTenant = Sentinel ''ErrNewAgentWithConfigEmptyTenant''"
definition ErrEmptyPrivateKey :: go_error where
  "ErrEmptyPrivateKey = Sentinel ''ErrNewAgentWithConfigEmptyPrivateKey''"
definition ErrNilMode :: go_error where
  "ErrNilMode = Sentinel ''ErrNewAgentWithConfigNilMode''"
definition ErrNoIdentityAndHostname :: go_error where
  "ErrNoIdentityAndHostname = Sentinel ''ErrNoIdentityAndHostname''"

lemmas agent_error_defs = ErrEmptyServerAddress_def ErrInvalidServerAddress_def
  ErrEmptyTenant_def ErrEmptyPrivateKey_def ErrNilMode_def

text \<open>\<open>valid_uri\<close> is the URL package's test of a request URI.\<close>

definition NewAgentWithConfig ::
  "(string \<Rightarrow> bool) \<Rightarrow> agent_config \<Rightarrow> Mode option \<Rightarrow> go_error + 'p agent" where
  "NewAgentWithConfig valid_uri cfg mode =
     (if ServerAddress cfg = [] then Inl ErrEmptyServerAddress
      else if \<not> valid_uri (ServerAddress cfg) then Inl ErrInvalidServerAddress
      else if TenantID cfg = [] then Inl ErrEmptyTenant
      else if PrivateKey cfg = [] then Inl ErrEmptyPrivateKey
      else (case mode of
              None \<Rightarrow> Inl ErrNilMode
            | Some m \<Rightarrow>
                Inr \<lparr>config = cfg, pubKey = None, Identity = None, agent_Info = None, authData = None,
                     cli = None, serverInfo = None, agent_server = None, is_closed = False,
                     agent_mode = m\<rparr>))"

definition NewAgent ::
  "(string \<Rightarrow> bool) \<Rightarrow> string \<Rightarrow> string \<Rightarrow> string \<Rightarrow> Mode option \<Rightarrow> go_error + 'p agent" where
  "NewAgent valid_uri address tenantID privateKey mode =
     NewAgentWithConfig valid_uri
       \<lparr>ServerAddress = address, PrivateKey = privateKey, TenantID = tenantID,
        KeepAliveInterval = 0, PreferredHostname = [], PreferredIdentity = [],
        SingleUserPassword = [], SimpleUserPassword = [], MaxRetryConnectionTimeout = 0\<rparr> mode"

section \<open>Initialisation\<close>

text \<open>
  What the steps get from outside: the HTTP client or why there is none, the key packages
  and the file system's faults, a freshly generated key, and the API's answers.
\<close>

record ('k, 'p) init_env =
  made_client :: "go_error + handle"
  os_faults :: faults
  generated_key :: "go_error + 'k"
  key_marshal :: "'k \<Rightarrow> bytes"
  key_parse :: "bytes \<Rightarrow> go_error + 'k"
  key_public :: "'k \<Rightarrow> 'p"
  marshal_public :: "'p \<Rightarrow> bytes"
  env_pem_encode :: "string \<Rightarrow> bytes \<Rightarrow> bytes"
  env_pem_decode :: "bytes \<Rightarrow> (string \<times> bytes) option"
  server_info :: "go_error + ServerInfo"
  auth_device :: "DeviceAuthRequest \<Rightarrow> go_error + DeviceAuthResponse"
  build :: "string \<times> string \<times> string"

text \<open>\<open>build\<close> holds the agent's version and platform and the architecture it was built for.\<close>

definition generatePrivateKey :: "('k, 'p) init_env \<Rightarrow> fs \<Rightarrow> 'p agent \<Rightarrow> fs \<times> go_error option" where
  "generatePrivateKey env s a =
     (if IsNotExist (Stat (os_faults env) s (PrivateKey (config a)))
      then GeneratePrivateKey (generated_key env) (key_marshal env) (env_pem_encode env)
             (os_faults env) s (PrivateKey (config a))
      else (s, None))"

definition readPublicKey :: "('k, 'p) init_env \<Rightarrow> fs \<Rightarrow> 'p agent \<Rightarrow> 'p agent \<times> go_error option" where
  "readPublicKey env s a =
     (case ReadPublicKey (env_pem_decode env) (key_parse env) (key_public env) (os_faults env) s
             (PrivateKey (config a)) of
        Inl err \<Rightarrow> (a\<lparr>pubKey := None\<rparr>, Some err)
      | Inr key \<Rightarrow> (a\<lparr>pubKey := Some key\<rparr>, None))"

definition generateDeviceIdentity :: "'p agent \<Rightarrow> 'p agent \<times> go_error option" where
  "generateDeviceIdentity a =
     (if PreferredIdentity (config a) \<noteq> [] then
        (a\<lparr>Identity := Some (PreferredIdentity (config a))\<rparr>, None)
      else (a\<lparr>Identity := Some ''00:00:00:00:00:00''\<rparr>, None))"

definition loadDeviceInfo :: "('k, 'p) init_env \<Rightarrow> 'p agent \<Rightarrow> 'p agent \<times> go_error option" where
  "loadDeviceInfo env a =
     (case agent_mode a of
        Inl err \<Rightarrow> (a, Some err)
      | Inr info \<Rightarrow>
          (case build env of (version, platform, arch) \<Rightarrow>
             (a\<lparr>agent_Info := Some \<lparr>info_ID = mode_ID info, PrettyName = mode_Name info,
                Version = version, Platform = platform, Arch = arch\<rparr>\<rparr>, None)))"

definition probeServerInfo :: "('k, 'p) init_env \<Rightarrow> 'p agent \<Rightarrow> 'p agent \<times> go_error option" where
  "probeServerInfo env a =
     (case server_info env of
        Inl err \<Rightarrow> (a\<lparr>serverInfo := None\<rparr>, Some err)
      | Inr info \<Rightarrow> (a\<lparr>serverInfo := Some info\<rparr>, None))"

text \<open>Authorising without a public key or without a client uses a nil pointer.\<close>

definition auth_request :: "('k, 'p) init_env \<Rightarrow> 'p agent \<Rightarrow> 'p \<Rightarrow> DeviceAuthRequest" where
  "auth_request env a key =
     \<lparr>req_Info = agent_Info a, req_Hostname = PreferredHostname (config a),
      req_Identity = Identity a, req_TenantID = TenantID (config a),
      req_PublicKey = EncodePublicKeyToPem (env_pem_encode env) (marshal_public env) key\<rparr>"

definition authorize :: "('k, 'p) init_env \<Rightarrow> 'p agent \<Rightarrow> ('p agent \<times> go_error option) go" where
  "authorize env a =
     (case pubKey a of
        None \<Rightarrow> Panic
      | Some key \<Rightarrow>
          let req = auth_request env a key
          in (if req_Hostname req = [] \<and> (req_Identity req = None \<or> req_Identity req = Some [])
              then Val (a, Some ErrNoIdentityAndHostname)
              else (case cli a of
                      None \<Rightarrow> Panic
                    | Some _ \<Rightarrow>
                        (case auth_device env req of
                           Inl err \<Rightarrow> Val (a, Some err)
                         | Inr data \<Rightarrow> Val (a\<lparr>authData := Some data\<rparr>, None)))))"

text \<open>
  \<open>wrapped msg stop r f\<close>: when the step's result \<open>r\<close> has an error, the initialisation stops
  with the error wrapped with its message; otherwise it goes on with \<open>f\<close>.
\<close>

definition wrapped ::
  "string \<Rightarrow> ('a \<Rightarrow> 'b) \<Rightarrow> 'a \<times> go_error option \<Rightarrow> ('a \<Rightarrow> ('b \<times> go_error option) go) \<Rightarrow>
   ('b \<times> go_error option) go" where
  "wrapped msg stop r f =
     (case r of (a, Some err) \<Rightarrow> Val (stop a, Some (Wrap msg err)) | (a, None) \<Rightarrow> f a)"

definition Initialize ::
  "('k, 'p) init_env \<Rightarrow> fs \<Rightarrow> 'p agent \<Rightarrow> ((fs \<times> 'p agent) \<times> go_error option) go" where
  "Initialize env s a0 =
     (case made_client env of
        Inl err \<Rightarrow> Val ((s, a0\<lparr>cli := None\<rparr>), Some (Wrap ''failed to create the HTTP client'' err))
      | Inr c \<Rightarrow>
          wrapped ''failed to generate device identity'' (Pair s)
            (generateDeviceIdentity (a0\<lparr>cli := Some c\<rparr>)) (\<lambda>a1.
          wrapped ''failed to load device info'' (Pair s) (loadDeviceInfo env a1) (\<lambda>a2.
          wrapped ''failed to generate private key'' (\<lambda>s1. (s1, a2)) (generatePrivateKey env s a2) (\<lambda>s1.
          wrapped ''failed to read public key'' (Pair s1) (readPublicKey env s1 a2) (\<lambda>a3.
          wrapped ''failed to probe server info'' (Pair s1) (probeServerInfo env a3) (\<lambda>a4.
          go_bind (authorize env a4) (\<lambda>r.
          wrapped ''failed to authorize device'' (Pair s1) r (\<lambda>a5.
            Val ((s1, a5\<lparr>is_closed := False\<rparr>), None)))))))))"

section \<open>The host mode\<close>

text \<open>\<open>goos\<close> is the operating system's name. The server's configuration is fixed but for the key
  and the keepalive interval.\<close>

definition HostMode_GetInfo :: "string \<Rightarrow> Mode" where
  "HostMode_GetInfo goos = Inr \<lparr>mode_ID = goos, mode_Name = goos\<rparr>"

definition HostMode_Serve :: "'p agent \<Rightarrow> 'p agent go" where
  "HostMode_Serve a =
     (case authData a of
        None \<Rightarrow> Panic
      | Some auth \<Rightarrow>
          Val (a\<lparr>agent_server := Some (SetDeviceName (Name auth) (NewServer
            \<lparr>srv_PrivateKey = PrivateKey (config a), srv_KeepAliveInterval = KeepAliveInterval (config a),
             Features = LocalPortForwardFeature\<rparr>))\<rparr>))"

text \<open>The server's information, from the agent when it has it.\<close>

definition agent_GetInfo :: "('k, 'p) init_env \<Rightarrow> 'p agent \<Rightarrow> ('p agent \<times> (go_error + ServerInfo)) go" where
  "agent_GetInfo env a =
     (case serverInfo a of
        Some info \<Rightarrow> Val (a, Inr info)
      | None \<Rightarrow>
          (case cli a of
             None \<Rightarrow> Panic
           | Some _ \<Rightarrow>
               (case server_info env of
                  Inl err \<Rightarrow> Val (a, Inl err)
                | Inr info \<Rightarrow> Val (a\<lparr>serverInfo := Some info\<rparr>, Inr info))))"

definition GetInfo ::
  "(string \<Rightarrow> go_error + handle) \<Rightarrow> (handle \<Rightarrow> go_error + ServerInfo) \<Rightarrow> agent_config \<Rightarrow>
   go_error + ServerInfo" where
  "GetInfo new_client get_info cfg =
     (case new_client (ServerAddress cfg) of
        Inl err \<Rightarrow> Inl (Wrap ''failed to create the HTTP client'' err)
      | Inr c \<Rightarrow> get_info c)"

text \<open>\<open>parse_version\<close> is the version package's.\<close>

definition CheckUpdate ::
  "(string \<Rightarrow> go_error + 'v) \<Rightarrow> ('k, 'p) init_env \<Rightarrow> 'p agent \<Rightarrow> (go_error + 'v) go" where
  "CheckUpdate parse_version env a =
     (case cli a of
        None \<Rightarrow> Panic
      | Some _ \<Rightarrow>
          (case server_info env of
             Inl err \<Rightarrow> Val (Inl err)
           | Inr info \<Rightarrow> Val (parse_version (server_Version info))))"

section \<open>Creation\<close>

text \<open>
  Creating an agent checks its configuration completely and in a fixed order: it
  succeeds exactly when the address is a valid URI, the tenant and the key's path are given
  and there is a mode, and then the agent is unopened and holds that configuration;
  otherwise the error names the first thing missing.
\<close>

lemma NewAgentWithConfig_exact:
  "((\<exists>a. NewAgentWithConfig valid_uri cfg mode = Inr a) \<longleftrightarrow>
      ServerAddress cfg \<noteq> [] \<and> valid_uri (ServerAddress cfg) \<and> TenantID cfg \<noteq> [] \<and>
      PrivateKey cfg \<noteq> [] \<and> mode \<noteq> None) \<and>
   (NewAgentWithConfig valid_uri cfg mode = Inl e \<longleftrightarrow>
      (if ServerAddress cfg = [] then e = ErrEmptyServerAddress
       else if \<not> valid_uri (ServerAddress cfg) then e = ErrInvalidServerAddress
       else if TenantID cfg = [] then e = ErrEmptyTenant
       else if PrivateKey cfg = [] then e = ErrEmptyPrivateKey
       else mode = None \<and> e = ErrNilMode))"
  by (cases mode) (auto simp: NewAgentWithConfig_def)

section \<open>The steps of the initialisation\<close>

lemma generateDeviceIdentity_eq:
  "generateDeviceIdentity a = (a\<lparr>Identity := Some (if PreferredIdentity (config a) \<noteq> []
     then PreferredIdentity (config a) else ''00:00:00:00:00:00'')\<rparr>, None)"
  by (simp add: generateDeviceIdentity_def)

lemma authorize_returns:
  assumes "pubKey a = Some key" "cli a = Some c" "Identity a = Some i" "i \<noteq> []"
  shows "authorize env a =
    (case auth_device env (auth_request env a key) of
       Inl err \<Rightarrow> Val (a, Some err)
     | Inr data \<Rightarrow> Val (a\<lparr>authData := Some data\<rparr>, None))"
  using assms by (simp add: authorize_def auth_request_def)

lemma generatePrivateKey_existing:
  assumes "Stat (os_faults env) s (PrivateKey (config a)) = None"
  shows "generatePrivateKey env s a = (s, None)"
  using assms by (simp add: generatePrivateKey_def IsNotExist_def)

lemma wrapped_eqs:
  "wrapped m stop (a, Some e) f = Val (stop a, Some (Wrap m e))"
  "wrapped m stop (a, None) f = f a"
  by (simp_all add: wrapped_def)

text \<open>The initialisation up to its last step, with every earlier step's result.\<close>

lemma Initialize_steps:
  assumes c: "made_client env = Inr c"
    and i: "generateDeviceIdentity (a0\<lparr>cli := Some c\<rparr>) = (a1, None)"
    and m: "loadDeviceInfo env a1 = (a2, None)"
    and k: "generatePrivateKey env s a2 = (s1, None)"
    and r: "readPublicKey env s1 a2 = (a3, None)"
    and p: "probeServerInfo env a3 = (a4, None)"
  shows "Initialize env s a0 =
    go_bind (authorize env a4) (\<lambda>(a5, err).
      case err of
        Some e \<Rightarrow> Val ((s1, a5), Some (Wrap ''failed to authorize device'' e))
      | None \<Rightarrow> Val ((s1, a5\<lparr>is_closed := False\<rparr>), None))"
  unfolding Initialize_def using assms
  by (simp add: wrapped_def split: prod.split)

lemma loadDeviceInfo_keeps:
  "loadDeviceInfo env a = (a', e) \<Longrightarrow> config a' = config a \<and> Identity a' = Identity a \<and> cli a' = cli a"
  by (auto simp: loadDeviceInfo_def split: sum.splits prod.splits)

lemma readPublicKey_keeps:
  "readPublicKey env s a = (a', e) \<Longrightarrow> config a' = config a \<and> Identity a' = Identity a \<and>
   cli a' = cli a \<and> (e = None \<longrightarrow> (\<exists>key. pubKey a' = Some key \<and>
     ReadPublicKey (env_pem_decode env) (key_parse env) (key_public env) (os_faults env) s
       (PrivateKey (config a)) = Inr key))"
  by (auto simp: readPublicKey_def split: sum.splits)

lemma probeServerInfo_keeps:
  "probeServerInfo env a = (a', e) \<Longrightarrow> config a' = config a \<and> Identity a' = Identity a \<and>
   cli a' = cli a \<and> pubKey a' = pubKey a"
  by (auto simp: probeServerInfo_def split: sum.splits)

text \<open>What an agent holds once the key has been read and the server asked.\<close>

definition ready :: "('k, 'p) init_env \<Rightarrow> fs \<Rightarrow> agent_config \<Rightarrow> 'p agent \<Rightarrow> bool" where
  "ready env s cfg a \<longleftrightarrow>
     config a = cfg \<and> cli a \<noteq> None \<and>
     Identity a = Some (if PreferredIdentity cfg \<noteq> [] then PreferredIdentity cfg
       else ''00:00:00:00:00:00'') \<and>
     (\<exists>key. pubKey a = Some key \<and>
        ReadPublicKey (env_pem_decode env) (key_parse env) (key_public env) (os_faults env) s
          (PrivateKey cfg) = Inr key)"

text \<open>Either an early step fails, or the agent is ready for the last one.\<close>

lemma Initialize_cases:
  obtains (stops) s1 a1 m err where "Initialize env s a0 = Val ((s1, a1), Some (Wrap m err))"
      "m \<noteq> ''failed to authorize device''"
  | (last) s1 a4 where "ready env s1 (config a0) a4"
      "\<exists>a2. config a2 = config a0 \<and> generatePrivateKey env s a2 = (s1, None)"
      "Initialize env s a0 = go_bind (authorize env a4) (\<lambda>(a5, err).
         case err of
           Some e \<Rightarrow> Val ((s1, a5), Some (Wrap ''failed to authorize device'' e))
         | None \<Rightarrow> Val ((s1, a5\<lparr>is_closed := False\<rparr>), None))"
proof (cases "made_client env")
  case (Inl err)
  then show thesis using stops by (simp add: Initialize_def)
next
  case c: (Inr c)
  obtain a1 where i: "generateDeviceIdentity (a0\<lparr>cli := Some c\<rparr>) = (a1, None)"
    by (simp add: generateDeviceIdentity_eq)
  then have a1: "config a1 = config a0" "cli a1 = Some c"
    "Identity a1 = Some (if PreferredIdentity (config a0) \<noteq> [] then PreferredIdentity (config a0)
       else ''00:00:00:00:00:00'')"
    by (auto simp: generateDeviceIdentity_eq)
  obtain a2 e2 where m: "loadDeviceInfo env a1 = (a2, e2)" by (cases "loadDeviceInfo env a1")
  obtain s1 e3 where k: "generatePrivateKey env s a2 = (s1, e3)"
    by (cases "generatePrivateKey env s a2")
  obtain a3 e4 where r: "readPublicKey env s1 a2 = (a3, e4)" by (cases "readPublicKey env s1 a2")
  obtain a4 e5 where p: "probeServerInfo env a3 = (a4, e5)" by (cases "probeServerInfo env a3")
  note eqs = c i m k r p
  show thesis
  proof (cases "e2 = None \<and> e3 = None \<and> e4 = None \<and> e5 = None")
    case True
    then have "ready env s1 (config a0) a4"
      using a1 loadDeviceInfo_keeps [OF m] readPublicKey_keeps [OF r] probeServerInfo_keeps [OF p]
      by (auto simp: ready_def)
    moreover have "\<exists>a2. config a2 = config a0 \<and> generatePrivateKey env s a2 = (s1, None)"
      using a1 loadDeviceInfo_keeps [OF m] k True by auto
    moreover have "Initialize env s a0 = go_bind (authorize env a4) (\<lambda>(a5, err).
         case err of
           Some e \<Rightarrow> Val ((s1, a5), Some (Wrap ''failed to authorize device'' e))
         | None \<Rightarrow> Val ((s1, a5\<lparr>is_closed := False\<rparr>), None))"
      using True eqs by (intro Initialize_steps [of env c a0 a1 a2 s s1 a3 a4]) simp_all
    ultimately show thesis by (rule last)
  next
    case False
    then consider (info) e where "e2 = Some e" | (key) e where "e2 = None" "e3 = Some e"
      | (pub) e where "e2 = None" "e3 = None" "e4 = Some e"
      | (probe) e where "e2 = None" "e3 = None" "e4 = None" "e5 = Some e"
      by (cases e2; cases e3; cases e4; cases e5) auto
    then show thesis
    proof cases
      case info
      then have "Initialize env s a0 = Val ((s, a2), Some (Wrap ''failed to load device info'' e))"
        by (simp add: Initialize_def eqs wrapped_eqs)
      then show thesis by (rule stops) simp
    next
      case key
      then have "Initialize env s a0 = Val ((s1, a2), Some (Wrap ''failed to generate private key'' e))"
        by (simp add: Initialize_def eqs wrapped_eqs)
      then show thesis by (rule stops) simp
    next
      case pub
      then have "Initialize env s a0 = Val ((s1, a3), Some (Wrap ''failed to read public key'' e))"
        by (simp add: Initialize_def eqs wrapped_eqs)
      then show thesis by (rule stops) simp
    next
      case probe
      then have "Initialize env s a0 = Val ((s1, a4), Some (Wrap ''failed to probe server info'' e))"
        by (simp add: Initialize_def eqs wrapped_eqs)
      then show thesis by (rule stops) simp
    qed
  qed
qed

text \<open>A key that was generated is the key that is read afterwards.\<close>

lemma generated_key_read_back:
  assumes "key_codec (key_marshal env) (key_parse env) (env_pem_encode env) (env_pem_decode env)"
    and "IsNotExist (Stat (os_faults env) s (PrivateKey (config a)))"
    and "generatePrivateKey env s a = (s1, None)" "generated_key env = Inr k"
    and "os_faults env ''read'' (PrivateKey (config a)) = None"
  shows "readPublicKey env s1 a = (a\<lparr>pubKey := Some (key_public env k)\<rparr>, None)"
proof -
  have "files s1 = (files s)(PrivateKey (config a) \<mapsto>
      env_pem_encode env ''RSA PRIVATE KEY'' (key_marshal env k))"
    using assms(2-4) unfolding generatePrivateKey_def by (simp add: GeneratePrivateKey_file)
  then have "files s1 (PrivateKey (config a)) =
      Some (env_pem_encode env ''RSA PRIVATE KEY'' (key_marshal env k))" by simp
  then have "ReadPublicKey (env_pem_decode env) (key_parse env) (key_public env) (os_faults env) s1
      (PrivateKey (config a)) = Inr (key_public env k)"
    using assms(1,5) by (intro ReadPublicKey_file)
  then show ?thesis by (simp add: readPublicKey_def)
qed

section \<open>Properties\<close>

text \<open>
  C28. Initialising an agent never panics. It succeeds only with an agent that can serve:
  with the public key of the key file, an identity, which is the preferred one or one fixed
  address, and the server's answer to a request that carries both. A key file that exists
  is never touched.
\<close>

theorem initialize_ready:
  "returns (Initialize env s a) \<and>
   (\<forall>s' a'. Initialize env s a = Val ((s', a'), None) \<longrightarrow>
      ready env s' (config a) a' \<and> \<not> is_closed a' \<and>
      (\<exists>key auth. pubKey a' = Some key \<and> auth_device env (auth_request env a' key) = Inr auth \<and>
         authData a' = Some auth) \<and>
      returns (HostMode_Serve a') \<and>
      (Stat (os_faults env) s (PrivateKey (config a)) = None \<longrightarrow> s' = s))"
proof (cases rule: Initialize_cases [of env s a])
  case (stops s1 a1 m err)
  then show ?thesis by simp
next
  case (last s1 a4)
  then obtain key c i where k: "pubKey a4 = Some key" "cli a4 = Some c" "Identity a4 = Some i" "i \<noteq> []"
    by (auto simp: ready_def)
  have same: "Stat (os_faults env) s (PrivateKey (config a)) = None \<Longrightarrow> s1 = s"
    using last(2) by (auto simp: generatePrivateKey_def IsNotExist_def)
  note auth = authorize_returns [OF k, of env]
  show ?thesis
  proof (cases "auth_device env (auth_request env a4 key)")
    case (Inl e)
    then show ?thesis using last(3) auth by simp
  next
    case (Inr data)
    let ?a' = "a4\<lparr>authData := Some data, is_closed := False\<rparr>"
    have "Initialize env s a = Val ((s1, ?a'), None)" using last(3) auth Inr by simp
    moreover have "ready env s1 (config a) ?a'" using last(1) by (simp add: ready_def)
    moreover have "auth_request env ?a' key = auth_request env a4 key"
      by (simp add: auth_request_def)
    ultimately show ?thesis using k Inr same by (simp add: HostMode_Serve_def)
  qed
qed

definition demo_config :: agent_config where
  "demo_config =
     \<lparr>ServerAddress = ''http://localhost'', PrivateKey = ''/etc/key'', TenantID = ''t1'',
      KeepAliveInterval = 30, PreferredHostname = [], PreferredIdentity = [],
      SingleUserPassword = [], SimpleUserPassword = [], MaxRetryConnectionTimeout = 60\<rparr>"

definition demo_env :: "(nat, nat) init_env" where
  "demo_env =
     \<lparr>made_client = Inr 1, os_faults = (\<lambda>_ _. None), generated_key = Inr 7,
      key_marshal = (\<lambda>k. replicate k (CHR ''k'')), key_parse = (\<lambda>b. Inr (length b)),
      key_public = Suc, marshal_public = (\<lambda>p. replicate p (CHR ''p'')),
      env_pem_encode = (\<lambda>t b. CHR ''P'' # b),
      env_pem_decode = (\<lambda>d. case d of [] \<Rightarrow> None | c # b \<Rightarrow> Some (''RSA PRIVATE KEY'', b)),
      server_info = Inr \<lparr>server_Version = ''v0.9.3'', Endpoints_SSH = ''localhost:22''\<rparr>,
      auth_device = (\<lambda>_. Inr \<lparr>Token = ''tok'', Name = ''dev'', Namespace = ''ns''\<rparr>),
      build = (''latest'', ''native'', ''amd64'')\<rparr>"

definition demo_fs :: fs where
  "demo_fs = \<lparr>files = Map.empty, dirs = {''/etc''}\<rparr>"

definition demo_agent :: "nat agent" where
  "demo_agent =
     \<lparr>config = demo_config, pubKey = None, Identity = None, agent_Info = None, authData = None,
      cli = None, serverInfo = None, agent_server = None, is_closed = False,
      agent_mode = HostMode_GetInfo ''linux''\<rparr>"

lemma demo_initialize:
  "\<exists>s' a'. Initialize demo_env demo_fs demo_agent = Val ((s', a'), None)"
  by (simp add: Initialize_def wrapped_def demo_env_def demo_fs_def demo_agent_def demo_config_def
      generateDeviceIdentity_def loadDeviceInfo_def HostMode_GetInfo_def generatePrivateKey_def
      IsNotExist_def Stat_def GeneratePrivateKey_def Create_def write_file_def Dir_def cut_last_def
      readPublicKey_def ReadPublicKey_def ReadFile_def probeServerInfo_def authorize_def
      auth_request_def ErrNotExist_def)

theorem initialize_ready_witness:
  "\<exists>s' a'. Initialize demo_env demo_fs demo_agent = Val ((s', a'), None) \<and>
     Identity a' = Some ''00:00:00:00:00:00'' \<and> returns (HostMode_Serve a')"
proof -
  obtain s' a' where i: "Initialize demo_env demo_fs demo_agent = Val ((s', a'), None)"
    using demo_initialize by blast
  with initialize_ready [of demo_env demo_fs demo_agent]
  have "ready demo_env s' (config demo_agent) a' \<and> returns (HostMode_Serve a')" by blast
  with i show ?thesis by (auto simp: ready_def demo_agent_def demo_config_def)
qed

text \<open>
  C36. A key file that could not be written is never repaired. When writing it fails, the
  file is left empty; from then on every initialisation, with everything in order, fails to
  read it and leaves it as it is.
\<close>

theorem broken_key_never_repaired:
  assumes codec: "env_pem_decode env [] = None"
    and key: "generated_key env = Inr k"
    and flt: "os_faults env ''write'' (PrivateKey (config a)) = Some e"
      "\<And>c q. c \<noteq> ''write'' \<Longrightarrow> os_faults env c q = None"
    and new: "PrivateKey (config a) \<notin> dom (files s)" "PrivateKey (config a) \<notin> dirs s"
      "Dir (PrivateKey (config a)) \<in> dirs s"
    and later: "os_faults env' = (\<lambda>_ _. None)" "made_client env' = Inr c"
      "env_pem_decode env' = env_pem_decode env" "agent_mode a' = Inr info"
      "PrivateKey (config a') = PrivateKey (config a)"
  shows "\<exists>s1 a1. generatePrivateKey env s a = (s1, Some e) \<and>
     Initialize env' s1 a' = Val ((s1, a1), Some (Wrap ''failed to read public key'' ErrPemDecode))"
proof -
  let ?p = "PrivateKey (config a)"
  let ?s1 = "s\<lparr>files := (files s)(?p \<mapsto> [])\<rparr>"
  have "Stat (os_faults env) s ?p = Some ErrNotExist"
    using flt(2) new by (simp add: Stat_def)
  then have "generatePrivateKey env s a =
      GeneratePrivateKey (generated_key env) (key_marshal env) (env_pem_encode env) (os_faults env) s ?p"
    by (simp add: generatePrivateKey_def IsNotExist_def)
  then have g: "generatePrivateKey env s a = (?s1, Some e)"
    using GeneratePrivateKey_write_fails
      [where flt = "os_faults env" and p = ?p, OF flt(1) flt(2) new(3,2)] key by simp
  have r: "\<exists>a3. readPublicKey env' ?s1 b = (a3, Some ErrPemDecode)" if "config b = config a'" for b
    using that later codec by (simp add: readPublicKey_def ReadPublicKey_def ReadFile_def)
  have k: "generatePrivateKey env' ?s1 b = (?s1, None)" if "config b = config a'" for b
    using that later by (intro generatePrivateKey_existing) (simp add: Stat_def)
  obtain a1 where i: "generateDeviceIdentity (a'\<lparr>cli := Some c\<rparr>) = (a1, None)"
    "config a1 = config a'" "agent_mode a1 = Inr info"
    using later by (simp add: generateDeviceIdentity_eq)
  obtain a2 where m: "loadDeviceInfo env' a1 = (a2, None)" "config a2 = config a'"
    using i by (cases "build env'") (auto simp: loadDeviceInfo_def)
  obtain a3 where "readPublicKey env' ?s1 a2 = (a3, Some ErrPemDecode)" using r m by blast
  then have "Initialize env' ?s1 a' =
      Val ((?s1, a3), Some (Wrap ''failed to read public key'' ErrPemDecode))"
    using later(2) i m k by (simp add: Initialize_def wrapped_def)
  with g show ?thesis by blast
qed

definition full_disk :: faults where
  "full_disk c q = (if c = ''write'' then Some (External ''no space left on device'') else None)"

theorem broken_key_never_repaired_witness:
  "\<exists>s1 a1. generatePrivateKey (demo_env\<lparr>os_faults := full_disk\<rparr>) demo_fs demo_agent =
       (s1, Some (External ''no space left on device'')) \<and>
     Initialize demo_env s1 demo_agent =
       Val ((s1, a1), Some (Wrap ''failed to read public key'' ErrPemDecode))"
  by (rule broken_key_never_repaired [where k = 7 and c = 1 and
        info = "\<lparr>mode_ID = ''linux'', mode_Name = ''linux''\<rparr>"])
     (simp_all add: demo_env_def full_disk_def demo_fs_def demo_agent_def
      demo_config_def HostMode_GetInfo_def Dir_def cut_last_def fun_eq_iff)

end
