(* ===== verification/Agent_Run.thy ===== *)
theory Agent_Run
  imports Agent_Core
begin

text \<open>
  The running agent (\<^verbatim>\<open>Listen\<close> and \<^verbatim>\<open>ping\<close> of \<^verbatim>\<open>agent/pkg/agent/agent.go\<close>): the name it
  shows for itself, the periodic authorisation, and the goroutines that meet on the channel
  \<^verbatim>\<open>listening\<close>.
\<close>

section \<open>The agent's SSHID\<close>

text \<open>
  \<^verbatim>\<open>strings.NewReplacer\<close>: at each position the first of the pairs whose text stands there is
  replaced, and what was put in is not looked at again.
\<close>

function Replace :: "(string \<times> string) list \<Rightarrow> string \<Rightarrow> string" where
  "Replace pairs s =
     (case find (\<lambda>(old, _). old \<noteq> [] \<and> HasPrefix s old) pairs of
        Some (old, new) \<Rightarrow> new @ Replace pairs (drop (length old) s)
      | None \<Rightarrow> (case s of [] \<Rightarrow> [] | c # cs \<Rightarrow> c # Replace pairs cs))"
  by pat_completeness auto
termination
  by (relation "measure (\<lambda>(_, s). length s)") (auto simp: find_Some_iff HasPrefix_def prefix_def)

declare Replace.simps [simp del]

definition sshid :: "string \<Rightarrow> string \<Rightarrow> string \<Rightarrow> string" where
  "sshid namespace tenantName sshEndpoint =
     Replace [(''{namespace}'', namespace), (''{tenantName}'', tenantName),
       (''{sshEndpoint}'', Split sshEndpoint (CHR '':'') ! 0)]
       (''{namespace}.{tenantName}@'' @ ''{sshEndpoint}'')"

lemma Replace_found:
  assumes "find (\<lambda>(old, _). old \<noteq> [] \<and> HasPrefix s old) pairs = Some (old, new)"
  shows "Replace pairs s = new @ Replace pairs (drop (length old) s)"
  using assms by (subst Replace.simps) simp

lemma Replace_skip:
  assumes "find (\<lambda>(old, _). old \<noteq> [] \<and> HasPrefix (c # cs) old) pairs = None"
  shows "Replace pairs (c # cs) = c # Replace pairs cs"
  using assms by (subst Replace.simps) simp

lemma sshid_exact_aux:
  "sshid ns name ep = ns @ ''.'' @ name @ ''@'' @ takeWhile (\<lambda>c. c \<noteq> CHR '':'') ep"
proof -
  let ?e = "''{sshEndpoint}''"
  let ?h = "Split ep (CHR '':'') ! 0"
  let ?p = "[(''{namespace}'', ns), (''{tenantName}'', name), (''{sshEndpoint}'', ?h)]"
  have nil: "Replace ?p [] = []" by (subst Replace.simps) (simp add: HasPrefix_def)
  have "Replace ?p ''{sshEndpoint}'' = ?h"
    by (subst Replace_found [where old = "''{sshEndpoint}''" and new = ?h])
       (simp_all add: HasPrefix_def nil)
  then have "Replace ?p (CHR ''@'' # ?e) = CHR ''@'' # ?h"
    by (subst Replace_skip) (simp_all add: HasPrefix_def)
  then have "Replace ?p (''{tenantName}@'' @ ?e) = name @ CHR ''@'' # ?h"
    by (subst Replace_found [where old = "''{tenantName}''" and new = name])
       (simp_all add: HasPrefix_def)
  then have "Replace ?p (CHR ''.'' # ''{tenantName}@'' @ ?e) = CHR ''.'' # name @ CHR ''@'' # ?h"
    by (subst Replace_skip) (simp_all add: HasPrefix_def)
  then have "Replace ?p (''{namespace}.{tenantName}@'' @ ?e) =
      ns @ CHR ''.'' # name @ CHR ''@'' # ?h"
    by (subst Replace_found [where old = "''{namespace}''" and new = ns])
       (simp_all add: HasPrefix_def)
  then show ?thesis by (simp add: sshid_def Split_hd)
qed

text \<open>
  C32. The name under which an agent logs itself, made by the general replacer of the standard
  library over a pattern with three keys, is the plain concatenation of the namespace, a
  dot, the device's name, an at sign and the endpoint's host, whatever these contain: text
  that was put in is never replaced again.
\<close>

theorem sshid_exact:
  "sshid ns name ep = ns @ ''.'' @ name @ ''@'' @ takeWhile (\<lambda>c. c \<noteq> CHR '':'') ep"
  by (rule sshid_exact_aux)

section \<open>The ping\<close>

text \<open>
  The delay added to the interval: \<open>draw\<close> is the number the random generator gives, which
  \<^verbatim>\<open>rand.Intn\<close> reduces to its bound; it panics when the bound is not positive.
\<close>

definition Intn :: "nat \<Rightarrow> 64 word \<Rightarrow> 64 word go" where
  "Intn draw n = (if sint n \<le> 0 then Panic else Val (of_int (int draw mod sint n)))"

definition rand_timeout :: "nat \<Rightarrow> agent_config \<Rightarrow> 64 word go" where
  "rand_timeout draw cfg =
     go_bind (Intn draw (MaxRetryConnectionTimeout cfg - 10)) (\<lambda>r. Val ((r + 10) * Second))"

definition AgentPingDefaultInterval :: "64 word" where
  "AgentPingDefaultInterval = 10 * 60 * Second"

definition ping_interval :: "64 word \<Rightarrow> 64 word" where
  "ping_interval interval = (if interval = 0 then AgentPingDefaultInterval else interval)"

definition set_device_name :: "'p agent \<Rightarrow> 'p agent go" where
  "set_device_name a =
     (case (agent_server a, authData a) of
        (Some srv, Some auth) \<Rightarrow> Val (a\<lparr>agent_server := Some (SetDeviceName (Name auth) srv)\<rparr>)
      | _ \<Rightarrow> Panic)"

datatype ping_effect = ResetTicker "64 word" | StopTicker

text \<open>One tick: authorise, then log the agent's name, then choose the next delay.\<close>

definition ping_tick ::
  "('k, 'p) init_env \<Rightarrow> 64 word \<Rightarrow> nat \<Rightarrow> 'p agent \<Rightarrow> ('p agent \<times> ping_effect list) go" where
  "ping_tick env interval draw a =
     go_bind (authorize env a) (\<lambda>(a1, err).
     go_bind (if err \<noteq> None then set_device_name a1 else Val a1) (\<lambda>a2.
     case authData a2 of
       None \<Rightarrow> Panic
     | Some _ \<Rightarrow>
         go_bind (rand_timeout draw (config a2)) (\<lambda>t. Val (a2, [ResetTicker (interval + t)]))))"

text \<open>
  What the loop's \<^verbatim>\<open>select\<close> receives; \<open>AgentClosed\<close> is the check at the top of the loop. A tick
  comes with the API's answers and the number drawn.
\<close>

datatype ('k, 'p) ping_input =
  AgentClosed | PingCtxDone | ListeningStatus bool | Ticked "('k, 'p) init_env" nat

fun ping_loop ::
  "64 word \<Rightarrow> 'p agent \<Rightarrow> ('k, 'p) ping_input list \<Rightarrow> ('p agent \<times> ping_effect list \<times> bool) go" where
  "ping_loop interval a [] = Val (a, [], False)"
| "ping_loop interval a (AgentClosed # _) = Val (a, [], True)"
| "ping_loop interval a (PingCtxDone # _) = Val (a, [], True)"
| "ping_loop interval a (ListeningStatus ok # ins) =
     go_bind (ping_loop interval a ins) (\<lambda>(a', es, fin).
       Val (a', (if ok then ResetTicker interval else StopTicker) # es, fin))"
| "ping_loop interval a (Ticked env draw # ins) =
     go_bind (ping_tick env interval draw a) (\<lambda>(a1, es1).
     go_bind (ping_loop interval a1 ins) (\<lambda>(a', es, fin). Val (a', es1 @ es, fin)))"

lemma sint_range: "- (2 ^ 63) \<le> sint (w :: 64 word) \<and> sint w < 2 ^ 63"
  using sint_greater_eq [of w] sint_less [of w] by simp

lemma sint_of_int_range: "- (2 ^ 63) \<le> k \<Longrightarrow> k < 2 ^ 63 \<Longrightarrow> sint (of_int k :: 64 word) = k"
  by (simp add: signed_of_int signed_take_bit_int_eq_self)

lemma rand_timeout_value:
  assumes "sint (MaxRetryConnectionTimeout cfg) = int m" "10 < m" "m \<le> 120"
  shows "\<exists>t. rand_timeout draw cfg = Val t \<and> sint t = (10 + int draw mod (int m - 10)) * 1000000000"
proof -
  have max: "MaxRetryConnectionTimeout cfg = of_int (int m)"
    using assms(1) by (metis of_int_sint scast_id)
  then have n: "MaxRetryConnectionTimeout cfg - 10 = of_int (int m - 10)" by simp
  have s: "sint (of_int (int m - 10) :: 64 word) = int m - 10"
    using assms by (intro sint_of_int_range) auto
  let ?r = "int draw mod (int m - 10)"
  have r: "0 \<le> ?r" "?r < int m - 10" using assms by simp_all
  have r110: "?r < 110" using r(2) assms(3) by linarith
  have bounds: "- (2 ^ 63) \<le> (10 + k) * 1000000000 \<and> (10 + k) * 1000000000 < (2 ^ 63 :: int)"
    if "0 \<le> k" "k < 110" for k :: int using that by simp
  have "rand_timeout draw cfg = Val ((of_int ?r + 10) * Second)"
    unfolding rand_timeout_def Intn_def n s using assms by simp
  also have "(of_int ?r + 10) * Second = (of_int ((10 + ?r) * 1000000000) :: 64 word)"
    by (simp add: Second_def algebra_simps)
  finally have "rand_timeout draw cfg = Val (of_int ((10 + ?r) * 1000000000))" .
  moreover have "sint (of_int ((10 + ?r) * 1000000000) :: 64 word) = (10 + ?r) * 1000000000"
    using bounds [OF r(1) r110] by (intro sint_of_int_range) blast+
  ultimately show ?thesis by blast
qed

lemma rand_timeout_panics:
  "- (2 ^ 63) + 10 \<le> sint (MaxRetryConnectionTimeout cfg) \<Longrightarrow>
   sint (MaxRetryConnectionTimeout cfg) \<le> 10 \<Longrightarrow> rand_timeout draw cfg = Panic"
proof -
  assume m: "- (2 ^ 63) + 10 \<le> sint (MaxRetryConnectionTimeout cfg)"
    "sint (MaxRetryConnectionTimeout cfg) \<le> 10"
  have "MaxRetryConnectionTimeout cfg - 10 = of_int (sint (MaxRetryConnectionTimeout cfg) - 10)"
    by (simp add: scast_id)
  also have "sint \<dots> = sint (MaxRetryConnectionTimeout cfg) - 10"
    using m by (intro sint_of_int_range) simp_all
  finally show ?thesis using m by (simp add: rand_timeout_def Intn_def)
qed

text \<open>
  C37. The delay of the ping, for a timeout the configuration's validation allows: at least
  ten seconds, less than the timeout, and computed without overflow, except for the
  smallest allowed timeout, ten, with which the agent panics at its first ping. An agent
  created without a timeout, as \<^verbatim>\<open>NewAgent\<close> does, panics as well.
\<close>

theorem ping_delay_bounds:
  assumes "sint (MaxRetryConnectionTimeout cfg) = int m" "m = 0 \<or> 10 \<le> m \<and> m \<le> 120"
  shows "(if m \<le> 10 then rand_timeout draw cfg = Panic
     else \<exists>t. rand_timeout draw cfg = Val t \<and>
       10 * 1000000000 \<le> sint t \<and> sint t < int m * 1000000000)"
proof (cases "m \<le> 10")
  case True
  then show ?thesis using assms(1) by (simp add: rand_timeout_panics)
next
  case False
  then obtain t where t: "rand_timeout draw cfg = Val t"
    "sint t = (10 + int draw mod (int m - 10)) * 1000000000"
    using rand_timeout_value [of cfg m draw] assms by auto
  have "0 \<le> int draw mod (int m - 10)" "int draw mod (int m - 10) < int m - 10"
    using False by simp_all
  with t False show ?thesis by auto
qed

theorem ping_delay_bounds_witness:
  "rand_timeout 5 (demo_config\<lparr>MaxRetryConnectionTimeout := 10\<rparr>) = Panic"
  using ping_delay_bounds [of "demo_config\<lparr>MaxRetryConnectionTimeout := 10\<rparr>" 10 5] by simp

text \<open>
  The agent's server learns a new device name only from a failed ping: a ping whose
  authorisation succeeds records the server's answer and leaves the device name as it is,
  whatever name was assigned; one that fails sets it to the name of the last success.
\<close>

theorem ping_updates_name_on_failure:
  assumes ready: "pubKey a = Some key" "cli a = Some c" "Identity a = Some i" "i \<noteq> []"
    and served: "agent_server a = Some srv" "authData a = Some old"
    and t: "rand_timeout draw (config a) = Val t"
  shows "ping_tick env interval draw a =
    (case auth_device env (auth_request env a key) of
       Inr new \<Rightarrow> Val (a\<lparr>authData := Some new\<rparr>, [ResetTicker (interval + t)])
     | Inl e \<Rightarrow> Val (a\<lparr>agent_server := Some (srv\<lparr>deviceName := Name old\<rparr>)\<rparr>,
         [ResetTicker (interval + t)]))"
  using served t
  by (simp add: ping_tick_def authorize_returns [OF ready] set_device_name_def SetDeviceName_def
      split: sum.split)

definition demo_ready :: "nat agent" where
  "demo_ready = demo_agent\<lparr>pubKey := Some 8, cli := Some 1, Identity := Some ''id'',
     authData := Some \<lparr>Token = ''tok'', Name = ''old'', Namespace = ''ns''\<rparr>,
     agent_server := Some (NewServer \<lparr>srv_PrivateKey = [], srv_KeepAliveInterval = 30, Features = 0\<rparr>)\<rparr>"

theorem ping_updates_name_on_failure_witness:
  "\<exists>a' es. ping_tick demo_env 600 5 demo_ready = Val (a', es) \<and>
     authData a' = Some \<lparr>Token = ''tok'', Name = ''dev'', Namespace = ''ns''\<rparr> \<and>
     agent_server a' = agent_server demo_ready"
proof -
  have "sint (MaxRetryConnectionTimeout (config demo_ready)) = int 60"
    by (simp add: demo_ready_def demo_agent_def demo_config_def)
  then obtain t where "rand_timeout 5 (config demo_ready) = Val t"
    using rand_timeout_value [of "config demo_ready" 60 5] by auto
  then show ?thesis
    using ping_updates_name_on_failure [of demo_ready 8 1 "''id''" _ _ 5 t demo_env 600]
    by (simp add: demo_ready_def demo_env_def)
qed

end
