(* ===== verification/Agent_Listen.thy ===== *)
theory Agent_Listen
  imports Agent_Run
begin

text \<open>
  \<^verbatim>\<open>Listen\<close> of \<^verbatim>\<open>agent/pkg/agent/agent.go\<close> as a step relation: the goroutine of the ping, the
  goroutine that connects to the server and serves its tunnel, and the method itself, which
  waits for its context. The first two meet on the unbuffered channel \<^verbatim>\<open>listening\<close>, which
  the ping's goroutine makes as its first step; sending on a channel that is still nil
  blocks for ever.
\<close>

datatype ping_phase = PingNew | PingWaiting | PingLooping | PingReturned

text \<open>
  \<open>Announcing b\<close>: about to send \<open>b\<close>. \<open>Stuck\<close>: blocked in a send on the nil channel.
\<close>

datatype loop_phase = LoopTop | Announcing bool | Stuck | Serving | LoopReturned

record listen_state =
  ping_at :: ping_phase
  loop_at :: loop_phase
  channel_made :: bool
  closed_flag :: bool
  ctx_done :: bool
  loop_ctx_done :: bool
  listen_returned :: bool

definition start_listen :: listen_state where
  "start_listen =
     \<lparr>ping_at = PingNew, loop_at = LoopTop, channel_made = False, closed_flag = False,
      ctx_done = False, loop_ctx_done = False, listen_returned = False\<rparr>"

text \<open>
  The ping's context is the caller's; the loop's and the method's is derived from it and
  also ends when the loop cancels it. A failed connection is tried again after a pause.
\<close>

inductive listen_step :: "listen_state \<Rightarrow> listen_state \<Rightarrow> bool" where
  ping_makes: "ping_at s = PingNew \<Longrightarrow>
    listen_step s (s\<lparr>ping_at := PingWaiting, channel_made := True\<rparr>)"
| ping_returns: "ping_at s = PingLooping \<Longrightarrow> closed_flag s \<or> ctx_done s \<Longrightarrow>
    listen_step s (s\<lparr>ping_at := PingReturned\<rparr>)"
| loop_closed: "loop_at s = LoopTop \<Longrightarrow> closed_flag s \<Longrightarrow>
    listen_step s (s\<lparr>loop_at := LoopReturned, loop_ctx_done := True\<rparr>)"
| connect: "loop_at s = LoopTop \<Longrightarrow> \<not> closed_flag s \<Longrightarrow>
    listen_step s (s\<lparr>loop_at := Announcing True\<rparr>)"
| connect_fails: "loop_at s = LoopTop \<Longrightarrow> \<not> closed_flag s \<Longrightarrow> listen_step s s"
| send_nil: "loop_at s = Announcing b \<Longrightarrow> \<not> channel_made s \<Longrightarrow>
    listen_step s (s\<lparr>loop_at := Stuck\<rparr>)"
| send_first: "loop_at s = Announcing b \<Longrightarrow> channel_made s \<Longrightarrow> ping_at s = PingWaiting \<Longrightarrow>
    listen_step s (s\<lparr>loop_at := (if b then Serving else LoopTop), ping_at := PingLooping\<rparr>)"
| send: "loop_at s = Announcing b \<Longrightarrow> channel_made s \<Longrightarrow> ping_at s = PingLooping \<Longrightarrow>
    listen_step s (s\<lparr>loop_at := (if b then Serving else LoopTop)\<rparr>)"
| serve_ends: "loop_at s = Serving \<Longrightarrow> listen_step s (s\<lparr>loop_at := Announcing False\<rparr>)"
| ctx_ends: "listen_step s (s\<lparr>ctx_done := True, loop_ctx_done := True\<rparr>)"
| close: "listen_step s (s\<lparr>closed_flag := True\<rparr>)"
| listen_returns: "loop_ctx_done s \<Longrightarrow>
    listen_step s (s\<lparr>closed_flag := True, listen_returned := True\<rparr>)"

text \<open>
  A loop that can never serve again: blocked on the nil channel, or about to send to a ping
  that has returned.
\<close>

definition dead_loop :: "listen_state \<Rightarrow> bool" where
  "dead_loop s \<longleftrightarrow> loop_at s = Stuck \<or>
     ((\<exists>b. loop_at s = Announcing b) \<and> channel_made s \<and> ping_at s = PingReturned)"

lemma stuck_step: "listen_step s t \<Longrightarrow> loop_at s = Stuck \<Longrightarrow> loop_at t = Stuck"
  by (induction rule: listen_step.induct) auto

lemma dead_step: "listen_step s t \<Longrightarrow> dead_loop s \<Longrightarrow> dead_loop t"
  by (induction rule: listen_step.induct) (auto simp: dead_loop_def)

lemma dead_steps: "listen_step\<^sup>*\<^sup>* s t \<Longrightarrow> dead_loop s \<Longrightarrow> dead_loop t"
  by (induction rule: rtranclp_induct) (auto intro: dead_step)

text \<open>A channel that has been made stays made, and then no send ever blocks on nil.\<close>

lemma made_step:
  "listen_step s t \<Longrightarrow> channel_made s \<and> loop_at s \<noteq> Stuck \<Longrightarrow> channel_made t \<and> loop_at t \<noteq> Stuck"
  by (induction rule: listen_step.induct) auto

lemma made_steps:
  "listen_step\<^sup>*\<^sup>* s t \<Longrightarrow> channel_made s \<and> loop_at s \<noteq> Stuck \<Longrightarrow>
   channel_made t \<and> loop_at t \<noteq> Stuck"
proof (induction rule: rtranclp_induct)
  case (step t u)
  then show ?case using made_step by blast
qed

lemma path2: "listen_step s t \<Longrightarrow> listen_step t u \<Longrightarrow> listen_step\<^sup>*\<^sup>* s u"
  by (meson r_into_rtranclp rtranclp.rtrancl_into_rtrancl)

text \<open>
  C35. Whether a listening agent ever serves depends on which goroutine runs first. If the
  ping's has run, no later send can block on a channel that does not exist. If the loop
  connects first, its goroutine blocks for ever: from there on the agent, connected to the
  server, serves no connection, whatever happens, while \<^verbatim>\<open>Listen\<close> goes on waiting.
\<close>

theorem listen_start_race:
  "(listen_step\<^sup>*\<^sup>* (start_listen\<lparr>ping_at := PingWaiting, channel_made := True\<rparr>) t \<longrightarrow>
      loop_at t \<noteq> Stuck) \<and>
   (\<exists>s. listen_step\<^sup>*\<^sup>* start_listen s \<and> \<not> closed_flag s \<and> \<not> ctx_done s \<and> \<not> listen_returned s \<and>
      (\<forall>t. listen_step\<^sup>*\<^sup>* s t \<longrightarrow> loop_at t = Stuck))"
proof
  show "listen_step\<^sup>*\<^sup>* (start_listen\<lparr>ping_at := PingWaiting, channel_made := True\<rparr>) t \<longrightarrow>
      loop_at t \<noteq> Stuck"
    using made_steps by (force simp: start_listen_def)
  let ?s1 = "start_listen\<lparr>loop_at := Announcing True\<rparr>"
  let ?s2 = "?s1\<lparr>loop_at := Stuck\<rparr>"
  have "listen_step start_listen ?s1" by (rule connect) (simp_all add: start_listen_def)
  moreover have "listen_step ?s1 ?s2"
    by (rule send_nil [where b = True]) (simp_all add: start_listen_def)
  ultimately have "listen_step\<^sup>*\<^sup>* start_listen ?s2" by (rule path2)
  moreover have "loop_at t = Stuck" if "listen_step\<^sup>*\<^sup>* ?s2 t" for t
    using that by (induction rule: rtranclp_induct) (auto dest: stuck_step)
  ultimately show "\<exists>s. listen_step\<^sup>*\<^sup>* start_listen s \<and> \<not> closed_flag s \<and> \<not> ctx_done s \<and>
      \<not> listen_returned s \<and> (\<forall>t. listen_step\<^sup>*\<^sup>* s t \<longrightarrow> loop_at t = Stuck)"
    by (intro exI [of _ ?s2]) (simp add: start_listen_def)
qed

theorem listen_start_race_witness:
  "loop_at (start_listen\<lparr>ping_at := PingWaiting, channel_made := True\<rparr>) \<noteq> Stuck"
  using listen_start_race by blast

text \<open>
  An agent that is closed while it serves leaves its loop behind: once the ping has
  returned, nobody receives the loop's announcement that it stopped serving, and its
  goroutine never returns. The method itself returns all the same.
\<close>

theorem close_leaves_loop:
  "\<exists>s. listen_step\<^sup>*\<^sup>* start_listen s \<and> listen_returned s \<and>
     (\<forall>t. listen_step\<^sup>*\<^sup>* s t \<longrightarrow> loop_at t \<noteq> LoopReturned)"
proof -
  let ?s0 = start_listen
  have s1: "listen_step ?s0 (?s0\<lparr>ping_at := PingWaiting, channel_made := True\<rparr>)"
      (is "listen_step _ ?s1")
    by (rule ping_makes) (simp add: start_listen_def)
  have s2: "listen_step ?s1 (?s1\<lparr>loop_at := Announcing True\<rparr>)" (is "listen_step _ ?s2")
    by (rule connect) (simp_all add: start_listen_def)
  have s3: "listen_step ?s2 (?s2\<lparr>loop_at := (if True then Serving else LoopTop), ping_at := PingLooping\<rparr>)"
      (is "listen_step _ ?s3")
    by (rule send_first) simp_all
  have s4: "listen_step ?s3 (?s3\<lparr>ctx_done := True, loop_ctx_done := True\<rparr>)" (is "listen_step _ ?s4")
    by (rule ctx_ends)
  have s5: "listen_step ?s4 (?s4\<lparr>closed_flag := True, listen_returned := True\<rparr>)"
      (is "listen_step _ ?s5")
    by (rule listen_returns) simp
  have s6: "listen_step ?s5 (?s5\<lparr>ping_at := PingReturned\<rparr>)" (is "listen_step _ ?s6")
    by (rule ping_returns) simp_all
  have s7: "listen_step ?s6 (?s6\<lparr>loop_at := Announcing False\<rparr>)" (is "listen_step _ ?s7")
    by (rule serve_ends) simp
  have "listen_step\<^sup>*\<^sup>* ?s0 ?s7"
    using path2 [OF s1 s2] path2 [OF s3 s4] path2 [OF s5 s6] s7
    by (meson rtranclp.rtrancl_into_rtrancl rtranclp_trans)
  moreover have "dead_loop ?s7" unfolding dead_loop_def by force
  moreover have "loop_at t \<noteq> LoopReturned" if "listen_step\<^sup>*\<^sup>* ?s7 t" for t
    using dead_steps [OF that \<open>dead_loop ?s7\<close>] by (auto simp: dead_loop_def)
  ultimately show ?thesis by (intro exI [of _ ?s7]) simp
qed

end
