(* ===== verification/Agent_Tunnel.thy ===== *)
theory Agent_Tunnel
  imports Agent_Core
begin

text \<open>
  The HTTP server that the agent runs at its end of the reverse tunnel
  (\<^verbatim>\<open>agent/pkg/agent/pkg/tunnel\<close>) and its three handlers (\<^verbatim>\<open>agent/pkg/agent/agent.go\<close>): SSH
  connections, their closing, and the proxy to addresses on the device.
\<close>

section \<open>Routes\<close>

text \<open>A handler not set is the default, which panics.\<close>

record 'h Tunnel =
  HTTPProxyHandler :: "'h option"
  SSHHandler :: "'h option"
  SSHCloseHandler :: "'h option"

definition NewTunnel :: "'h Tunnel" where
  "NewTunnel = \<lparr>HTTPProxyHandler = None, SSHHandler = None, SSHCloseHandler = None\<rparr>"

definition WithHTTPProxyHandler :: "'h \<Rightarrow> 'h Tunnel \<Rightarrow> 'h Tunnel" where
  "WithHTTPProxyHandler h t = t\<lparr>HTTPProxyHandler := Some h\<rparr>"

definition WithSSHHandler :: "'h \<Rightarrow> 'h Tunnel \<Rightarrow> 'h Tunnel" where
  "WithSSHHandler h t = t\<lparr>SSHHandler := Some h\<rparr>"

definition WithSSHCloseHandler :: "'h \<Rightarrow> 'h Tunnel \<Rightarrow> 'h Tunnel" where
  "WithSSHCloseHandler h t = t\<lparr>SSHCloseHandler := Some h\<rparr>"

text \<open>
  The routes: method, path pattern and handler, which is looked up when a request comes.
  Matching a path against a pattern is the router's.
\<close>

definition tunnel_routes :: "(string \<times> string \<times> ('h Tunnel \<Rightarrow> 'h option)) list" where
  "tunnel_routes =
     [(''GET'', ''/ssh/:id'', SSHHandler), (''GET'', ''/ssh/close/:id'', SSHCloseHandler),
      (''CONNECT'', ''/http/proxy/:addr'', HTTPProxyHandler)]"

definition serve_route ::
  "(string \<Rightarrow> string \<Rightarrow> bool) \<Rightarrow> 'h Tunnel \<Rightarrow> string \<Rightarrow> string \<Rightarrow> 'h option go" where
  "serve_route matches t meth path =
     (case find (\<lambda>(m, pat, _). m = meth \<and> matches pat path) tunnel_routes of
        None \<Rightarrow> Val None
      | Some (_, _, h) \<Rightarrow> (case h t of None \<Rightarrow> Panic | Some f \<Rightarrow> Val (Some f)))"

text \<open>\<open>close_router\<close> and \<open>close_server\<close> are the results of closing the two.\<close>

definition Tunnel_Close :: "go_error option \<Rightarrow> go_error option \<Rightarrow> go_error option" where
  "Tunnel_Close close_router close_server =
     (case close_router of Some e \<Rightarrow> Some e | None \<Rightarrow> close_server)"

text \<open>
  Closing the agent. Its tunnel is built by \<^verbatim>\<open>Listen\<close>, so \<open>built\<close> is \<open>None\<close> before; the
  results are those of closing the tunnel's router and server.
\<close>

definition agent_isClosed :: "'p agent \<Rightarrow> bool" where
  "agent_isClosed a = is_closed a"

definition agent_Close ::
  "'h Tunnel option \<Rightarrow> go_error option \<Rightarrow> go_error option \<Rightarrow> 'p agent \<Rightarrow>
   ('p agent \<times> go_error option) go" where
  "agent_Close built close_router close_server a =
     (case built of
        None \<Rightarrow> Panic
      | Some _ \<Rightarrow> Val (a\<lparr>is_closed := True\<rparr>, Tunnel_Close close_router close_server))"

text \<open>
  An agent that listens is closed by closing it, whatever happens to its tunnel; the server
  of the tunnel is left open exactly when its router could not be closed. One that was
  initialised but does not listen yet panics.
\<close>

lemma agent_Close_exact:
  "agent_Close (Some t) r s a = Val (a', e) \<Longrightarrow>
     agent_isClosed a' \<and> (e = None \<longleftrightarrow> r = None \<and> s = None)"
  "agent_Close None r s a = Panic"
  by (auto simp: agent_Close_def agent_isClosed_def Tunnel_Close_def split: option.splits)

definition built_tunnel :: "'h \<Rightarrow> 'h \<Rightarrow> 'h \<Rightarrow> 'h Tunnel" where
  "built_tunnel ssh close proxy =
     WithHTTPProxyHandler proxy (WithSSHCloseHandler close (WithSSHHandler ssh NewTunnel))"

lemma built_tunnel_never_panics: "returns (serve_route matches (built_tunnel s c p) meth path)"
  by (auto simp: serve_route_def tunnel_routes_def built_tunnel_def WithHTTPProxyHandler_def
      WithSSHCloseHandler_def WithSSHHandler_def)

lemma no_delete_route: "serve_route matches t ''DELETE'' path = Val None"
  by (simp add: serve_route_def tunnel_routes_def)

section \<open>SSH connections\<close>

datatype http_effect =
    Respond int string
  | HandleConn handle
  | CloseConnection handle
  | CloseStored handle

text \<open>
  \<open>hijacked\<close> says whether the response can be hijacked (\<open>None\<close> if the server does not
  support it) and how that went; \<open>http_conn\<close> is the connection in the request's context.
\<close>

definition sshHandler ::
  "(go_error + handle) option \<Rightarrow> handle option \<Rightarrow> string \<Rightarrow> Server \<Rightarrow> (Server \<times> http_effect list) go"
  where
  "sshHandler hijacked http_conn i srv =
     (case hijacked of
        None \<Rightarrow> Val (srv, [Respond 500 ''webserver doesn't support hijacking''])
      | Some (Inl _) \<Rightarrow> Val (srv, [Respond 500 ''failed to hijack connection''])
      | Some (Inr conn) \<Rightarrow>
          (case http_conn of
             None \<Rightarrow> Panic
           | Some c \<Rightarrow> Val (StoreSession i c srv, [HandleConn c, CloseConnection conn])))"

text \<open>Its log message reads the agent's authorisation.\<close>

definition sshCloseHandler ::
  "'p agent \<Rightarrow> string \<Rightarrow> Server \<Rightarrow> (Server \<times> close_effect list) go" where
  "sshCloseHandler a i srv =
     (case authData a of
        None \<Rightarrow> Panic
      | Some _ \<Rightarrow> Val (CloseSession i srv))"

text \<open>
  The life of an entry in the table of connections: a connection that has ended stays in it
  until a request closes it by its identifier, which then closes that very connection.
\<close>

lemma ssh_handler_then_close:
  assumes "authData a = Some auth"
  shows "go_bind (sshHandler (Some (Inr conn)) (Some c) i srv) (\<lambda>(srv', _). sshCloseHandler a i srv') =
    Val (srv\<lparr>Sessions := (Sessions srv)(i := None)\<rparr>, [CloseConn c])"
  using assms
  by (simp add: sshHandler_def sshCloseHandler_def StoreSession_def CloseSession_def)

section \<open>The proxy\<close>

text \<open>
  In the connector mode, which this repository does not contain, the address is first
  looked for in the container's networks. The container's inspection and the package
  \<^verbatim>\<open>net/netip\<close> are parameters: \<open>'ip\<close> is the type of addresses and \<open>'net\<close> that of prefixes.
\<close>

record docker_network =
  net_IPAddress :: string
  net_Gateway :: string
  net_IPPrefixLen :: int

record ('ip, 'net) netip =
  ParseAddr :: "string \<Rightarrow> go_error + 'ip"
  IsLoopback :: "'ip \<Rightarrow> bool"
  ParsePrefix :: "string \<Rightarrow> go_error + 'net"
  net_contains :: "'net \<Rightarrow> 'ip \<Rightarrow> bool"
  ip_String :: "'ip \<Rightarrow> string"

fun find_network :: "('ip, 'net) netip \<Rightarrow> string \<Rightarrow> docker_network list \<Rightarrow> string" where
  "find_network ni host [] = []"
| "find_network ni host (n # ns) =
     (case ParsePrefix ni (net_Gateway n @ ''/'' @ FormatInt (net_IPPrefixLen n)) of
        Inl _ \<Rightarrow> find_network ni host ns
      | Inr subnet \<Rightarrow>
          (case ParseAddr ni host of
             Inl _ \<Rightarrow> find_network ni host ns
           | Inr ip \<Rightarrow>
               if net_contains ni subnet ip then ip_String ni ip else find_network ni host ns))"

text \<open>The result is the message of the failure, or the host to connect to.\<close>

definition connector_target ::
  "('ip, 'net) netip \<Rightarrow> go_error option \<Rightarrow> go_error + docker_network list \<Rightarrow> string \<Rightarrow> string + string"
  where
  "connector_target ni docker_client inspected host =
     (if docker_client \<noteq> None then Inl ''failed to connect to the Docker Engine''
      else (case inspected of
              Inl _ \<Rightarrow> Inl ''failed to inspect the container''
            | Inr networks \<Rightarrow>
                (case ParseAddr ni host of
                   Inl _ \<Rightarrow> Inl ''failed to parse the for lookback checkage''
                 | Inr addr \<Rightarrow>
                     let target =
                       (if IsLoopback ni addr
                        then (case networks of [] \<Rightarrow> [] | n # _ \<Rightarrow> net_IPAddress n)
                        else find_network ni host networks)
                     in (if target = [] then Inl ''address not found on the device'' else Inr target))))"

datatype proxy_effect =
    ProxyError string
  | ProxyDial string
  | ProxyOK
  | CopyBothWays
  | CloseIn
  | CloseOut

text \<open>
  \<open>connector\<close> gives the connector mode's look-up, when the agent is in that mode; \<open>dial\<close>,
  \<open>sent_ok\<close> and \<open>hijack\<close> are the results of connecting, of answering and of taking the
  connection over. When one direction ends both ends are closed, and the deferred calls
  close them again.
\<close>

definition httpProxyHandler ::
  "(string \<Rightarrow> string + string) option \<Rightarrow> (string \<Rightarrow> go_error + handle) \<Rightarrow> go_error option \<Rightarrow>
   go_error option \<Rightarrow> string \<Rightarrow> proxy_effect list" where
  "httpProxyHandler connector dial sent_ok hijack param =
     (case SplitHostPort param of
        Inl _ \<Rightarrow> [ProxyError ''failed because address is invalid'']
      | Inr (host, port) \<Rightarrow>
          (case (case connector of None \<Rightarrow> Inr host | Some look \<Rightarrow> look host) of
             Inl msg \<Rightarrow> [ProxyError msg]
           | Inr target \<Rightarrow>
               let addr = target @ '':'' @ port
               in ProxyDial addr #
                 (case dial addr of
                    Inl _ \<Rightarrow> [ProxyError ''failed to connect to the server on device'']
                  | Inr _ \<Rightarrow>
                      (if sent_ok \<noteq> None
                       then [ProxyError ''failed to send the ok status code back to server'']
                       else ProxyOK #
                         (if hijack \<noteq> None then [ProxyError ''failed to hijack connection'']
                          else [CopyBothWays, CloseOut, CloseIn, CloseOut])) @ [CloseIn])))"

lemma SplitHostPort_too_many:
  assumes "CHR '':'' \<in> set h" "plain_host h" "plain_port p"
  shows "SplitHostPort (h @ '':'' @ p) = Inl (addr_err (h @ '':'' @ p) ''too many colons in address'')"
proof -
  have "cut_last (CHR '':'') (h @ CHR '':'' # p) = Some (h, p)"
    using assms by (simp add: cut_last_append plain_port_def)
  moreover have "take 1 (h @ CHR '':'' # p) \<noteq> ''[''"
    using assms by (cases h) (auto simp: plain_host_def)
  ultimately show ?thesis using assms(1) by (simp add: SplitHostPort_def)
qed

text \<open>
  C38. The proxy dials exactly the host and port it was asked for, when the host is a name
  or an IPv4 address. An IPv6 address loses its brackets on the way: what is dialled is no
  address at all, its host and port cannot be told apart any more.
\<close>

theorem proxy_dials_requested:
  assumes "plain_host h" "plain_port p"
  shows "\<exists>addr rest. httpProxyHandler None dial sent_ok hijack (JoinHostPort h p) =
       ProxyDial addr # rest \<and>
     (if CHR '':'' \<in> set h
      then SplitHostPort addr = Inl (addr_err addr ''too many colons in address'')
      else SplitHostPort addr = Inr (h, p))"
proof -
  have "\<exists>rest. httpProxyHandler None dial sent_ok hijack (JoinHostPort h p) =
      ProxyDial (h @ '':'' @ p) # rest"
    by (simp add: httpProxyHandler_def SplitHostPort_Join [OF assms] Let_def)
  then show ?thesis
    using SplitHostPort_too_many [OF _ assms] SplitHostPort_plain [OF assms(1) _ assms(2)] by auto
qed

theorem proxy_dials_requested_witness:
  "\<exists>addr rest. httpProxyHandler None (\<lambda>_. Inr 1) None None (JoinHostPort ''::1'' ''80'') =
       ProxyDial addr # rest \<and>
     SplitHostPort addr = Inl (addr_err addr ''too many colons in address'')"
proof -
  have "plain_host ''::1''" "plain_port ''80''" by (simp_all add: plain_host_def plain_port_def)
  then show ?thesis
    using proxy_dials_requested [of "''::1''" "''80''" "\<lambda>_. Inr 1" None None] by simp
qed

end
