(* ===== verification/Agent_Main.thy ===== *)
theory Agent_Main
  imports Agent_Server Host_Mode
begin

text \<open>
  \<^verbatim>\<open>agent/main.go\<close>: the minimal agent's program. It builds the agent's SSH server in host
  mode, connects to the server over a WebSocket under its device identifier, and serves
  every stream of the yamux session as an SSH connection.
\<close>

record main_params =
  serverURL :: string
  deviceID :: string
  privKey :: string
  singleUserPass :: string

text \<open>The configuration of its SSH server: only the key's path is given.\<close>

definition main_server_config :: "main_params \<Rightarrow> Config" where
  "main_server_config p =
     \<lparr>srv_PrivateKey = privKey p, srv_KeepAliveInterval = 0, Features = NoFeature\<rparr>"

definition main_server :: "main_params \<Rightarrow> Server" where
  "main_server p = NewServer (main_server_config p)"

definition main_authenticator :: "main_params \<Rightarrow> Authenticator" where
  "main_authenticator p = NewAuthenticator (singleUserPass p)"

datatype main_effect =
    Fatal string
  | DialServer string "(string \<times> string) list"
  | YamuxClient handle
  | ServeStream handle
  | CloseStream handle
  | CloseYamux
  | SleepSecond

text \<open>Handling a stream: it is served as an SSH connection and then closed.\<close>

definition handleSSHStream :: "handle \<Rightarrow> main_effect list" where
  "handleSSHStream stream = [ServeStream stream, CloseStream stream]"

text \<open>
  The loop that accepts streams, each handled by its own goroutine: the goroutines started,
  and whether the loop has ended, which the first failure to accept makes it do.
\<close>

fun accept_streams :: "(go_error + handle) list \<Rightarrow> main_effect list list \<times> bool" where
  "accept_streams [] = ([], False)"
| "accept_streams (Inl _ # _) = ([], True)"
| "accept_streams (Inr st # rs) =
     (let (gs, fin) = accept_streams rs in (handleSSHStream st # gs, fin))"

text \<open>
  \<open>dialled\<close> and \<open>yamux\<close> are the results of connecting and of creating the session, and
  \<open>accepted\<close> those of accepting. The results are the main goroutine's effects and the
  goroutines of the streams.
\<close>

definition agent_main ::
  "main_params \<Rightarrow> go_error + handle \<Rightarrow> go_error + handle \<Rightarrow> (go_error + handle) list \<Rightarrow>
   main_effect list \<times> main_effect list list" where
  "agent_main p dialled yamux accepted =
     (if serverURL p = [] \<or> deviceID p = [] then
        ([Fatal ''missing required params: --server, --id''], [])
      else
        let dial = DialServer (serverURL p @ ''/ssh/connection'') [(''X-Device-ID'', deviceID p)]
        in (case dialled of
              Inl _ \<Rightarrow> ([dial, Fatal ''failed to connect to server''], [])
            | Inr c \<Rightarrow>
                (case yamux of
                   Inl _ \<Rightarrow> ([dial, Fatal ''failed to create yamux session''], [])
                 | Inr y \<Rightarrow>
                     (let (gs, fin) = accept_streams accepted
                      in (dial # YamuxClient c # (if fin then [SleepSecond, CloseYamux] else []), gs)))))"

text \<open>Every accepted stream is served exactly once, and closed afterwards.\<close>

lemma accept_streams_serves:
  "concat (fst (accept_streams rs)) =
     concat (map (\<lambda>r. handleSSHStream (projr r)) (takeWhile (\<lambda>r. \<not> isl r) rs))"
  by (induction rs rule: accept_streams.induct) (auto split: prod.splits)

end
