(* ===== verification/Spec2Isabelle.thy ===== *)
theory Spec2Isabelle
  imports Session_Channel Session_Lifecycle Channel_Openings Channel_End Keepalive_Backlog
    Exec_End_To_End Agent_Forwarding Direct_TCPIP
    Device_Handler Server_Main Directory Login_Protocol Client_Isolation Session_Input Yamux_WS
    Agent_Requests Host_Session Exec_Output SFTP_Server Agent_Listen Agent_Tunnel Agent_Main
begin

text \<open>
  mini-shellhub connects SSH clients to devices that nobody can reach directly. A device's
  agent opens a WebSocket to the server and keeps a yamux session over it; a client connects
  to the server's SSH port as \<^verbatim>\<open>user@device\<close>, and the server bridges it, over a stream of
  the device's session, to the SSH server inside the agent, which runs the command. This
  library models that program, the Go code under \<^verbatim>\<open>src/\<close>, and proves what makes its parts
  correct, and where they are not, what goes wrong.

  \<^bold>\<open>The server, from the outside in.\<close>

  \<^item> \<open>Device_Manager\<close> and \<open>Device_Handler\<close> (\<^verbatim>\<open>ssh/main.go\<close>): the registry of device sessions and
    the handler that upgrades a device's request, registers it and waits. The registry's
    operations are atomic, as they hold its mutex; the handlers are a step relation whose
    steps interleave, with an invariant that ties every entry to its handler. \<open>Directory\<close> is
    what the registry promises, an abstract directory of the devices that are online, and
    the refinement to it. \<open>Server_Main\<close> (\<^verbatim>\<open>ssh/main.go\<close>, \<^verbatim>\<open>server.go\<close>): the process around them.
  \<^item> \<open>Tunnel\<close> (\<^verbatim>\<open>ssh/server/tunnel.go\<close>): dialling a device through the registry, and the adapter
    from streams to connections. \<open>Target\<close> and \<open>Host\<close> (\<^verbatim>\<open>ssh/pkg\<close>): user names and addresses.
  \<^item> \<open>Session\<close> (\<^verbatim>\<open>ssh/session\<close>): the session of a client, the snapshot in its context, and the
    operations that create, dial, evaluate and authenticate it. Sessions are shared by
    pointers in the code, so a context holds a store from addresses to sessions; using a nil
    pointer is \<open>Panic\<close>. \<open>Auth_Handlers\<close> and \<open>SSH_Server\<close> (\<^verbatim>\<open>ssh/server\<close>) are the callbacks that
    drive it, with the states of the context they can reach. \<open>Login_Protocol\<close> is the abstract
    protocol of a login, five states and their steps, that the callbacks refine.
    \<open>Client_Isolation\<close>: many clients, whose callbacks interleave over one tunnel.
  \<^item> \<open>Session_Channel\<close>, \<open>Session_Lifecycle\<close>, \<open>Agent_Forwarding\<close>, \<open>Pipe\<close> and \<open>Direct_TCPIP\<close>
    (\<^verbatim>\<open>ssh/server/channels\<close>): opening a channel, its three request loops as functions of what
    they receive, the goroutines around them as a step relation with its termination, the
    copies of data, and port forwarding with the end of its connections. \<open>Channel_Openings\<close>: several channels of one client
    opened at the same time, whose steps interleave on the session they share.
    \<open>Channel_End\<close>: what a client has seen of the agent's output and requests when its channel
    is closed. \<open>Keepalive_Backlog\<close>: who reads the global requests of the connection to the
    agent, and what happens when nobody does.
  \<^item> \<open>Yamux_WS\<close> (\<^verbatim>\<open>pkg/yamuxws\<close>): the byte stream over a WebSocket, used on both sides.

  \<^bold>\<open>The agent.\<close>

  \<^item> \<open>Agent_Main\<close> (\<^verbatim>\<open>agent/main.go\<close>): the program. \<open>Agent_Server\<close> and \<open>Agent_Requests\<close>
    (\<^verbatim>\<open>agent/pkg/agent/server\<close>): its SSH server, the types of sessions, and how the channels of
    one connection share the type. \<open>Host_Mode\<close> and \<open>Host_Session\<close> (\<^verbatim>\<open>modes/host\<close>): the
    authenticator, the commands, terminals, the table of shells, and the methods that run a
    command, each as the sequence of its actions among the steps of its goroutines and of
    the process. \<open>Exec_Output\<close>: the pipes between a command and the goroutine that
    copies its output. \<open>SFTP_Server\<close> (\<^verbatim>\<open>sftp.go\<close>): the process that gives up its privileges.
  \<^item> \<open>Agent_Core\<close>, \<open>Agent_Run\<close>, \<open>Agent_Listen\<close> (\<^verbatim>\<open>agent.go\<close>, \<^verbatim>\<open>modes.go\<close>) and \<open>Keygen\<close>: the agent of
    the reverse tunnel: configuration, initialisation over a file system with faults, the
    ping, and the goroutines of \<^verbatim>\<open>Listen\<close>. \<open>Agent_Tunnel\<close>: its HTTP routes and handlers.

  \<open>Exec_End_To_End\<close> joins the two sides: what a run of the agent's method puts into its session
  is what the server's goroutines carry to the client. \<open>Session_Input\<close> is the way back, from
  the client to the command's standard input, on chains of copies (\<open>Relay_Chain\<close>).

  \<open>Schedules\<close> presents a step relation as the events that take its steps, so that its runs can be
  computed. \<open>Refinement\<close> says what it means that a step relation implements an abstract one, and what
  follows for its runs. \<open>Prelude\<close> and \<open>Std_Net\<close> hold what all of them share: Go's errors and panics, and the
  functions of the packages \<^verbatim>\<open>strings\<close>, \<^verbatim>\<open>strconv\<close> and \<^verbatim>\<open>net\<close> that the code calls.

  \<^bold>\<open>Conventions.\<close> A fallible function returns a sum, the error on the left; one that may
  panic returns a value of type \<open>go\<close>. Goroutines that only read inputs are functions of a list of
  what they receive, with their effects as a list; where the order of several matters, they
  are inductive step relations. Integers whose width matters are words: seats, features,
  ports, intervals and timeouts. No definition needs fuel: every loop recurses on its
  inputs, so an input list stands for any finite prefix of a run, and each such function
  also says whether the loop has returned.

  \<^bold>\<open>Interfaces.\<close> The locales \<open>device_registry\<close>, \<open>tunnel\<close>, \<open>auth_method\<close>, \<open>sink\<close>,
  \<open>authenticator\<close>, \<open>schedules\<close> and \<open>implements\<close> state what one component relies on in another, or
  what several relations share; each is interpreted on the definitions of the component that
  provides it.

  \<^bold>\<open>What is a parameter.\<close> The libraries the code calls: yamux, the SSH and WebSocket
  libraries, the version, router, container and environment packages, the ShellHub API
  client, RSA, X.509 and PEM. They appear as arguments of the definitions; what is relied on
  is a hypothesis of the theorem that needs it, shown satisfiable by its witness.

  \<^bold>\<open>What is not modelled.\<close> Logging, the generated mocks and the tests. Opening and accepting
  channels and sockets, keys and processes are given by their results. In
  \<open>Channel_End\<close> and \<open>Keepalive_Backlog\<close> the client's connection lasts and can be written to,
  as can what the copies of \<open>Session_Input\<close> write to. In
  \<open>Channel_Openings\<close> the increment of the seat counter and each access to a table are single
  steps, although nothing in the code makes them so; the runtime may also stop the server
  when it notices such an access.

  \<^bold>\<open>What the properties show.\<close> That the registry names live sessions in every interleaving
  and refines a directory; exactly which devices a client reaches, from the agent's program
  to the client's channel; that authentication never panics, keeps the context consistent
  and refines the login protocol, and that clients do not disturb one another; that a channel's handler ends when its client has gone; that
  a channel which the agent ends is closed only after everything has been passed on, so that
  a command's output and status arrive complete, from its process to the client, and that the end of its input reaches a command that has
  no terminal;
  that channels forward requests and data faithfully, in order and to
  the end; that the adapter over WebSockets is a byte stream; that commands report their
  output before their status; that the agent initialises completely and gives up its
  privileges in order. And where the code does something else than it means to: a
  reconnecting device that is thrown out, channels that share a seat, users that crash the server or the agent, shells
  and commands that hang, output that is lost, processes that outlive their connection,
  forwarded connections whose end is not passed on, a connection that keepalives block, names and keys that are never repaired.
\<close>

section \<open>Properties across components\<close>



section \<open>From the agent's program to a client's channel\<close>

text \<open>The server's view of the headers of a request: a header that is not set reads empty.\<close>

definition headers_request :: "(string \<times> string) list \<Rightarrow> conn_request" where
  "headers_request hs =
     (let get = (\<lambda>k. case map_of hs k of Some v \<Rightarrow> v | None \<Rightarrow> [])
      in \<lparr>X_Device_ID = get ''X-Device-ID'', X_Device_UID = get ''X-Device-UID''\<rparr>)"

lemma agent_main_request:
  assumes "DialServer url hs \<in> set (fst (agent_main p dialled yamux accepted))"
  shows "url = serverURL p @ ''/ssh/connection'' \<and>
    request_device_id (headers_request hs) = deviceID p"
  using assms
  by (auto simp: agent_main_def headers_request_def request_device_id_def Let_def
      split: if_splits sum.splits prod.splits)

lemma evaluated_with_unique: "evaluated_with ctx c \<Longrightarrow> evaluated_with ctx c' \<Longrightarrow> c = c'"
  by (auto simp: evaluated_with_def)

lemma dial_id_iff:
  "dial_id d = i \<longleftrightarrow> CHR '':'' \<in> set d \<and> d = i \<or> CHR '':'' \<notin> set d \<and> i = ''default:'' @ d"
  by (auto simp: dial_id_def Contains_char)

text \<open>The path the agent asks for is the one the server routes to its handler.\<close>

lemma agent_dials_route:
  assumes "DialServer url hs \<in> set (fst (agent_main p dialled yamux accepted))"
  shows "url = serverURL p @ connection_route"
  using agent_main_request [OF assms] by (simp add: connection_route_def)

text \<open>The context after the banner callback has connected a new client.\<close>

lemma login_evaluated:
  assumes "NewHost remote = Inr h" "CHR ''@'' \<notin> set u" "dial (dial_id d) = Inr c"
  shows "BannerHandler dial (new_context (u @ CHR ''@'' # d) remote sid) =
    Val ((new_context (u @ CHR ''@'' # d) remote sid)
      \<lparr>snap := Some \<lparr>snap_session = Some 0, snap_state = StateEvaluated\<rparr>,
       store := [0 \<mapsto> (fresh_session (new_context (u @ CHR ''@'' # d) remote sid) h
          \<lparr>Username = u, Data = d\<rparr>)
          \<lparr>Agent_of := \<lparr>Conn = Some c, Client = None, Requests = None, AgentChannels = Map.empty\<rparr>\<rparr>],
       next_addr := 1\<rparr>, [])"
  using assms
  by (simp add: BannerHandler_def NewSession_def new_context_def NewTarget_append Let_def
      getSnapshot_def save_def Session_Dial_def deref_def fresh_session_def upd_session_def
      Session_Evaluate_def)

text \<open>
  C10. A login from the banner to the first channel. When the client's address parses, the
  device its user name asks for can be dialled, the agent accepts the password for the part
  of the name before the at sign, and opens a channel, then the banner is empty, the
  password lets the client in, and its first session channel is bridged on the first seat,
  in a session that holds the dialled connection and the client on the agent.
\<close>

theorem login_opens_channel:
  assumes "NewHost remote = Inr h" "CHR ''@'' \<notin> set u" "dial (dial_id d) = Inr c"
    and "hs c \<lparr>cfg_User = u, cfg_Auth = [pwd]\<rparr> = Inr (cl, rq)"
    and "open_channel cl SessionChannel = Inr ag"
  shows "\<exists>ctx1 ctx2 ctx3 s.
     BannerHandler dial (new_context (u @ CHR ''@'' # d) remote sid) = Val (ctx1, []) \<and>
     PasswordHandler dial hs ctx1 pwd = Val (ctx2, True) \<and>
     open_session_channels (Inr ch) open_channel ctx2 =
       Val (ctx3, [], Some \<lparr>opened_seat = 0, opened_client = ch, opened_agent = ag\<rparr>) \<and>
     store ctx3 0 = Some s \<and> Conn (Agent_of s) = Some c \<and> Client (Agent_of s) = Some cl \<and>
     Username (Target_of s) = u \<and> Device_UID (Device_of s) = d"
  unfolding login_evaluated [of remote h u dial d c, OF assms(1-3)]
  using assms
  by (simp add: PasswordHandler_def ObtainSession_def getSnapshot_def retrieve_def
      Session_Auth_def deref_def auth_connect_def AuthPassword_def save_def upd_session_def
      fresh_session_def less_State_def open_session_channels_def NewSeat_def
      NewClientChannel_def NewAgentChannel_def Let_def)

theorem login_opens_channel_witness:
  "\<exists>ctx1 ctx2. BannerHandler demo_dial (new_context ''root@t:dev'' ''10.0.0.1:5000'' ''s1'') =
       Val (ctx1, []) \<and>
     PasswordHandler demo_dial (\<lambda>_ _. Inr (5, 6)) ctx1 ''pw'' = Val (ctx2, True)"
proof -
  have "NewHost ''10.0.0.1:5000'' = Inr \<lparr>HostName = ''10.0.0.1''\<rparr>" by code_simp
  moreover have "\<exists>c. demo_dial (dial_id ''t:dev'') = Inr c" by (simp add: demo_dial_def)
  ultimately show ?thesis
    using login_opens_channel [of "''10.0.0.1:5000''" _ "''root''" demo_dial "''t:dev''" _
        "\<lambda>_ _. Inr (5, 6)" "''pw''" 5 6 "\<lambda>_ _. Inr 12" 12 "''s1''" 11]
    by fastforce
qed


lemma NewTarget_Data_iff:
  "(\<exists>t. NewTarget s = Inr t \<and> P (Data t)) \<longleftrightarrow>
     (\<exists>u d. s = u @ CHR ''@'' # d \<and> CHR ''@'' \<notin> set u \<and> P d)"
  unfolding NewTarget_iff by (metis Target.select_convs)

text \<open>
  C2. Who reaches the agent's program, end to end. While the handler of the request that the
  agent sent waits and its session is open, the clients that get an evaluated session on a
  stream of that agent are exactly those whose address parses and whose user name holds,
  after its first at sign, a name that dials the agent's identifier: that identifier
  itself, which then has a tenant, or the rest of it after the default tenant. An agent
  whose identifier names no tenant is reached by nobody.
\<close>

theorem agent_reached_by_id:
  assumes reach: "server_reachable reqs s"
    and agent: "DialServer url hs \<in> set (fst (agent_main p dialled yamux accepted))"
    and request: "reqs i = headers_request hs"
    and live: "phase_of s i = Waiting" "i \<notin> closed (manager s)"
    and streams: "yopen i = Inr st" "\<And>j. yopen j = Inr st \<Longrightarrow> j = i"
  shows "(\<exists>ctx c. BannerHandler (registry_dial yopen (manager s)) (new_context user remote sid) =
        Val (ctx, []) \<and> evaluated_with ctx c \<and> stream c = st) \<longleftrightarrow>
     (\<exists>h. NewHost remote = Inr h) \<and>
     (\<exists>u d. user = u @ CHR ''@'' # d \<and> CHR ''@'' \<notin> set u \<and>
        (CHR '':'' \<in> set d \<and> d = deviceID p \<or>
         CHR '':'' \<notin> set d \<and> deviceID p = ''default:'' @ d))"
proof -
  let ?dial = "registry_dial yopen (manager s)"
  let ?ctx = "new_context user remote sid"
  have id: "request_device_id (reqs i) = deviceID p"
    using agent_main_request [OF agent] request by simp
  have reg: "sessions (manager s) d = Some i \<longleftrightarrow> d = deviceID p" for d
    using registry_exact_aux [OF reach, of d i] live id by auto
  have dial: "?dial x = Inr c \<and> stream c = st \<longleftrightarrow>
      x = deviceID p \<and> c = \<lparr>stream = st, conn_target = deviceID p\<rparr>" for x c
  proof
    assume l: "?dial x = Inr c \<and> stream c = st"
    then obtain j where j: "sessions (manager s) x = Some j" "yopen j = Inr st" "conn_target c = x"
      unfolding registry_dial_Inr by auto
    with streams(2) have "sessions (manager s) x = Some i" by simp
    with reg l j show "x = deviceID p \<and> c = \<lparr>stream = st, conn_target = deviceID p\<rparr>"
      by (cases c) simp
  qed (use reg streams(1) in \<open>auto simp: registry_dial_Inr\<close>)
  obtain ctx msg where b: "BannerHandler ?dial ?ctx = Val (ctx, msg)"
    "msg = [] \<longleftrightarrow> banner_accepts ?dial ?ctx"
    "msg = [] \<Longrightarrow> \<exists>t c. NewTarget user = Inr t \<and> ?dial (dial_id (Data t)) = Inr c \<and> evaluated_with ctx c"
    using banner_exact_aux [OF new_context_inv, of ?dial user remote sid]
    by (auto simp: new_context_def)
  have "(\<exists>ctx c. BannerHandler ?dial ?ctx = Val (ctx, []) \<and> evaluated_with ctx c \<and> stream c = st) \<longleftrightarrow>
      (\<exists>h t. NewHost remote = Inr h \<and> NewTarget user = Inr t \<and> dial_id (Data t) = deviceID p)"
    (is "?lhs \<longleftrightarrow> ?rhs")
  proof
    assume ?lhs
    then obtain c where c: "evaluated_with ctx c" "stream c = st" "msg = []" using b by auto
    then obtain t c' where t: "NewTarget user = Inr t" "?dial (dial_id (Data t)) = Inr c'"
      "evaluated_with ctx c'" using b by blast
    then have "?dial (dial_id (Data t)) = Inr c" using evaluated_with_unique c by blast
    then have "dial_id (Data t) = deviceID p" using dial [of "dial_id (Data t)" c] c by simp
    moreover have "\<exists>h. NewHost remote = Inr h"
      using b(2) c(3) by (auto simp: banner_accepts_def new_context_def)
    ultimately show ?rhs using t by blast
  next
    assume ?rhs
    then obtain h t where t: "NewHost remote = Inr h" "NewTarget user = Inr t"
      "dial_id (Data t) = deviceID p" by blast
    let ?c = "\<lparr>stream = st, conn_target = deviceID p\<rparr>"
    have d: "?dial (dial_id (Data t)) = Inr ?c" using dial [of "dial_id (Data t)" ?c] t by simp
    then have "msg = []" using t unfolding b(2) banner_accepts_def
      by (auto simp: new_context_def)
    then show ?lhs using b t d by auto
  qed
  also have "?rhs \<longleftrightarrow> (\<exists>h. NewHost remote = Inr h) \<and>
      (\<exists>u d. user = u @ CHR ''@'' # d \<and> CHR ''@'' \<notin> set u \<and> dial_id d = deviceID p)"
    using NewTarget_Data_iff [of user "\<lambda>d. dial_id d = deviceID p"] by blast
  finally show ?thesis unfolding dial_id_iff .
qed


theorem agent_reached_by_id_witness:
  "\<exists>ctx c. BannerHandler (registry_dial Inr (manager connected_once))
       (new_context ''root@DEVICE123'' ''10.0.0.1:5000'' ''s1'') = Val (ctx, []) \<and>
     evaluated_with ctx c \<and> stream c = 0"
proof -
  let ?p = "\<lparr>serverURL = ''http://127.0.0.1:8080'', deviceID = ''default:DEVICE123'',
    privKey = [], singleUserPass = []\<rparr>"
  have agent: "DialServer (serverURL ?p @ ''/ssh/connection'') [(''X-Device-ID'', deviceID ?p)]
      \<in> set (fst (agent_main ?p (Inr 1) (Inr 2) []))"
    by (simp add: agent_main_def)
  have req: "same_device 0 = headers_request [(''X-Device-ID'', deviceID ?p)]"
    by (simp add: same_device_def headers_request_def)
  have live: "phase_of connected_once 0 = Waiting" "0 \<notin> closed (manager connected_once)"
    by (simp_all add: connected_simps)
  have "NewHost ''10.0.0.1:5000'' = Inr \<lparr>HostName = ''10.0.0.1''\<rparr>" by code_simp
  moreover have "''root@DEVICE123'' = ''root'' @ CHR ''@'' # ''DEVICE123'' \<and>
      CHR ''@'' \<notin> set ''root'' \<and> CHR '':'' \<notin> set ''DEVICE123'' \<and>
      deviceID ?p = ''default:'' @ ''DEVICE123''" by simp
  ultimately show ?thesis
    using agent_reached_by_id [where yopen = Inr and st = 0 and user = "''root@DEVICE123''"
        and remote = "''10.0.0.1:5000''" and sid = "''s1''",
        OF reachable_connected_once agent req live refl]
    by blast
qed

text \<open>
  The agent's keepalives reach the client: every request of the agent's keepalive loop
  is one that the server passes on, under the name it uses itself, one for each tick.
\<close>

theorem keepalives_passed_on:
  "fst (keepAlive_loop (Some c) ins) =
     replicate (length (takeWhile (\<lambda>i. i = Tick) ins)) (c, ''keepalive'', False) \<and>
   fst (global_loop s (map (\<lambda>(h, ty, wants).
      Received \<lparr>rtype = ty, want_reply = wants, payload = []\<rparr> (Inr ok))
        (fst (keepAlive_loop (Some c) ins)))) =
     replicate (length (takeWhile (\<lambda>i. i = Tick) ins))
       (ToClient \<lparr>rtype = ''keepalive@shellhub.io'', want_reply = False, payload = []\<rparr>)"
proof -
  have k: "is_keepalive \<lparr>rtype = ''keepalive'', want_reply = w, payload = []\<rparr>" for w
    by (simp add: is_keepalive_def HasPrefix_def KeepAliveRequestTypePrefix_def)
  have p: "HasPrefix ''keepalive'' KeepAliveRequestTypePrefix"
    by (simp add: HasPrefix_def KeepAliveRequestTypePrefix_def)
  show ?thesis
  proof (induction ins)
    case (Cons i ins)
    obtain rs fin where l: "keepAlive_loop (Some c) ins = (rs, fin)"
      by (cases "keepAlive_loop (Some c) ins")
    obtain es fin' where g: "global_loop s (map (\<lambda>(h, ty, wants).
        Received \<lparr>rtype = ty, want_reply = wants, payload = []\<rparr> (Inr ok)) rs) = (es, fin')"
      by (metis surj_pair)
    show ?case using Cons l g k p
      by (cases i) (simp_all add: KeepAlive_def request_type_defs)
  qed simp
qed

text \<open>
  The name the agent logs for itself is one a client can use: put after a user and an at
  sign, its part before the endpoint parses to the agent's namespace and name.
\<close>

lemma sshid_names_device:
  assumes "CHR ''@'' \<notin> set u" "CHR ''.'' \<notin> set ns"
  shows "\<exists>dev. sshid ns name ep = dev @ ''@'' @ takeWhile (\<lambda>c. c \<noteq> CHR '':'') ep \<and>
    NewTarget (u @ CHR ''@'' # dev) = Inr \<lparr>Username = u, Data = dev\<rparr> \<and>
    SplitSSHID \<lparr>Username = u, Data = dev\<rparr> = Inr (ns, name)"
  using assms
  by (intro exI [of _ "ns @ ''.'' @ name"])
     (simp add: sshid_exact_aux NewTarget_append SplitSSHID_append)

text \<open>
  The server's sessions offer port forwarding, and the minimal agent's program refuses it;
  the request with which a session finishes has no route at the agent's tunnel; and a shell
  without a terminal is run as a heredoc, whose data the session channel never carries.
\<close>

lemma main_agent_refuses_forwarding:
  "LocalPortForwardingCallback ctx host port \<and> \<not> LocalPortForwarding (srv_features (main_server p))"
  by (simp add: LocalPortForwardingCallback_def main_server_def main_server_config_def
      NewServer_def feature_defs)

lemma finish_request_unrouted:
  "\<forall>(c, meth, path) \<in> set (fst (Finish s)). serve_route matches t meth path = Val None"
  by (simp add: Finish_def no_delete_route split: option.split)

lemma plain_shell_is_heredoc:
  "Agent_Server.run_session False (Some ShellRequestType) = [Call Heredoc] \<and>
   \<not> starts_pipe \<lparr>rtype = ShellRequestType, want_reply = w, payload = d\<rparr>"
  by (simp add: Agent_Server.run_session_def GetSessionType_def session_call_def request_type_defs
      agent_request_type_defs starts_pipe_def)

end
